(* ===== verification/Prelude.thy ===== *)
theory Prelude
  imports Main "HOL-Library.AList" "HOL-Library.Multiset" "HOL-Library.Word"
begin

text \<open>
  What every component of the model shares: Go strings as byte lists with the
  operations of packages \<open>strings\<close>, \<open>strconv\<close> and \<open>fmt\<close> the program calls, Go
  maps as association lists with distinct keys, Go errors as values.

  A Go string is a sequence of bytes, so a \<^typ>\<open>string\<close> (a list of 8-bit
  characters) is one. Case mapping and white space are those of the ASCII range;
  bytes from 128 on are left as they are.
\<close>

section \<open>Collections of rewrite rules\<close>

named_theorems gostr \<open>facts on Go strings\<close>
named_theorems gomap \<open>facts on Go maps\<close>
named_theorems validates \<open>the validation functions, to be unfolded\<close>

section \<open>Errors as values\<close>

text \<open>
  A Go function that returns only an \<open>error\<close> returns \<open>'e option\<close>, with \<^const>\<open>None\<close>
  for \<open>nil\<close>. One that returns a value or an error returns a sum, \<^const>\<open>Inl\<close> the
  error. The statement \<open>if err := f(); err != nil { return err }\<close> is \<open>orelse\<close>.
\<close>

definition orelse :: "'e option \<Rightarrow> 'e option \<Rightarrow> 'e option" where
  "orelse a b = (case a of None \<Rightarrow> b | Some e \<Rightarrow> Some e)"

lemma orelse_None_iff [simp]: "orelse a b = None \<longleftrightarrow> a = None \<and> b = None"
  by (simp add: orelse_def split: option.splits)

lemma orelse_simps [simp]: "orelse None b = b" "orelse (Some e) b = Some e"
  by (simp_all add: orelse_def)

text \<open>A loop that returns the first error its body returns.\<close>

fun first_error :: "('a \<Rightarrow> 'e option) \<Rightarrow> 'a list \<Rightarrow> 'e option" where
  "first_error f [] = None"
| "first_error f (x # xs) = orelse (f x) (first_error f xs)"

lemma first_error_None_iff [simp]:
  "first_error f xs = None \<longleftrightarrow> (\<forall>x \<in> set xs. f x = None)"
  by (induction xs) auto

lemma first_error_SomeD:
  "first_error f xs = Some e \<Longrightarrow>
     \<exists>ys x zs. xs = ys @ x # zs \<and> f x = Some e \<and> (\<forall>y \<in> set ys. f y = None)"
proof (induction xs)
  case Nil
  then show ?case by simp
next
  case (Cons x xs)
  show ?case
  proof (cases "f x")
    case None
    with Cons obtain ys y zs where "xs = ys @ y # zs" "f y = Some e" "\<forall>y \<in> set ys. f y = None"
      by auto
    with None have "x # xs = (x # ys) @ y # zs \<and> f y = Some e \<and> (\<forall>y \<in> set (x # ys). f y = None)"
      by simp
    then show ?thesis by blast
  next
    case (Some e')
    with Cons.prems have "x # xs = [] @ x # xs \<and> f x = Some e \<and> (\<forall>y \<in> set []. f y = None)"
      by simp
    then show ?thesis by blast
  qed
qed

text \<open>
  Functions that return a value or an error: \<open>sum_bind\<close> is a call followed by
  \<open>if err != nil { return nil, err }\<close>, \<open>wrap_error\<close> is \<open>fmt.Errorf\<close> around the error,
  \<open>traverse\<close> a loop that converts the elements of a slice with their index, \<open>fold_err\<close> a
  loop that updates variables, both stopping at the first error.
\<close>

definition sum_bind :: "'e + 'a \<Rightarrow> ('a \<Rightarrow> 'e + 'b) \<Rightarrow> 'e + 'b" where
  "sum_bind x f = (case x of Inl e \<Rightarrow> Inl e | Inr a \<Rightarrow> f a)"

definition wrap_error :: "('e \<Rightarrow> 'f) \<Rightarrow> 'e + 'a \<Rightarrow> 'f + 'a" where
  "wrap_error f x = (case x of Inl e \<Rightarrow> Inl (f e) | Inr a \<Rightarrow> Inr a)"

fun traverse :: "(nat \<Rightarrow> 'a \<Rightarrow> 'e + 'b) \<Rightarrow> nat \<Rightarrow> 'a list \<Rightarrow> 'e + 'b list" where
  "traverse f i [] = Inr []"
| "traverse f i (x # xs) = sum_bind (f i x) (\<lambda>y. sum_bind (traverse f (Suc i) xs) (\<lambda>ys. Inr (y # ys)))"

fun fold_err :: "('a \<Rightarrow> 's \<Rightarrow> 'e + 's) \<Rightarrow> 'a list \<Rightarrow> 's \<Rightarrow> 'e + 's" where
  "fold_err f [] s = Inr s"
| "fold_err f (x # xs) s = sum_bind (f x s) (fold_err f xs)"

lemma sum_bind_simps [simp]: "sum_bind (Inl e) f = Inl e" "sum_bind (Inr a) f = f a"
  by (simp_all add: sum_bind_def)

lemma sum_bind_Inr_iff: "sum_bind x f = Inr b \<longleftrightarrow> (\<exists>a. x = Inr a \<and> f a = Inr b)"
  by (cases x) auto

lemma wrap_error_simps [simp]: "wrap_error f (Inl e) = Inl (f e)" "wrap_error f (Inr a) = Inr a"
  by (simp_all add: wrap_error_def)

lemma wrap_error_Inr_iff [simp]: "wrap_error f x = Inr a \<longleftrightarrow> x = Inr a"
  by (cases x) auto

lemma fold_err_append: "fold_err f (xs @ ys) s = sum_bind (fold_err f xs s) (fold_err f ys)"
proof (induction xs arbitrary: s)
  case Nil
  then show ?case by simp
next
  case (Cons x xs)
  then show ?case by (cases "f x s") simp_all
qed

lemma traverse_map:
  "(\<And>i x. x \<in> set xs \<Longrightarrow> f i (h x) = Inr (g x)) \<Longrightarrow> traverse f i (map h xs) = Inr (map g xs)"
  by (induction xs arbitrary: i) auto

lemma traverse_Inr:
  "traverse f i xs = Inr ys \<Longrightarrow>
     length ys = length xs \<and> (\<forall>k < length xs. f (i + k) (xs ! k) = Inr (ys ! k))"
proof (induction xs arbitrary: i ys)
  case Nil
  then show ?case by simp
next
  case (Cons x xs)
  then obtain z zs where z: "f i x = Inr z" "traverse f (Suc i) xs = Inr zs" "ys = z # zs"
    by (auto simp: sum_bind_Inr_iff)
  with Cons.IH [OF z(2)] show ?case
    by (auto simp: less_Suc_eq_0_disj)
qed

section \<open>Go strings\<close>

definition has_prefix :: "string \<Rightarrow> string \<Rightarrow> bool" where
  "has_prefix s p \<longleftrightarrow> take (length p) s = p"

definition has_suffix :: "string \<Rightarrow> string \<Rightarrow> bool" where
  "has_suffix s p \<longleftrightarrow> has_prefix (rev s) (rev p)"

fun contains_str :: "string \<Rightarrow> string \<Rightarrow> bool" where
  "contains_str [] sub = (sub = [])"
| "contains_str (c # s) sub = (has_prefix (c # s) sub \<or> contains_str s sub)"

lemma has_prefix_iff: "has_prefix s p \<longleftrightarrow> (\<exists>r. s = p @ r)"
  unfolding has_prefix_def by (metis append_eq_conv_conj append_take_drop_id)

lemma has_prefix_append [simp, gostr]: "has_prefix (p @ s) p"
  by (simp add: has_prefix_def)

lemma has_prefix_Nil [simp, gostr]: "has_prefix s []"
  by (simp add: has_prefix_def)

lemma has_prefix_Cons [simp, gostr]:
  "has_prefix (c # s) (d # p) \<longleftrightarrow> c = d \<and> has_prefix s p"
  by (simp add: has_prefix_def)

lemma has_prefix_of_Nil [simp, gostr]: "has_prefix [] p \<longleftrightarrow> p = []"
  by (auto simp: has_prefix_def)

lemma has_suffix_iff: "has_suffix s p \<longleftrightarrow> (\<exists>r. s = r @ p)"
proof
  assume "has_suffix s p"
  then obtain r where "rev s = rev p @ r"
    by (auto simp: has_suffix_def has_prefix_iff)
  then have "s = rev r @ p" by (metis rev_append rev_rev_ident)
  then show "\<exists>r. s = r @ p" ..
next
  assume "\<exists>r. s = r @ p"
  then show "has_suffix s p"
    by (auto simp: has_suffix_def has_prefix_iff)
qed

lemma contains_str_iff: "contains_str s sub \<longleftrightarrow> (\<exists>a b. s = a @ sub @ b)"
proof (induction s)
  case Nil
  then show ?case by auto
next
  case (Cons c s)
  show ?case
  proof
    assume "contains_str (c # s) sub"
    then consider r where "c # s = sub @ r" | a b where "s = a @ sub @ b"
      using Cons.IH by (auto simp: has_prefix_iff)
    then show "\<exists>a b. c # s = a @ sub @ b"
    proof cases
      case 1
      then have "c # s = [] @ sub @ r" by simp
      then show ?thesis by blast
    next
      case 2
      then have "c # s = (c # a) @ sub @ b" by simp
      then show ?thesis by blast
    qed
  next
    assume "\<exists>a b. c # s = a @ sub @ b"
    then obtain a b where ab: "c # s = a @ sub @ b" by blast
    have "has_prefix (c # s) sub \<or> contains_str s sub"
    proof (cases a)
      case Nil
      with ab show ?thesis by (metis append_Nil has_prefix_append)
    next
      case (Cons d a')
      with ab Cons.IH show ?thesis by auto
    qed
    then show "contains_str (c # s) sub" by simp
  qed
qed

subsection \<open>\<open>strings.ReplaceAll\<close>\<close>

text \<open>
  Occurrences are replaced from left to right and do not overlap; an empty pattern
  matches before every character and at the end.
\<close>

fun replace_all :: "string \<Rightarrow> string \<Rightarrow> string \<Rightarrow> string" where
  "replace_all [] new s = concat (map (\<lambda>c. new @ [c]) s) @ new"
| "replace_all (k # ks) new [] = []"
| "replace_all (k # ks) new (c # s) =
     (if has_prefix (c # s) (k # ks)
      then new @ replace_all (k # ks) new (drop (length ks) s)
      else c # replace_all (k # ks) new s)"

lemma replace_all_absent [gostr]:
  "old \<noteq> [] \<Longrightarrow> \<not> contains_str s old \<Longrightarrow> replace_all old new s = s"
  by (induction old new s rule: replace_all.induct) auto

subsection \<open>\<open>strings.ToLower\<close>, \<open>strings.TrimSpace\<close>\<close>

definition lower_char :: "char \<Rightarrow> char" where
  "lower_char c = (let n = (of_char c :: nat) in
     if 65 \<le> n \<and> n \<le> 90 then char_of (n + 32) else c)"

definition to_lower :: "string \<Rightarrow> string" where
  "to_lower s = map lower_char s"

definition space_char :: "char \<Rightarrow> bool" where
  "space_char c \<longleftrightarrow> (let n = (of_char c :: nat) in n = 32 \<or> 9 \<le> n \<and> n \<le> 13)"

definition trim_space :: "string \<Rightarrow> string" where
  "trim_space s = rev (dropWhile space_char (rev (dropWhile space_char s)))"

lemma trim_space_id [gostr]:
  "s \<noteq> [] \<Longrightarrow> \<not> space_char (hd s) \<Longrightarrow> \<not> space_char (last s) \<Longrightarrow> trim_space s = s"
proof -
  have id: "\<not> space_char (hd t) \<Longrightarrow> dropWhile space_char t = t" if "t \<noteq> []" for t
    using that by (cases t) auto
  assume "s \<noteq> []" "\<not> space_char (hd s)" "\<not> space_char (last s)"
  then show ?thesis by (simp add: trim_space_def id hd_rev)
qed

lemma lower_char_idem [simp]: "lower_char (lower_char c) = lower_char c"
  by (auto simp: lower_char_def Let_def)

lemma to_lower_idem [simp]: "to_lower (to_lower s) = to_lower s"
  by (simp add: to_lower_def)

subsection \<open>Decimal numbers: the verb \<open>%d\<close>\<close>

definition dec_digit :: "nat \<Rightarrow> char" where
  "dec_digit n = ''0123456789'' ! n"

fun dec_of_nat :: "nat \<Rightarrow> string" where
  "dec_of_nat n = (if n < 10 then [dec_digit n]
                   else dec_of_nat (n div 10) @ [dec_digit (n mod 10)])"

declare dec_of_nat.simps [simp del]

text \<open>
  A decimal rendering is a non-empty run of digits and determines the number:
  \<open>dec_val\<close> reads it back.
\<close>

definition dec_digits :: string where
  "dec_digits = ''0123456789''"

fun dec_val :: "string \<Rightarrow> nat" where
  "dec_val [] = 0"
| "dec_val (c # cs) = (of_char c - 48) * 10 ^ length cs + dec_val cs"

lemma all_lt_10: "n < 10 \<longleftrightarrow> n \<in> {0, 1, 2, 3, 4, 5, 6, 7, 8, 9 :: nat}"
  by auto

lemma dec_digit_in [simp]: "n < 10 \<Longrightarrow> dec_digit n \<in> set dec_digits"
  unfolding all_lt_10 by (auto simp: dec_digit_def dec_digits_def)

lemma dec_digit_val [simp]: "n < 10 \<Longrightarrow> of_char (dec_digit n) - 48 = n"
  unfolding all_lt_10 by (auto simp: dec_digit_def)

lemma dec_of_nat_ne [simp]: "dec_of_nat n \<noteq> []"
  by (subst dec_of_nat.simps) simp

lemma dec_of_nat_digits: "set (dec_of_nat n) \<subseteq> set dec_digits"
proof (induction n rule: dec_of_nat.induct)
  case (1 n)
  then show ?case by (subst dec_of_nat.simps) auto
qed

lemma dec_val_snoc: "dec_val (cs @ [c]) = 10 * dec_val cs + (of_char c - 48)"
  by (induction cs) (auto simp: algebra_simps)

lemma dec_val_dec_of_nat [simp]: "dec_val (dec_of_nat n) = n"
proof (induction n rule: dec_of_nat.induct)
  case (1 n)
  show ?case
  proof (cases "n < 10")
    case True
    then show ?thesis by (subst dec_of_nat.simps) simp
  next
    case False
    with 1 show ?thesis by (subst dec_of_nat.simps) (simp add: dec_val_snoc)
  qed
qed

lemma dec_of_nat_inj [simp]: "dec_of_nat m = dec_of_nat n \<longleftrightarrow> m = n"
  by (metis dec_val_dec_of_nat)

definition dec_of_int :: "int \<Rightarrow> string" where
  "dec_of_int i = (if i < 0 then CHR ''-'' # dec_of_nat (nat (- i)) else dec_of_nat (nat i))"

lemma minus_not_dec: "dec_of_nat n \<noteq> CHR ''-'' # cs"
proof
  assume "dec_of_nat n = CHR ''-'' # cs"
  with dec_of_nat_digits [of n] show False by (simp add: dec_digits_def)
qed

lemma dec_of_int_inj [simp]: "dec_of_int i = dec_of_int j \<longleftrightarrow> i = j"
  using minus_not_dec minus_not_dec [symmetric] by (auto simp: dec_of_int_def nat_eq_iff)

lemma dec_of_int_chars: "set (dec_of_int i) \<subseteq> insert (CHR ''-'') (set dec_digits)"
  using dec_of_nat_digits by (auto simp: dec_of_int_def)

lemma dec_of_int_ne [simp]: "dec_of_int i \<noteq> []"
  by (simp add: dec_of_int_def)

section \<open>Go maps\<close>

text \<open>
  A Go map is an association list whose keys are distinct: \<open>m[k]\<close> is \<open>map_of m k\<close>
  (\<^const>\<open>None\<close> where the second result of the lookup is false), \<open>m[k] = v\<close> is
  \<open>AList.update\<close>, \<open>delete(m, k)\<close> is \<open>AList.delete\<close>. The order in which \<open>range\<close>
  visits a map is unspecified in Go; a function that ranges over a map takes the order
  as an argument, a function that permutes the list.
\<close>

type_synonym ('k, 'v) gomap = "('k \<times> 'v) list"

definition map_wf :: "('k, 'v) gomap \<Rightarrow> bool" where
  "map_wf m \<longleftrightarrow> distinct (map fst m)"

definition range_order :: "(('k, 'v) gomap \<Rightarrow> ('k, 'v) gomap) \<Rightarrow> bool" where
  "range_order rng \<longleftrightarrow> (\<forall>m. mset (rng m) = mset m)"

lemma range_order_set: "range_order rng \<Longrightarrow> set (rng m) = set m"
  by (metis range_order_def set_mset_mset)

lemma range_order_length: "range_order rng \<Longrightarrow> length (rng m) = length m"
  by (metis range_order_def size_mset)

lemma range_order_wf: "range_order rng \<Longrightarrow> map_wf m \<Longrightarrow> map_wf (rng m)"
  unfolding map_wf_def range_order_def by (metis mset_eq_imp_distinct_iff mset_map)

lemma range_order_map_of:
  assumes "range_order rng" and "map_wf m"
  shows "map_of (rng m) = map_of m"
  using assms range_order_wf [OF assms]
  by (intro map_of_inject_set [THEN iffD2]) (simp_all add: map_wf_def range_order_set)

lemma range_order_id [simp]: "range_order (\<lambda>m. m)"
  by (simp add: range_order_def)

lemma map_of_put [simp, gomap]: "map_of (AList.update k v m) x = (if x = k then Some v else map_of m x)"
  by (simp add: update_conv')

lemma map_of_del [simp, gomap]: "map_of (AList.delete k m) x = (if x = k then None else map_of m x)"
  by (simp add: delete_conv')

lemma map_wf_Nil [simp, gomap]: "map_wf []"
  by (simp add: map_wf_def)

lemma map_wf_put [simp, gomap]: "map_wf m \<Longrightarrow> map_wf (AList.update k v m)"
  by (simp add: map_wf_def distinct_update)

lemma map_wf_del [simp, gomap]: "map_wf m \<Longrightarrow> map_wf (AList.delete k m)"
  by (simp add: map_wf_def distinct_delete)

lemma map_wf_set: "map_wf m \<Longrightarrow> (k, v) \<in> set m \<longleftrightarrow> map_of m k = Some v"
  by (auto simp: map_wf_def)


text \<open>\<open>last_match P xs\<close>: the element a loop of assignments \<open>m[key(x)] = x\<close> leaves.\<close>

definition last_match :: "('a \<Rightarrow> bool) \<Rightarrow> 'a list \<Rightarrow> 'a option" where
  "last_match P xs = find P (rev xs)"

lemma last_match_Nil [simp]: "last_match P [] = None"
  by (simp add: last_match_def)

lemma last_match_snoc [simp]:
  "last_match P (xs @ [x]) = (if P x then Some x else last_match P xs)"
  by (simp add: last_match_def)

lemma last_match_SomeD: "last_match P xs = Some x \<Longrightarrow> x \<in> set xs \<and> P x"
  unfolding last_match_def by (metis find_Some_iff nth_mem set_rev)

lemma last_match_None: "last_match P xs = None \<longleftrightarrow> (\<forall>x \<in> set xs. \<not> P x)"
  by (auto simp: last_match_def find_None_iff)

lemma last_match_unique:
  "x \<in> set xs \<Longrightarrow> P x \<Longrightarrow> (\<And>y. y \<in> set xs \<Longrightarrow> P y \<Longrightarrow> y = x) \<Longrightarrow> last_match P xs = Some x"
  by (metis last_match_None last_match_SomeD not_Some_eq)

lemma map_wf_fold_put: "map_wf m \<Longrightarrow> map_wf (fold (\<lambda>x. AList.update (f x) x) xs m)"
  by (induction xs arbitrary: m) simp_all

end
