(* ===== verification/HwAddr.thy ===== *)
theory HwAddr
  imports Prelude
begin

text \<open>
  Hardware addresses: \<open>net.HardwareAddr\<close> with its \<open>String\<close> method and \<open>net.ParseMAC\<close>
  of the standard library, and \<open>ParseMAC\<close> and \<open>WildcardMAC\<close> of
  \<open>internal/domain/client.go\<close>. A \<open>HardwareAddr\<close> is a byte slice, \<^const>\<open>None\<close> where it
  is \<open>nil\<close>. The main facts: what is printed parses back to the same address, every
  accepted address has 6, 8 or 20 bytes, and the printed form decides equality.
\<close>

type_synonym byte = "8 word"
type_synonym hwaddr = "byte list option"

section \<open>Printing\<close>

definition hex_char :: "nat \<Rightarrow> char" where
  "hex_char n = ''0123456789abcdef'' ! n"

definition hex_byte :: "byte \<Rightarrow> string" where
  "hex_byte b = [hex_char (unat b div 16), hex_char (unat b mod 16)]"

fun bytes_string :: "byte list \<Rightarrow> string" where
  "bytes_string [] = []"
| "bytes_string [b] = hex_byte b"
| "bytes_string (b # c # bs) = hex_byte b @ CHR '':'' # bytes_string (c # bs)"

definition mac_string :: "hwaddr \<Rightarrow> string" where
  "mac_string a = (case a of None \<Rightarrow> [] | Some bs \<Rightarrow> bytes_string bs)"

lemma mac_string_simps [simp]:
  "mac_string None = []" "mac_string (Some bs) = bytes_string bs"
  by (simp_all add: mac_string_def)

section \<open>Parsing\<close>

definition hex_val :: "char \<Rightarrow> nat option" where
  "hex_val c = (let n = (of_char c :: nat) in
     if 48 \<le> n \<and> n \<le> 57 then Some (n - 48)
     else if 97 \<le> n \<and> n \<le> 102 then Some (n - 97 + 10)
     else if 65 \<le> n \<and> n \<le> 70 then Some (n - 65 + 10)
     else None)"

definition hex_pair :: "char \<Rightarrow> char \<Rightarrow> byte option" where
  "hex_pair a b = (case (hex_val a, hex_val b) of
     (Some h, Some l) \<Rightarrow> Some (of_nat (16 * h + l)) | _ \<Rightarrow> None)"

text \<open>Pairs of hexadecimal digits with one separator between them.\<close>

fun mac_pairs :: "char \<Rightarrow> string \<Rightarrow> byte list option" where
  "mac_pairs sep [a, b] = map_option (\<lambda>x. [x]) (hex_pair a b)"
| "mac_pairs sep (a # b # c # s) =
     (if c \<noteq> sep then None
      else case hex_pair a b of None \<Rightarrow> None
           | Some x \<Rightarrow> map_option ((#) x) (mac_pairs sep s))"
| "mac_pairs sep s = None"

text \<open>Groups of four digits with dots between them.\<close>

fun mac_quads :: "string \<Rightarrow> byte list option" where
  "mac_quads [a, b, c, d] =
     (case (hex_pair a b, hex_pair c d) of (Some x, Some y) \<Rightarrow> Some [x, y] | _ \<Rightarrow> None)"
| "mac_quads (a # b # c # d # e # s) =
     (if e \<noteq> CHR ''.'' then None
      else case (hex_pair a b, hex_pair c d) of
             (Some x, Some y) \<Rightarrow> map_option (\<lambda>r. x # y # r) (mac_quads s)
           | _ \<Rightarrow> None)"
| "mac_quads s = None"

definition mac_len_ok :: "nat \<Rightarrow> bool" where
  "mac_len_ok n \<longleftrightarrow> n = 6 \<or> n = 8 \<or> n = 20"

definition net_parse_mac :: "string \<Rightarrow> byte list option" where
  "net_parse_mac s =
     (let len = length s in
      if len < 14 then None
      else if s ! 2 = CHR '':'' \<or> s ! 2 = CHR ''-'' then
        (if (len + 1) mod 3 \<noteq> 0 \<or> \<not> mac_len_ok ((len + 1) div 3) then None
         else mac_pairs (s ! 2) s)
      else if s ! 4 = CHR ''.'' then
        (if (len + 1) mod 5 \<noteq> 0 \<or> \<not> mac_len_ok (2 * (len + 1) div 5) then None
         else mac_quads s)
      else None)"

definition WildcardMAC :: hwaddr where
  "WildcardMAC = Some [0, 0, 0, 0, 0, 0]"

datatype mac_error = MACEmpty | MACInvalid string

definition ParseMAC :: "string \<Rightarrow> mac_error + hwaddr" where
  "ParseMAC s0 =
     (let s = trim_space s0 in
      if s = [] then Inl MACEmpty
      else if s = ''*'' then Inr WildcardMAC
      else let s' = replace_all ''-'' '':'' s in
           case net_parse_mac s' of
             None \<Rightarrow> Inl (MACInvalid s')
           | Some bs \<Rightarrow> Inr (Some bs))"

section \<open>Lengths and round trips\<close>

lemma all_lt_16: "n < 16 \<longleftrightarrow> n \<in> {0, 1, 2, 3, 4, 5, 6, 7, 8, 9, 10, 11, 12, 13, 14, 15 :: nat}"
  unfolding insert_iff empty_iff by arith

lemma hex_val_hex_char [simp]: "n < 16 \<Longrightarrow> hex_val (hex_char n) = Some n"
  unfolding all_lt_16 by (auto simp: hex_val_def hex_char_def)

lemma hex_char_neq [simp]:
  "n < 16 \<Longrightarrow> hex_char n \<noteq> CHR '':''" "n < 16 \<Longrightarrow> hex_char n \<noteq> CHR ''-''"
  "n < 16 \<Longrightarrow> hex_char n \<noteq> CHR ''*''" "n < 16 \<Longrightarrow> hex_char n \<noteq> CHR ''$''"
  "n < 16 \<Longrightarrow> hex_char n \<noteq> CHR ''}''" "n < 16 \<Longrightarrow> hex_char n \<noteq> CHR ''{''"
  "n < 16 \<Longrightarrow> hex_char n \<noteq> CHR '' ''"
  unfolding all_lt_16 by (auto simp: hex_char_def)

lemma hex_char_not_space [simp]: "n < 16 \<Longrightarrow> \<not> space_char (hex_char n)"
  unfolding all_lt_16 by (auto simp: hex_char_def space_char_def)

lemma unat_byte_lt: "unat (b :: byte) < 256"
  using unsigned_less [of b] by simp

lemma hex_digits_lt [simp]: "unat (b :: byte) div 16 < 16" "unat (b :: byte) mod 16 < 16"
  using unat_byte_lt [of b] by auto

lemma hex_pair_hex_byte [simp]:
  "hex_pair (hex_char (unat b div 16)) (hex_char (unat b mod 16)) = Some b"
  by (simp add: hex_pair_def mult.commute)

lemma mac_pairs_bytes_string: "bs \<noteq> [] \<Longrightarrow> mac_pairs (CHR '':'') (bytes_string bs) = Some bs"
  by (induction bs rule: bytes_string.induct) (auto simp: hex_byte_def)

lemma bytes_string_inj [simp]: "bytes_string as = bytes_string bs \<longleftrightarrow> as = bs"
proof
  assume eq: "bytes_string as = bytes_string bs"
  have ne: "bytes_string cs = [] \<longleftrightarrow> cs = []" for cs
    by (induction cs rule: bytes_string.induct) (auto simp: hex_byte_def)
  show "as = bs"
  proof (cases "as = []")
    case True
    with eq ne [of bs] show ?thesis by auto
  next
    case False
    with eq ne [of as] ne [of bs] have "bs \<noteq> []" by auto
    with False eq mac_pairs_bytes_string show ?thesis by (metis option.inject)
  qed
qed simp

lemma length_bytes_string: "bs \<noteq> [] \<Longrightarrow> length (bytes_string bs) + 1 = 3 * length bs"
  by (induction bs rule: bytes_string.induct) (auto simp: hex_byte_def)

lemma bytes_string_nth2: "2 \<le> length bs \<Longrightarrow> bytes_string bs ! 2 = CHR '':''"
  by (cases bs rule: bytes_string.cases) (auto simp: hex_byte_def)

lemma net_parse_mac_bytes_string:
  assumes "mac_len_ok (length bs)"
  shows "net_parse_mac (bytes_string bs) = Some bs"
proof -
  from assms have ne: "bs \<noteq> []" and l2: "2 \<le> length bs" and l6: "6 \<le> length bs"
    by (auto simp: mac_len_ok_def)
  have len: "length (bytes_string bs) + 1 = 3 * length bs"
    by (rule length_bytes_string) (rule ne)
  with l6 have "\<not> length (bytes_string bs) < 14" by linarith
  with len assms show ?thesis
    by (simp add: net_parse_mac_def Let_def bytes_string_nth2 [OF l2]
        mac_pairs_bytes_string [OF ne])
qed

lemma mac_pairs_length: "mac_pairs sep s = Some bs \<Longrightarrow> length s + 1 = 3 * length bs"
  by (induction sep s arbitrary: bs rule: mac_pairs.induct)
     (auto split: if_splits option.splits)

lemma mac_quads_length: "mac_quads s = Some bs \<Longrightarrow> 2 * (length s + 1) = 5 * length bs"
  by (induction s arbitrary: bs rule: mac_quads.induct)
     (auto split: if_splits option.splits)

lemma net_parse_mac_length: "net_parse_mac s = Some bs \<Longrightarrow> mac_len_ok (length bs)"
  by (auto simp: net_parse_mac_def Let_def dest: mac_pairs_length mac_quads_length
      split: if_splits)

lemma ParseMAC_length:
  assumes "ParseMAC s = Inr m"
  shows "\<exists>bs. m = Some bs \<and> mac_len_ok (length bs)"
proof (cases "trim_space s = ''*''")
  case True
  with assms have "m = WildcardMAC" by (simp add: ParseMAC_def)
  then show ?thesis by (simp add: WildcardMAC_def mac_len_ok_def)
next
  case False
  with assms show ?thesis
    unfolding ParseMAC_def Let_def
    by (simp split: if_splits option.splits) (metis net_parse_mac_length)
qed

lemma bytes_string_chars:
  "c \<in> set (bytes_string bs) \<Longrightarrow> c = CHR '':'' \<or> (\<exists>n < 16. c = hex_char n)"
  by (induction bs rule: bytes_string.induct)
     (force simp: hex_byte_def intro: hex_digits_lt)+

lemma bytes_string_no [simp]:
  "CHR ''-'' \<notin> set (bytes_string bs)" "CHR ''$'' \<notin> set (bytes_string bs)"
  "CHR ''}'' \<notin> set (bytes_string bs)" "CHR ''*'' \<notin> set (bytes_string bs)"
  by (auto dest!: bytes_string_chars dest: sym)

lemma contains_str_single: "contains_str s [c] \<longleftrightarrow> c \<in> set s"
  by (induction s) auto

lemma trim_space_bytes_string [simp]: "trim_space (bytes_string bs) = bytes_string bs"
proof (cases "bs = []")
  case True
  then show ?thesis by (simp add: trim_space_def)
next
  case False
  then have "bytes_string bs \<noteq> []" and "\<not> space_char (hd (bytes_string bs))"
    and "\<not> space_char (last (bytes_string bs))"
    by (induction bs rule: bytes_string.induct) (auto simp: hex_byte_def)
  then show ?thesis by (rule trim_space_id)
qed

lemma ParseMAC_bytes_string:
  assumes "mac_len_ok (length bs)"
  shows "ParseMAC (bytes_string bs) = Inr (Some bs)"
proof -
  have "bytes_string bs \<noteq> []" using assms by (auto simp: mac_len_ok_def bytes_string_inj [of bs "[]", simplified])
  moreover have "bytes_string bs \<noteq> ''*''"
    using bytes_string_no(4) [of bs] by (metis list.set_intros(1))
  moreover have "replace_all ''-'' '':'' (bytes_string bs) = bytes_string bs"
    by (rule replace_all_absent) (simp_all add: contains_str_single)
  ultimately show ?thesis
    using net_parse_mac_bytes_string [OF assms] by (simp add: ParseMAC_def Let_def)
qed

declare bytes_string.simps [simp del]

section \<open>Letter case and separators do not matter\<close>

lemma of_char_lower: "of_char (lower_char c) =
    (if 65 \<le> (of_char c :: nat) \<and> (of_char c :: nat) \<le> 90 then of_char c + 32 else (of_char c :: nat))"
  by (simp add: lower_char_def Let_def)

lemma space_char_lower [simp]: "space_char (lower_char c) = space_char c"
  by (auto simp: space_char_def Let_def of_char_lower)

lemma hex_val_lower [simp]: "hex_val (lower_char c) = hex_val c"
  by (auto simp: hex_val_def Let_def of_char_lower)

lemma hex_pair_lower [simp]: "hex_pair (lower_char a) (lower_char b) = hex_pair a b"
  by (simp add: hex_pair_def)

lemma lower_char_eq:
  assumes "(of_char k :: nat) < 65"
  shows "lower_char c = k \<longleftrightarrow> c = k"
proof -
  have "lower_char c = k \<longleftrightarrow> (of_char (lower_char c) :: nat) = of_char k" by simp
  also have "\<dots> \<longleftrightarrow> (of_char c :: nat) = of_char k"
    using assms unfolding of_char_lower by auto
  finally show ?thesis by simp
qed

lemma trim_space_lower: "trim_space (to_lower s) = to_lower (trim_space s)"
  by (simp add: trim_space_def to_lower_def dropWhile_map rev_map o_def)

lemma replace_all_single: "replace_all [k] [n] s = map (\<lambda>c. if c = k then n else c) s"
  by (induction s) auto

lemma mac_pairs_lower:
  "(of_char sep :: nat) < 65 \<Longrightarrow> mac_pairs sep (map lower_char s) = mac_pairs sep s"
  by (induction sep s rule: mac_pairs.induct) (auto simp: lower_char_eq split: option.splits)

lemma mac_quads_lower: "mac_quads (map lower_char s) = mac_quads s"
  by (induction s rule: mac_quads.induct) (auto simp: lower_char_eq split: option.splits)

lemma lower_char_fixed [simp]:
  "lower_char (CHR '':'') = CHR '':''" "lower_char (CHR ''-'') = CHR ''-''"
  by (simp_all add: lower_char_eq)

lemma net_parse_mac_lower: "net_parse_mac (map lower_char s) = net_parse_mac s"
proof (cases "length s < 14")
  case True
  then show ?thesis by (simp add: net_parse_mac_def)
next
  case False
  then have "2 < length s" "4 < length s" by auto
  then show ?thesis
    by (simp add: net_parse_mac_def Let_def lower_char_eq mac_quads_lower)
       (auto simp: mac_pairs_lower lower_char_eq)
qed

section \<open>The claims\<close>

lemma trim_space_blank:
  assumes "\<forall>c \<in> set u \<union> set v. space_char c"
  shows "trim_space (u @ s @ v) = trim_space s"
proof -
  have left: "dropWhile space_char (w @ t) = dropWhile space_char t" if "\<forall>c \<in> set w. space_char c" for w t
    using that by (simp add: dropWhile_append2)
  show ?thesis
  proof (cases "\<forall>c \<in> set s. space_char c")
    case True
    with assms have "\<forall>c \<in> set (u @ s @ v). space_char c" by auto
    with True show ?thesis
      unfolding trim_space_def by (metis dropWhile_eq_Nil_conv)
  next
    case False
    then have "dropWhile space_char (s @ v) = dropWhile space_char s @ v"
      by (metis dropWhile_append1)
    with assms left [of u] left [of "rev v"] show ?thesis by (simp add: trim_space_def)
  qed
qed

abbreviation undash :: "char \<Rightarrow> char" where
  "undash c \<equiv> (if c = CHR ''-'' then CHR '':'' else c)"

lemma trim_space_undash: "trim_space (map undash s) = map undash (trim_space s)"
proof -
  have "space_char (undash c) = space_char c" for c by (simp add: space_char_def)
  then have "space_char \<circ> undash = space_char" by (simp add: fun_eq_iff)
  then show ?thesis by (simp add: trim_space_def dropWhile_map rev_map)
qed

lemma undash_star: "map undash s = ''*'' \<longleftrightarrow> s = ''*''"
  by (cases s) (auto split: if_splits)

lemma lower_star: "map lower_char s = ''*'' \<longleftrightarrow> s = ''*''"
  by (cases s) (auto simp: lower_char_eq)

lemma ParseMAC_alt: "(case ParseMAC s of Inl _ \<Rightarrow> None | Inr m \<Rightarrow> Some m) =
    (if trim_space s = [] then None
     else if trim_space s = ''*'' then Some WildcardMAC
     else map_option Some (net_parse_mac (map undash (trim_space s))))"
  by (simp add: ParseMAC_def Let_def replace_all_single split: option.splits)

lemma undash_lower: "map undash (map undash (map lower_char s)) = map lower_char (map undash s)"
  by (induction s) (auto simp: lower_char_eq)

text \<open>An address that \<open>ParseMAC\<close> accepts has 6, 8 or 20 bytes, and the
  form it is printed in afterwards parses to the same address again: the text that is used
  as a key by the registry and written to the configuration file identifies the address.\<close>

lemma parse_mac_canonical:
  assumes "ParseMAC s = Inr m"
  shows "\<exists>bs. m = Some bs \<and> mac_len_ok (length bs) \<and> ParseMAC (mac_string m) = Inr m"
  using ParseMAC_length [OF assms] ParseMAC_bytes_string by auto

lemma parse_mac_canonical_example:
  "\<exists>bs. (Some [0xaa, 0xbb, 0xcc, 1, 2, 3] :: hwaddr) = Some bs \<and> mac_len_ok (length bs) \<and>
     ParseMAC (mac_string (Some [0xaa, 0xbb, 0xcc, 1, 2, 3])) = Inr (Some [0xaa, 0xbb, 0xcc, 1, 2, 3])"
  by (rule parse_mac_canonical [of "'' AA-bB-cc-01-02-03 ''"]) code_simp

text \<open>What \<open>ParseMAC\<close> accepts, and the address it returns, depends
  neither on the letter case nor on blanks around the text nor on whether dashes or colons
  separate the bytes.\<close>

lemma parse_mac_spelling:
  assumes "\<forall>c \<in> set u \<union> set v. space_char c"
  shows "(case ParseMAC (u @ map (\<lambda>c. if c = CHR ''-'' then CHR '':'' else c) (to_lower s) @ v) of
            Inl _ \<Rightarrow> None | Inr m \<Rightarrow> Some m) =
         (case ParseMAC s of Inl _ \<Rightarrow> None | Inr m \<Rightarrow> Some m)"
  unfolding ParseMAC_alt trim_space_blank [OF assms] trim_space_undash trim_space_lower to_lower_def
  by (simp add: undash_star lower_star undash_lower net_parse_mac_lower
      trim_space_lower [unfolded to_lower_def] del: map_map)

lemma parse_mac_spelling_example:
  "(case ParseMAC ('' '' @ map (\<lambda>c. if c = CHR ''-'' then CHR '':'' else c)
        (to_lower ''AA-BB-CC-01-02-03'') @ []) of Inl _ \<Rightarrow> None | Inr m \<Rightarrow> Some m) =
    (case ParseMAC ''AA-BB-CC-01-02-03'' of Inl _ \<Rightarrow> None | Inr m \<Rightarrow> Some m)"
  by (rule parse_mac_spelling) (simp add: space_char_def)

end
