(* ===== verification/Domain.thy ===== *)
theory Domain
  imports HwAddr
begin

text \<open>
  The configuration types of \<open>internal/domain\<close> (\<open>menu.go\<close>, \<open>client.go\<close>, \<open>config.go\<close>)
  and the architecture type of \<open>session.go\<close>, each with its methods. Structs are records
  with the fields in the order of the source; an \<open>int\<close> enumeration is a datatype with one
  constructor per declared constant and one for every other value of the type, so that
  the \<open>default\<close> branches of the source are branches of the model. A \<open>time.Duration\<close> is
  its number of nanoseconds.
\<close>

section \<open>Menu entries\<close>

datatype menu_type =
  MenuInstall | MenuLive | MenuTool | MenuExit | MenuChain | MenuTypeOther int

fun menu_type_string :: "menu_type \<Rightarrow> string" where
  "menu_type_string MenuInstall = ''install''"
| "menu_type_string MenuLive = ''live''"
| "menu_type_string MenuTool = ''tool''"
| "menu_type_string MenuExit = ''exit''"
| "menu_type_string MenuChain = ''chain''"
| "menu_type_string (MenuTypeOther i) = ''MenuType('' @ dec_of_int i @ '')''"

datatype menu_type_error = UnknownMenuType string

definition menu_type_values :: "(string, menu_type) gomap" where
  "menu_type_values =
     [(''install'', MenuInstall), (''live'', MenuLive), (''tool'', MenuTool),
      (''exit'', MenuExit), (''chain'', MenuChain)]"

definition ParseMenuType :: "string \<Rightarrow> menu_type_error + menu_type" where
  "ParseMenuType s = (case map_of menu_type_values (to_lower s) of
     Some t \<Rightarrow> Inr t | None \<Rightarrow> Inl (UnknownMenuType s))"

record menu_http =
  mh_files :: string
  mh_path :: string
  mh_upstream :: string

record boot_params =
  bp_kernel :: string
  bp_initrd :: string
  bp_cmdline :: string
  bp_loader :: string
  bp_files :: "string list"
  bp_binary :: string
  bp_image :: string
  bp_chain :: string

record menu_entry =
  me_name :: string
  me_label :: string
  me_description :: string
  me_type :: menu_type
  me_http :: menu_http
  me_boot :: boot_params
  me_source :: string

text \<open>The zero values of the structs.\<close>

definition empty_menu_http :: menu_http where
  "empty_menu_http = \<lparr>mh_files = [], mh_path = [], mh_upstream = []\<rparr>"

definition empty_boot_params :: boot_params where
  "empty_boot_params = \<lparr>bp_kernel = [], bp_initrd = [], bp_cmdline = [], bp_loader = [],
     bp_files = [], bp_binary = [], bp_image = [], bp_chain = []\<rparr>"

datatype menu_error =
  MenuNoName
| MenuNoLabel string
| MenuNoKernel string menu_type
| MenuNoKernelOrBinary string menu_type
| MenuNoChain string menu_type
| MenuUnknownType string int

definition menu_entry_validate :: "menu_entry \<Rightarrow> menu_error option" where
  "menu_entry_validate e =
     (if me_name e = [] then Some MenuNoName
      else if me_label e = [] then Some (MenuNoLabel (me_name e))
      else case me_type e of
        MenuInstall \<Rightarrow>
          (if bp_kernel (me_boot e) = [] then Some (MenuNoKernel (me_name e) (me_type e)) else None)
      | MenuLive \<Rightarrow>
          (if bp_kernel (me_boot e) = [] then Some (MenuNoKernel (me_name e) (me_type e)) else None)
      | MenuTool \<Rightarrow>
          (if bp_kernel (me_boot e) = [] \<and> bp_binary (me_boot e) = []
           then Some (MenuNoKernelOrBinary (me_name e) (me_type e)) else None)
      | MenuExit \<Rightarrow> None
      | MenuChain \<Rightarrow>
          (if bp_chain (me_boot e) = [] then Some (MenuNoChain (me_name e) (me_type e)) else None)
      | MenuTypeOther i \<Rightarrow> Some (MenuUnknownType (me_name e) i))"

section \<open>Client architectures and bootloader files\<close>

datatype client_arch = ArchBIOS | ArchUEFIx64 | ArchUEFIx86 | ArchARM64 | ArchOther int

fun arch_string :: "client_arch \<Rightarrow> string" where
  "arch_string ArchBIOS = ''bios''"
| "arch_string ArchUEFIx64 = ''uefi-x64''"
| "arch_string ArchUEFIx86 = ''uefi-x86''"
| "arch_string ArchARM64 = ''arm64''"
| "arch_string (ArchOther i) = ''ClientArch('' @ dec_of_int i @ '')''"

datatype arch_error = UnknownArch "16 word"

definition ParseArch :: "16 word \<Rightarrow> arch_error + client_arch" where
  "ParseArch v =
     (if v = 0x0000 then Inr ArchBIOS
      else if v = 0x0006 then Inr ArchUEFIx86
      else if v = 0x0007 \<or> v = 0x0009 then Inr ArchUEFIx64
      else if v = 0x000B then Inr ArchARM64
      else Inl (UnknownArch v))"

record bootloader_override =
  bo_uefix64 :: string
  bo_uefix86 :: string
  bo_bios :: string
  bo_arm64 :: string

fun override_file_for_arch :: "bootloader_override \<Rightarrow> client_arch \<Rightarrow> string" where
  "override_file_for_arch bo ArchUEFIx64 = bo_uefix64 bo"
| "override_file_for_arch bo ArchUEFIx86 = bo_uefix86 bo"
| "override_file_for_arch bo ArchBIOS = bo_bios bo"
| "override_file_for_arch bo ArchARM64 = bo_arm64 bo"
| "override_file_for_arch bo (ArchOther _) = []"

definition override_is_empty :: "bootloader_override \<Rightarrow> bool" where
  "override_is_empty bo \<longleftrightarrow>
     bo_uefix64 bo = [] \<and> bo_uefix86 bo = [] \<and> bo_bios bo = [] \<and> bo_arm64 bo = []"

section \<open>Clients\<close>

record menu_config =
  mc_entries :: "string list"
  mc_default :: string
  mc_timeout :: int

datatype menu_config_error =
  NoEntries
| NegativeTimeout int
| DefaultNotInEntries string "string list"

definition menu_config_validate :: "menu_config \<Rightarrow> menu_config_error option" where
  "menu_config_validate mc =
     (if mc_entries mc = [] then Some NoEntries
      else if mc_timeout mc < 0 then Some (NegativeTimeout (mc_timeout mc))
      else if mc_default mc \<noteq> [] \<and> \<not> list_ex (\<lambda>e. e = mc_default mc) (mc_entries mc)
      then Some (DefaultNotInEntries (mc_default mc) (mc_entries mc))
      else None)"

record client =
  cl_mac :: hwaddr
  cl_name :: string
  cl_menu :: menu_config
  cl_bootloader :: "bootloader_override option"
  cl_vars :: "(string, string) gomap option"
  cl_enabled :: bool
  cl_source :: string

definition client_is_wildcard :: "client \<Rightarrow> bool" where
  "client_is_wildcard c \<longleftrightarrow> cl_mac c \<noteq> None \<and> mac_string (cl_mac c) = mac_string WildcardMAC"

datatype client_error =
  ClientNoMAC
| ClientNoName hwaddr
| ClientMenu hwaddr string menu_config_error

definition client_validate :: "client \<Rightarrow> client_error option" where
  "client_validate c =
     (if cl_mac c = None then Some ClientNoMAC
      else if cl_name c = [] then Some (ClientNoName (cl_mac c))
      else case menu_config_validate (cl_menu c) of
             Some err \<Rightarrow> Some (ClientMenu (cl_mac c) (cl_name c) err)
           | None \<Rightarrow> None)"

section \<open>Server and service configuration\<close>

record log_config =
  lc_level :: string
  lc_format :: string

record server_config =
  sc_interface :: string
  sc_data_dir :: string
  sc_logging :: log_config

record dhcp_proxy_config =
  dp_enabled :: bool
  dp_port :: int
  dp_proxy_port :: int
  dp_vendor_class :: string

record tftp_config =
  tc_enabled :: bool
  tc_port :: int
  tc_block_size :: int
  tc_timeout :: int
  tc_retries :: int

record tls_config =
  tls_enabled :: bool
  tls_cert :: string
  tls_key :: string

record http_config =
  hc_enabled :: bool
  hc_port :: int
  hc_read_timeout :: int
  hc_tls :: tls_config

record health_config =
  he_enabled :: bool
  he_interval :: int
  he_startup_check :: bool

record bootloader_config =
  bl_dir :: string
  bl_uefix64 :: string
  bl_uefix86 :: string
  bl_bios :: string
  bl_arm64 :: string
  bl_chain_url :: string

record full_config =
  fc_server :: server_config
  fc_dhcp_proxy :: dhcp_proxy_config
  fc_tftp :: tftp_config
  fc_http :: http_config
  fc_health :: health_config
  fc_bootloader :: bootloader_config
  fc_menus :: "menu_entry list"
  fc_clients :: "client list"

text \<open>The zero value \<open>&FullConfig{}\<close>.\<close>

definition empty_full_config :: full_config where
  "empty_full_config =
     \<lparr>fc_server = \<lparr>sc_interface = [], sc_data_dir = [], sc_logging = \<lparr>lc_level = [], lc_format = []\<rparr>\<rparr>,
      fc_dhcp_proxy = \<lparr>dp_enabled = False, dp_port = 0, dp_proxy_port = 0, dp_vendor_class = []\<rparr>,
      fc_tftp = \<lparr>tc_enabled = False, tc_port = 0, tc_block_size = 0, tc_timeout = 0, tc_retries = 0\<rparr>,
      fc_http = \<lparr>hc_enabled = False, hc_port = 0, hc_read_timeout = 0,
                 hc_tls = \<lparr>tls_enabled = False, tls_cert = [], tls_key = []\<rparr>\<rparr>,
      fc_health = \<lparr>he_enabled = False, he_interval = 0, he_startup_check = False\<rparr>,
      fc_bootloader = \<lparr>bl_dir = [], bl_uefix64 = [], bl_uefix86 = [], bl_bios = [], bl_arm64 = [],
                       bl_chain_url = []\<rparr>,
      fc_menus = [], fc_clients = []\<rparr>"

datatype config_error =
  ServerNoInterface
| ServerNoDataDir
| BadPort string int
| BootloaderNoDir
| BootloaderNoChainURL
| BadMenu menu_error
| BadClient client_error

definition validate_port :: "int \<Rightarrow> string \<Rightarrow> config_error option" where
  "validate_port port field =
     (if port < 1 \<or> port > 65535 then Some (BadPort field port) else None)"

definition server_config_validate :: "server_config \<Rightarrow> config_error option" where
  "server_config_validate c =
     (if sc_interface c = [] then Some ServerNoInterface
      else if sc_data_dir c = [] then Some ServerNoDataDir
      else None)"

definition dhcp_proxy_validate :: "dhcp_proxy_config \<Rightarrow> config_error option" where
  "dhcp_proxy_validate c =
     (if \<not> dp_enabled c then None
      else orelse (validate_port (dp_port c) ''dhcp_proxy.port'')
          (orelse (validate_port (dp_proxy_port c) ''dhcp_proxy.proxy_port'')
           None))"

definition tftp_validate :: "tftp_config \<Rightarrow> config_error option" where
  "tftp_validate c =
     (if \<not> tc_enabled c then None
      else orelse (validate_port (tc_port c) ''tftp.port'') None)"

definition http_validate :: "http_config \<Rightarrow> config_error option" where
  "http_validate c =
     (if \<not> hc_enabled c then None
      else orelse (validate_port (hc_port c) ''http.port'') None)"

definition bootloader_validate :: "bootloader_config \<Rightarrow> config_error option" where
  "bootloader_validate c =
     (if bl_dir c = [] then Some BootloaderNoDir
      else if bl_chain_url c = [] then Some BootloaderNoChainURL
      else None)"

fun bootloader_file_for_arch :: "bootloader_config \<Rightarrow> client_arch \<Rightarrow> string" where
  "bootloader_file_for_arch c ArchUEFIx64 = bl_uefix64 c"
| "bootloader_file_for_arch c ArchUEFIx86 = bl_uefix86 c"
| "bootloader_file_for_arch c ArchBIOS = bl_bios c"
| "bootloader_file_for_arch c ArchARM64 = bl_arm64 c"
| "bootloader_file_for_arch c (ArchOther _) = []"

definition full_config_validate :: "full_config \<Rightarrow> config_error option" where
  "full_config_validate c =
     orelse (server_config_validate (fc_server c))
    (orelse (dhcp_proxy_validate (fc_dhcp_proxy c))
    (orelse (tftp_validate (fc_tftp c))
    (orelse (http_validate (fc_http c))
    (orelse (bootloader_validate (fc_bootloader c))
    (orelse (first_error (\<lambda>m. map_option BadMenu (menu_entry_validate m)) (fc_menus c))
    (orelse (first_error (\<lambda>cl. map_option BadClient (client_validate cl)) (fc_clients c))
     None))))))"

section \<open>What validation accepts\<close>

definition port_ok :: "int \<Rightarrow> bool" where
  "port_ok p \<longleftrightarrow> 1 \<le> p \<and> p \<le> 65535"

definition bootable :: "menu_entry \<Rightarrow> bool" where
  "bootable e \<longleftrightarrow>
     (case me_type e of
        MenuInstall \<Rightarrow> bp_kernel (me_boot e) \<noteq> []
      | MenuLive \<Rightarrow> bp_kernel (me_boot e) \<noteq> []
      | MenuTool \<Rightarrow> bp_kernel (me_boot e) \<noteq> [] \<or> bp_binary (me_boot e) \<noteq> []
      | MenuExit \<Rightarrow> True
      | MenuChain \<Rightarrow> bp_chain (me_boot e) \<noteq> []
      | MenuTypeOther _ \<Rightarrow> False)"

lemma menu_entry_validate_None [validates]:
  "menu_entry_validate e = None \<longleftrightarrow> me_name e \<noteq> [] \<and> me_label e \<noteq> [] \<and> bootable e"
  by (auto simp: menu_entry_validate_def bootable_def split: menu_type.splits)

lemma menu_config_validate_None [validates]:
  "menu_config_validate mc = None \<longleftrightarrow>
     mc_entries mc \<noteq> [] \<and> 0 \<le> mc_timeout mc \<and>
     (mc_default mc = [] \<or> mc_default mc \<in> set (mc_entries mc))"
  by (auto simp: menu_config_validate_def list_ex_iff)

lemma client_validate_None [validates]:
  "client_validate c = None \<longleftrightarrow>
     cl_mac c \<noteq> None \<and> cl_name c \<noteq> [] \<and> menu_config_validate (cl_menu c) = None"
  by (auto simp: client_validate_def split: option.splits)

lemma validate_port_None [validates]: "validate_port p f = None \<longleftrightarrow> port_ok p"
  by (auto simp: validate_port_def port_ok_def)

lemma section_validate_None [validates]:
  "server_config_validate sc = None \<longleftrightarrow> sc_interface sc \<noteq> [] \<and> sc_data_dir sc \<noteq> []"
  "dhcp_proxy_validate dp = None \<longleftrightarrow> (dp_enabled dp \<longrightarrow> port_ok (dp_port dp) \<and> port_ok (dp_proxy_port dp))"
  "tftp_validate tc = None \<longleftrightarrow> (tc_enabled tc \<longrightarrow> port_ok (tc_port tc))"
  "http_validate hc = None \<longleftrightarrow> (hc_enabled hc \<longrightarrow> port_ok (hc_port hc))"
  "bootloader_validate bl = None \<longleftrightarrow> bl_dir bl \<noteq> [] \<and> bl_chain_url bl \<noteq> []"
  by (auto simp: server_config_validate_def dhcp_proxy_validate_def tftp_validate_def
      http_validate_def bootloader_validate_def validate_port_None)

lemma full_config_validate_None [validates]:
  "full_config_validate c = None \<longleftrightarrow>
     server_config_validate (fc_server c) = None \<and> dhcp_proxy_validate (fc_dhcp_proxy c) = None \<and>
     tftp_validate (fc_tftp c) = None \<and> http_validate (fc_http c) = None \<and>
     bootloader_validate (fc_bootloader c) = None \<and>
     (\<forall>m \<in> set (fc_menus c). menu_entry_validate m = None) \<and>
     (\<forall>cl \<in> set (fc_clients c). client_validate cl = None)"
  by (simp add: full_config_validate_def)

text \<open>A client is the wildcard exactly where its address is the all-zero address.\<close>

lemma client_is_wildcard_iff: "client_is_wildcard c \<longleftrightarrow> cl_mac c = WildcardMAC"
  by (cases "cl_mac c") (auto simp: client_is_wildcard_def WildcardMAC_def)

section \<open>Enumerations\<close>

lemma to_lower_menu_type_string [simp]: "ParseMenuType (menu_type_string t) =
    (case t of MenuTypeOther i \<Rightarrow> Inl (UnknownMenuType (menu_type_string t)) | _ \<Rightarrow> Inr t)"
proof (cases t)
  case (MenuTypeOther i)
  then show ?thesis
    by (simp add: ParseMenuType_def menu_type_values_def to_lower_def lower_char_def)
qed (simp_all add: ParseMenuType_def menu_type_values_def to_lower_def lower_char_def)

lemma ParseMenuType_lower: "map_sum id id (ParseMenuType (to_lower s)) = Inr t \<longleftrightarrow> ParseMenuType s = Inr t"
  by (auto simp: ParseMenuType_def split: option.splits)

lemma bootloader_override_agree:
  "override_file_for_arch bo a = bootloader_file_for_arch
     \<lparr>bl_dir = d, bl_uefix64 = bo_uefix64 bo, bl_uefix86 = bo_uefix86 bo, bl_bios = bo_bios bo,
      bl_arm64 = bo_arm64 bo, bl_chain_url = u\<rparr> a"
  by (cases a) simp_all

lemma override_is_empty_iff: "override_is_empty bo \<longleftrightarrow> (\<forall>a. override_file_for_arch bo a = [])"
proof
  assume "override_is_empty bo"
  then have "override_file_for_arch bo a = []" for a
    by (cases a) (simp_all add: override_is_empty_def)
  then show "\<forall>a. override_file_for_arch bo a = []" by blast
next
  assume all: "\<forall>a. override_file_for_arch bo a = []"
  from all [rule_format, of ArchUEFIx64] all [rule_format, of ArchUEFIx86]
    all [rule_format, of ArchBIOS] all [rule_format, of ArchARM64]
  show "override_is_empty bo" by (simp add: override_is_empty_def)
qed

end
