(* ===== verification/Session.thy ===== *)
theory Session
  imports Domain
begin

text \<open>
  Boot sessions: the state machine of \<open>internal/domain/session.go\<close>. A session is a record,
  \<open>Transition\<close> a function from a session to an error or the updated session; the time
  \<open>time.Now()\<close> is an argument, in nanoseconds. The specification of the machine is the
  inductive relation \<open>boot_step\<close>; the facts proved are that \<open>Transition\<close> follows exactly
  this relation, that the events of a session always are a run of it, and that runs end.
\<close>

section \<open>States and transitions\<close>

datatype boot_state =
  StateDiscover | StateOffer | StateTFTP | StateIPXE | StateMenu | StateBoot
| StateDone | StateFailed | StateOther int

fun boot_state_string :: "boot_state \<Rightarrow> string" where
  "boot_state_string StateDiscover = ''discover''"
| "boot_state_string StateOffer = ''offer''"
| "boot_state_string StateTFTP = ''tftp''"
| "boot_state_string StateIPXE = ''ipxe''"
| "boot_state_string StateMenu = ''menu''"
| "boot_state_string StateBoot = ''boot''"
| "boot_state_string StateDone = ''done''"
| "boot_state_string StateFailed = ''failed''"
| "boot_state_string (StateOther i) = ''BootState('' @ dec_of_int i @ '')''"

definition valid_transitions :: "(boot_state, boot_state list) gomap" where
  "valid_transitions =
     [(StateDiscover, [StateOffer, StateFailed]),
      (StateOffer, [StateTFTP, StateFailed]),
      (StateTFTP, [StateIPXE, StateFailed]),
      (StateIPXE, [StateMenu, StateBoot, StateFailed]),
      (StateMenu, [StateBoot, StateFailed]),
      (StateBoot, [StateDone, StateFailed])]"

record session_event =
  se_state :: boot_state
  se_at :: int
  se_detail :: string

record session =
  ss_id :: string
  ss_mac :: hwaddr
  ss_client_name :: string
  ss_state :: boot_state
  ss_arch :: client_arch
  ss_started_at :: int
  ss_updated_at :: int
  ss_events :: "session_event list"
  ss_error :: string

datatype session_error =
  NoTransitions string boot_state
| InvalidTransition string boot_state boot_state

definition session_transition ::
  "int \<Rightarrow> boot_state \<Rightarrow> string \<Rightarrow> session \<Rightarrow> session_error + session" where
  "session_transition now state detail s =
     (case map_of valid_transitions (ss_state s) of
        None \<Rightarrow> Inl (NoTransitions (ss_id s) (ss_state s))
      | Some allowed \<Rightarrow>
          if \<not> list_ex (\<lambda>a. a = state) allowed
          then Inl (InvalidTransition (ss_id s) (ss_state s) state)
          else
            let s1 = s\<lparr>ss_state := state, ss_updated_at := now,
                       ss_events := ss_events s @
                         [\<lparr>se_state = state, se_at = now, se_detail = detail\<rparr>]\<rparr>
            in Inr (if state = StateFailed then s1\<lparr>ss_error := detail\<rparr> else s1))"

section \<open>The specification of the machine\<close>

text \<open>
  The stages of a PXE boot in their order, with the menu skipped where a single entry is
  booted directly; every stage before the end can fail.
\<close>

inductive boot_step :: "boot_state \<Rightarrow> boot_state \<Rightarrow> bool" where
  offered: "boot_step StateDiscover StateOffer"
| loaded: "boot_step StateOffer StateTFTP"
| chained: "boot_step StateTFTP StateIPXE"
| shown: "boot_step StateIPXE StateMenu"
| direct: "boot_step StateIPXE StateBoot"
| chosen: "boot_step StateMenu StateBoot"
| finished: "boot_step StateBoot StateDone"
| failed: "s \<in> {StateDiscover, StateOffer, StateTFTP, StateIPXE, StateMenu, StateBoot} \<Longrightarrow>
    boot_step s StateFailed"

inductive_simps boot_step_from [simp]:
  "boot_step StateDiscover t" "boot_step StateOffer t" "boot_step StateTFTP t"
  "boot_step StateIPXE t" "boot_step StateMenu t" "boot_step StateBoot t"
  "boot_step StateDone t" "boot_step StateFailed t" "boot_step (StateOther i) t"

inductive_cases boot_step_to_failed: "boot_step s StateFailed"

definition terminal :: "boot_state \<Rightarrow> bool" where
  "terminal s \<longleftrightarrow> s = StateDone \<or> s = StateFailed"

lemma map_of_valid_transitions:
  "map_of valid_transitions s = None \<longleftrightarrow> terminal s \<or> (\<exists>i. s = StateOther i)"
  by (cases s) (simp_all add: valid_transitions_def terminal_def)

lemma valid_transitions_iff_boot_step:
  "(\<exists>l. map_of valid_transitions s = Some l \<and> t \<in> set l) \<longleftrightarrow> boot_step s t"
  by (cases s) (auto simp: valid_transitions_def)

lemma session_transition_ok_iff:
  "(\<exists>s'. session_transition now t detail s = Inr s') \<longleftrightarrow> boot_step (ss_state s) t"
  unfolding valid_transitions_iff_boot_step [symmetric]
  by (auto simp: session_transition_def list_ex_iff Let_def split: option.splits if_splits)

lemma session_transition_Inr:
  assumes "session_transition now t detail s = Inr s'"
  shows "boot_step (ss_state s) t" and
    "s' = s\<lparr>ss_state := t, ss_updated_at := now,
            ss_events := ss_events s @ [\<lparr>se_state = t, se_at = now, se_detail = detail\<rparr>],
            ss_error := (if t = StateFailed then detail else ss_error s)\<rparr>"
  using assms session_transition_ok_iff [of now t detail s]
  by (auto simp: session_transition_def Let_def split: option.splits if_splits)

section \<open>Runs\<close>

fun boot_run :: "boot_state \<Rightarrow> boot_state list \<Rightarrow> boot_state \<Rightarrow> bool" where
  "boot_run a [] b \<longleftrightarrow> a = b"
| "boot_run a (x # xs) b \<longleftrightarrow> boot_step a x \<and> boot_run x xs b"

lemma boot_run_snoc: "boot_run a (xs @ [x]) b \<longleftrightarrow> (\<exists>c. boot_run a xs c \<and> boot_step c x) \<and> x = b"
  by (induction xs arbitrary: a) auto

fun stage :: "boot_state \<Rightarrow> nat" where
  "stage StateDiscover = 0"
| "stage StateOffer = 1"
| "stage StateTFTP = 2"
| "stage StateIPXE = 3"
| "stage StateMenu = 4"
| "stage StateBoot = 5"
| "stage _ = 6"

lemma boot_step_stage: "boot_step s t \<Longrightarrow> stage s < stage t \<and> stage t \<le> 6"
  by (induction rule: boot_step.induct) auto

lemma boot_run_length: "boot_run a xs b \<Longrightarrow> length xs + stage a \<le> 6 \<or> xs = []"
proof (induction xs arbitrary: a)
  case Nil
  then show ?case by simp
next
  case (Cons x xs)
  from Cons.prems have "stage a < stage x" "stage x \<le> 6" and run: "boot_run x xs b"
    by (auto dest: boot_step_stage)
  with Cons.IH [OF run] show ?case by auto
qed

lemma boot_run_above: "boot_run a xs b \<Longrightarrow> y \<in> set xs \<Longrightarrow> stage a < stage y"
  by (induction xs arbitrary: a) (auto dest: boot_step_stage less_trans)

lemma boot_run_distinct: "boot_run a xs b \<Longrightarrow> distinct (a # xs)"
proof (induction xs arbitrary: a)
  case Nil
  then show ?case by simp
next
  case (Cons x xs)
  from Cons.prems have "a \<notin> set (x # xs)" using boot_run_above by blast
  with Cons show ?case by auto
qed

section \<open>The invariant of a session\<close>

text \<open>
  The recorded events are a run from the discovery to the current state; the time of the
  last update and the error text are those of the last event.
\<close>

definition session_ok :: "session \<Rightarrow> bool" where
  "session_ok s \<longleftrightarrow>
     boot_run StateDiscover (map se_state (ss_events s)) (ss_state s) \<and>
     ss_updated_at s = (if ss_events s = [] then ss_started_at s else se_at (last (ss_events s))) \<and>
     ss_error s = (if ss_state s = StateFailed then se_detail (last (ss_events s)) else [])"

lemma session_transition_ok:
  assumes "session_ok s" and "session_transition now t detail s = Inr s'"
  shows "session_ok s'"
proof -
  note s' = session_transition_Inr [OF assms(2)]
  from s'(1) have "ss_state s \<noteq> StateFailed" by auto
  with assms(1) s' show ?thesis
    by (auto simp: session_ok_def boot_run_snoc)
qed

lemma session_ok_bound: "session_ok s \<Longrightarrow> length (ss_events s) \<le> 6"
  using boot_run_length [of StateDiscover "map se_state (ss_events s)" "ss_state s"]
  by (auto simp: session_ok_def)

lemma session_transition_frame:
  "session_transition now t detail s = Inr s' \<Longrightarrow>
     ss_id s' = ss_id s \<and> ss_mac s' = ss_mac s \<and> ss_client_name s' = ss_client_name s \<and>
     ss_arch s' = ss_arch s \<and> ss_started_at s' = ss_started_at s"
  by (auto dest!: session_transition_Inr(2))

section \<open>Properties\<close>

text \<open>C17 (session_transition_spec). \<open>Session.Transition\<close> implements the boot protocol exactly:
  it succeeds if and only if the protocol has the step, then it sets the state and the time,
  appends one event and, for a failure, the error text, and changes nothing else; from a
  state with no outgoing step and for a step the protocol lacks it returns the corresponding
  error and leaves the session as it was.\<close>

theorem session_transition_spec:
  "session_transition now t detail s =
     (if boot_step (ss_state s) t
      then Inr (s\<lparr>ss_state := t, ss_updated_at := now,
                  ss_events := ss_events s @ [\<lparr>se_state = t, se_at = now, se_detail = detail\<rparr>],
                  ss_error := (if t = StateFailed then detail else ss_error s)\<rparr>)
      else if \<exists>u. boot_step (ss_state s) u
      then Inl (InvalidTransition (ss_id s) (ss_state s) t)
      else Inl (NoTransitions (ss_id s) (ss_state s)))"
proof (cases "boot_step (ss_state s) t")
  case True
  then obtain s' where "session_transition now t detail s = Inr s'"
    using session_transition_ok_iff by blast
  with True session_transition_Inr(2) show ?thesis by simp
next
  case False
  have dead: "map_of valid_transitions (ss_state s) = None \<longleftrightarrow> (\<nexists>u. boot_step (ss_state s) u)"
    by (cases "ss_state s") (auto simp: valid_transitions_def)
  have "\<not> list_ex (\<lambda>a. a = t) l" if "map_of valid_transitions (ss_state s) = Some l" for l
    using False that valid_transitions_iff_boot_step [of "ss_state s" t] by (auto simp: list_ex_iff)
  with False dead show ?thesis
    by (auto simp: session_transition_def split: option.splits)
qed

end
