(* ===== verification/SessionStore.thy ===== *)
theory SessionStore
  imports Session
begin

text \<open>
  The session store and its manager: \<open>domain.SessionStore\<close> (\<open>internal/domain/ports.go\<close>) as a
  record of operations, \<open>MemorySessionStore\<close> (\<open>internal/infra/store/sessions.go\<close>) as one
  such record, and \<open>SessionManager\<close> (\<open>internal/server/session.go\<close>) over any of them.

  The code passes \<open>*domain.Session\<close> pointers: the store keeps the pointers it is given and
  \<open>Session.Transition\<close> writes through one. So the sessions live in a heap, a list indexed by
  addresses, the store is a list of addresses, and an operation takes the heap. Every
  operation holds the store's mutex for its whole body, so a concurrent execution is a
  sequence of these operations.
\<close>

section \<open>The store interface\<close>

type_synonym addr = nat
type_synonym heap = "session list"

datatype store_error = SessionNotFound string | NoSessionForMAC hwaddr

record 'st store_ops =
  so_create :: "heap \<Rightarrow> 'st \<Rightarrow> addr \<Rightarrow> store_error + 'st"
  so_update :: "heap \<Rightarrow> 'st \<Rightarrow> addr \<Rightarrow> store_error + 'st"
  so_find_by_mac :: "heap \<Rightarrow> 'st \<Rightarrow> hwaddr \<Rightarrow> store_error + addr"
  so_find_active :: "heap \<Rightarrow> 'st \<Rightarrow> store_error + addr list"
  so_history :: "heap \<Rightarrow> 'st \<Rightarrow> hwaddr \<Rightarrow> int \<Rightarrow> store_error + addr list"

definition same_mac :: "heap \<Rightarrow> hwaddr \<Rightarrow> addr \<Rightarrow> bool" where
  "same_mac h mac p \<longleftrightarrow> mac_string (ss_mac (h ! p)) = mac_string mac"

definition active :: "heap \<Rightarrow> addr \<Rightarrow> bool" where
  "active h p \<longleftrightarrow> \<not> terminal (ss_state (h ! p))"

text \<open>
  What the manager relies on. \<open>view\<close> is the abstract value of a store: its pointers, oldest
  first. \<open>Update\<close> puts the pointer it is given in the place of the first one whose session
  has the same id.
\<close>

fun replace_first :: "('a \<Rightarrow> bool) \<Rightarrow> 'a \<Rightarrow> 'a list \<Rightarrow> 'a list option" where
  "replace_first P y [] = None"
| "replace_first P y (x # xs) =
     (if P x then Some (y # xs) else map_option ((#) x) (replace_first P y xs))"

lemma replace_first_same:
  "x \<in> set xs \<Longrightarrow> P x \<Longrightarrow> (\<And>y. y \<in> set xs \<Longrightarrow> P y \<Longrightarrow> y = x) \<Longrightarrow> replace_first P x xs = Some xs"
proof (induction xs)
  case Nil
  then show ?case by simp
next
  case (Cons z zs)
  show ?case
  proof (cases "P z")
    case True
    with Cons.prems(3) [of z] have "z = x" by simp
    with True show ?thesis by simp
  next
    case False
    with Cons.prems(1,2) have "x \<in> set zs" by auto
    moreover have "y = x" if "y \<in> set zs" "P y" for y
      using that by (intro Cons.prems(3)) simp_all
    ultimately have "replace_first P x zs = Some zs"
      using Cons.prems(2) by (intro Cons.IH)
    with False show ?thesis by simp
  qed
qed

lemma replace_first_None: "replace_first P y xs = None \<longleftrightarrow> (\<forall>x \<in> set xs. \<not> P x)"
  by (induction xs) auto

locale session_store =
  fixes ops :: "'st store_ops" and empty :: 'st and view :: "'st \<Rightarrow> addr list"
  assumes view_empty: "view empty = []"
    and create_view: "\<exists>st'. so_create ops h st p = Inr st' \<and> view st' = view st @ [p]"
    and update_view:
      "case replace_first (\<lambda>q. ss_id (h ! q) = ss_id (h ! p)) p (view st) of
         None \<Rightarrow> so_update ops h st p = Inl (SessionNotFound (ss_id (h ! p)))
       | Some v \<Rightarrow> \<exists>st'. so_update ops h st p = Inr st' \<and> view st' = v"
    and find_by_mac_view:
      "so_find_by_mac ops h st mac =
         (case filter (same_mac h mac) (view st) of
            [] \<Rightarrow> Inl (NoSessionForMAC mac) | ps \<Rightarrow> Inr (last ps))"
    and find_active_view: "so_find_active ops h st = Inr (filter (active h) (view st))"
    and history_view:
      "so_history ops h st mac n = Inr (take (nat n) (rev (filter (same_mac h mac) (view st))))"

section \<open>The in-memory store\<close>

type_synonym mem_store = "addr list"

definition mem_create :: "heap \<Rightarrow> mem_store \<Rightarrow> addr \<Rightarrow> store_error + mem_store" where
  "mem_create h st p = Inr (st @ [p])"

fun mem_update_loop :: "heap \<Rightarrow> addr \<Rightarrow> mem_store \<Rightarrow> nat \<Rightarrow> mem_store \<Rightarrow> store_error + mem_store" where
  "mem_update_loop h p st i [] = Inl (SessionNotFound (ss_id (h ! p)))"
| "mem_update_loop h p st i (q # qs) =
     (if ss_id (h ! q) = ss_id (h ! p) then Inr (st[i := p])
      else mem_update_loop h p st (Suc i) qs)"

definition mem_update :: "heap \<Rightarrow> mem_store \<Rightarrow> addr \<Rightarrow> store_error + mem_store" where
  "mem_update h st p = mem_update_loop h p st 0 st"

fun mem_find_loop :: "heap \<Rightarrow> string \<Rightarrow> addr list \<Rightarrow> addr option" where
  "mem_find_loop h key [] = None"
| "mem_find_loop h key (p # ps) =
     (if mac_string (ss_mac (h ! p)) = key then Some p else mem_find_loop h key ps)"

definition mem_find_by_mac :: "heap \<Rightarrow> mem_store \<Rightarrow> hwaddr \<Rightarrow> store_error + addr" where
  "mem_find_by_mac h st mac =
     (case mem_find_loop h (mac_string mac) (rev st) of
        Some p \<Rightarrow> Inr p | None \<Rightarrow> Inl (NoSessionForMAC mac))"

fun mem_active_loop :: "heap \<Rightarrow> addr list \<Rightarrow> addr list \<Rightarrow> addr list" where
  "mem_active_loop h acc [] = acc"
| "mem_active_loop h acc (p # ps) =
     mem_active_loop h
       (if ss_state (h ! p) \<noteq> StateDone \<and> ss_state (h ! p) \<noteq> StateFailed then acc @ [p] else acc) ps"

definition mem_find_active :: "heap \<Rightarrow> mem_store \<Rightarrow> store_error + addr list" where
  "mem_find_active h st = Inr (mem_active_loop h [] st)"

fun mem_history_loop :: "heap \<Rightarrow> string \<Rightarrow> int \<Rightarrow> addr list \<Rightarrow> addr list \<Rightarrow> addr list" where
  "mem_history_loop h key limit acc [] = acc"
| "mem_history_loop h key limit acc (p # ps) =
     (if int (length acc) < limit
      then mem_history_loop h key limit
             (if mac_string (ss_mac (h ! p)) = key then acc @ [p] else acc) ps
      else acc)"

definition mem_history :: "heap \<Rightarrow> mem_store \<Rightarrow> hwaddr \<Rightarrow> int \<Rightarrow> store_error + addr list" where
  "mem_history h st mac limit = Inr (mem_history_loop h (mac_string mac) limit [] (rev st))"

definition mem_ops :: "mem_store store_ops" where
  "mem_ops = \<lparr>so_create = mem_create, so_update = mem_update, so_find_by_mac = mem_find_by_mac,
              so_find_active = mem_find_active, so_history = mem_history\<rparr>"

subsection \<open>The in-memory store keeps the laws\<close>

lemma mem_update_loop_eq:
  "mem_update_loop h p (pre @ qs) (length pre) qs =
     (case replace_first (\<lambda>q. ss_id (h ! q) = ss_id (h ! p)) p qs of
        None \<Rightarrow> Inl (SessionNotFound (ss_id (h ! p))) | Some v \<Rightarrow> Inr (pre @ v))"
proof (induction qs arbitrary: pre)
  case Nil
  then show ?case by simp
next
  case (Cons q qs)
  from Cons [of "pre @ [q]"] show ?case
    by (auto split: option.splits)
qed

lemma mem_find_loop_rev:
  "mem_find_loop h (mac_string mac) (rev st) =
     (case filter (same_mac h mac) st of [] \<Rightarrow> None | ps \<Rightarrow> Some (last ps))"
  by (induction st rule: rev_induct) (auto simp: same_mac_def split: list.splits)

lemma mem_active_loop_eq: "mem_active_loop h acc ps = acc @ filter (active h) ps"
  by (induction ps arbitrary: acc) (auto simp: active_def terminal_def)

lemma mem_history_loop_eq:
  "mem_history_loop h (mac_string mac) n acc ps =
     (if int (length acc) < n
      then acc @ take (nat n - length acc) (filter (same_mac h mac) ps) else acc)"
proof (induction ps arbitrary: acc)
  case Nil
  then show ?case by simp
next
  case (Cons p ps)
  show ?case
  proof (cases "int (length acc) < n")
    case True
    then have "nat n - length acc = Suc (nat n - Suc (length acc))" by linarith
    with True Cons [of acc] Cons [of "acc @ [p]"] show ?thesis
      by (auto simp: same_mac_def)
  qed simp
qed

interpretation mem: session_store mem_ops "[]" "\<lambda>st. st"
proof
  fix h :: heap and st :: mem_store and p mac n
  show "\<exists>st'. so_create mem_ops h st p = Inr st' \<and> st' = st @ [p]"
    by (simp add: mem_ops_def mem_create_def)
  show "case replace_first (\<lambda>q. ss_id (h ! q) = ss_id (h ! p)) p st of
      None \<Rightarrow> so_update mem_ops h st p = Inl (SessionNotFound (ss_id (h ! p)))
    | Some v \<Rightarrow> \<exists>st'. so_update mem_ops h st p = Inr st' \<and> st' = v"
    using mem_update_loop_eq [of h p "[]" st]
    by (auto simp: mem_ops_def mem_update_def split: option.splits)
  show "so_find_by_mac mem_ops h st mac =
      (case filter (same_mac h mac) st of [] \<Rightarrow> Inl (NoSessionForMAC mac) | ps \<Rightarrow> Inr (last ps))"
    by (simp add: mem_ops_def mem_find_by_mac_def mem_find_loop_rev split: list.splits)
  show "so_find_active mem_ops h st = Inr (filter (active h) st)"
    by (simp add: mem_ops_def mem_find_active_def mem_active_loop_eq)
  show "so_history mem_ops h st mac n = Inr (take (nat n) (rev (filter (same_mac h mac) st)))"
    by (simp add: mem_ops_def mem_history_def mem_history_loop_eq rev_filter)
qed simp

end
