(* ===== verification/SessionManager.thy ===== *)
theory SessionManager
  imports SessionStore
begin

text \<open>
  \<open>SessionManager\<close> of \<open>internal/server/session.go\<close>, over any store that keeps the laws of
  the locale \<open>session_store\<close>. The state is the store's value, the heap of sessions and the
  package variable \<open>sessionCounter\<close>, an \<open>atomic.Int64\<close> that wraps around. The lemmas about
  the manager are proved once, in the locale; the properties at the end are those of the
  manager over the in-memory store, which is how \<open>cli/serve.go\<close> builds it.
\<close>

section \<open>The operations\<close>

record 'st manager =
  sm_store :: 'st
  sm_heap :: heap
  sm_counter :: "64 word"

datatype manager_error =
  CreatingSession store_error
| TransitionError session_error
| UpdatingSession store_error

definition session_id :: "int \<Rightarrow> 64 word \<Rightarrow> string" where
  "session_id ms n = ''session-'' @ dec_of_int ms @ ''-'' @ dec_of_int (sint n)"

definition default_id_gen :: "int \<Rightarrow> 64 word \<Rightarrow> 64 word \<times> string" where
  "default_id_gen now c = (let n = c + 1 in (n, session_id (now div 1000000) n))"

definition sm_start ::
  "'st store_ops \<Rightarrow> int \<Rightarrow> int \<Rightarrow> hwaddr \<Rightarrow> string \<Rightarrow> client_arch \<Rightarrow> 'st manager \<Rightarrow>
     'st manager \<times> (manager_error + addr)" where
  "sm_start ops now now_id mac client_name arch w =
     (let (c, ident) = default_id_gen now_id (sm_counter w);
          session = \<lparr>ss_id = ident, ss_mac = mac, ss_client_name = client_name,
                     ss_state = StateDiscover, ss_arch = arch, ss_started_at = now,
                     ss_updated_at = now, ss_events = [], ss_error = []\<rparr>;
          p = length (sm_heap w);
          w1 = w\<lparr>sm_heap := sm_heap w @ [session], sm_counter := c\<rparr>
      in case so_create ops (sm_heap w1) (sm_store w) p of
           Inl err \<Rightarrow> (w1, Inl (CreatingSession err))
         | Inr st \<Rightarrow> (w1\<lparr>sm_store := st\<rparr>, Inr p))"

definition sm_transition ::
  "'st store_ops \<Rightarrow> int \<Rightarrow> addr \<Rightarrow> boot_state \<Rightarrow> string \<Rightarrow> 'st manager \<Rightarrow>
     'st manager \<times> manager_error option" where
  "sm_transition ops now p state detail w =
     (case session_transition now state detail (sm_heap w ! p) of
        Inl err \<Rightarrow> (w, Some (TransitionError err))
      | Inr s \<Rightarrow>
          let w1 = w\<lparr>sm_heap := (sm_heap w)[p := s]\<rparr>
          in case so_update ops (sm_heap w1) (sm_store w) p of
               Inl err \<Rightarrow> (w1, Some (UpdatingSession err))
             | Inr st \<Rightarrow> (w1\<lparr>sm_store := st\<rparr>, None))"

definition sm_find_by_mac :: "'st store_ops \<Rightarrow> 'st manager \<Rightarrow> hwaddr \<Rightarrow> store_error + addr" where
  "sm_find_by_mac ops w mac = so_find_by_mac ops (sm_heap w) (sm_store w) mac"

definition sm_active :: "'st store_ops \<Rightarrow> 'st manager \<Rightarrow> store_error + addr list" where
  "sm_active ops w = so_find_active ops (sm_heap w) (sm_store w)"

definition sm_history :: "'st store_ops \<Rightarrow> 'st manager \<Rightarrow> hwaddr \<Rightarrow> int \<Rightarrow> store_error + addr list" where
  "sm_history ops w mac limit = so_history ops (sm_heap w) (sm_store w) mac limit"

text \<open>
  The states the manager can reach: starts and transitions in any order, on any session
  that was started.
\<close>

inductive manager_reach :: "'st store_ops \<Rightarrow> 'st \<Rightarrow> 'st manager \<Rightarrow> bool" for ops empty where
  init: "manager_reach ops empty \<lparr>sm_store = empty, sm_heap = [], sm_counter = 0\<rparr>"
| start: "manager_reach ops empty w \<Longrightarrow>
    manager_reach ops empty (fst (sm_start ops now now_id mac client_name arch w))"
| move: "manager_reach ops empty w \<Longrightarrow> p < length (sm_heap w) \<Longrightarrow>
    manager_reach ops empty (fst (sm_transition ops now p state detail w))"

section \<open>Session ids\<close>

lemma dec_of_nat_sep_inj:
  assumes "dec_of_nat a @ CHR ''-'' # x = dec_of_nat b @ CHR ''-'' # y"
  shows "a = b \<and> x = y"
proof -
  have digits: "takeWhile (\<lambda>c. c \<in> set dec_digits) (dec_of_nat n @ CHR ''-'' # z) = dec_of_nat n"
    for n z
  proof -
    have "\<And>c. c \<in> set (dec_of_nat n) \<Longrightarrow> c \<in> set dec_digits"
      using dec_of_nat_digits [of n] by blast
    moreover have "CHR ''-'' \<notin> set dec_digits" by (simp add: dec_digits_def)
    ultimately show ?thesis by (simp add: takeWhile_append2)
  qed
  from arg_cong [OF assms, of "takeWhile (\<lambda>c. c \<in> set dec_digits)"]
  have "dec_of_nat a = dec_of_nat b" by (simp only: digits)
  with assms show ?thesis by simp
qed

lemma dec_of_int_sep_inj:
  assumes "dec_of_int a @ CHR ''-'' # x = dec_of_int b @ CHR ''-'' # y"
  shows "a = b \<and> x = y"
proof -
  have no_minus: "dec_of_nat n @ u \<noteq> CHR ''-'' # z" for n u z
    using minus_not_dec [of n] dec_of_nat_ne [of n] by (cases "dec_of_nat n") auto
  show ?thesis
    using assms no_minus no_minus [symmetric]
    by (auto simp: dec_of_int_def split: if_splits dest: dec_of_nat_sep_inj)
qed

lemma session_id_inj [simp]: "session_id ms n = session_id ms' n' \<longleftrightarrow> ms = ms' \<and> n = n'"
  by (auto simp: session_id_def dest!: dec_of_int_sep_inj intro: signed_word_eqI)

lemma of_nat_word64_inj:
  "i < 2 ^ 64 \<Longrightarrow> j < 2 ^ 64 \<Longrightarrow> (of_nat i :: 64 word) = of_nat j \<longleftrightarrow> i = j"
  by (simp add: word_of_nat_eq_iff take_bit_eq_mod)

section \<open>The manager's invariant\<close>

text \<open>
  Every session ever started is in the store, in the order of the starts, under an id made
  from its number.
\<close>

definition numbered :: "heap \<Rightarrow> bool" where
  "numbered h \<longleftrightarrow> (\<forall>p < length h. \<exists>ms. ss_id (h ! p) = session_id ms (of_nat (Suc p)))"

definition manager_ok :: "('st \<Rightarrow> addr list) \<Rightarrow> 'st manager \<Rightarrow> bool" where
  "manager_ok view w \<longleftrightarrow>
     view (sm_store w) = [0..<length (sm_heap w)] \<and>
     sm_counter w = of_nat (length (sm_heap w)) \<and>
     numbered (sm_heap w) \<and>
     (\<forall>s \<in> set (sm_heap w). session_ok s)"

lemma numbered_same_id:
  assumes "numbered h" and "length h < 2 ^ 64" and "p < length h" and "q < length h"
  shows "ss_id (h ! p) = ss_id (h ! q) \<longleftrightarrow> p = q"
proof
  assume eq: "ss_id (h ! p) = ss_id (h ! q)"
  from assms obtain a b where "ss_id (h ! p) = session_id a (of_nat (Suc p))"
    and "ss_id (h ! q) = session_id b (of_nat (Suc q))"
    unfolding numbered_def by blast
  with eq have "(of_nat (Suc p) :: 64 word) = of_nat (Suc q)" by simp
  moreover have "Suc p < 2 ^ 64" "Suc q < 2 ^ 64" using assms by auto
  ultimately have "Suc p = Suc q" using of_nat_word64_inj by blast
  then show "p = q" by simp
qed simp

lemma numbered_update: "numbered h \<Longrightarrow> ss_id s = ss_id (h ! p) \<Longrightarrow> numbered (h[p := s])"
  unfolding numbered_def by (metis length_list_update nth_list_update_eq nth_list_update_neq)

context session_store
begin

lemma start_eq:
  "\<exists>st s. sm_start ops now now_id mac client_name arch w =
      (\<lparr>sm_store = st, sm_heap = sm_heap w @ [s], sm_counter = sm_counter w + 1\<rparr>,
       Inr (length (sm_heap w))) \<and>
    view st = view (sm_store w) @ [length (sm_heap w)] \<and> session_ok s \<and>
    ss_id s = session_id (now_id div 1000000) (sm_counter w + 1) \<and>
    ss_mac s = mac \<and> ss_state s = StateDiscover"
proof -
  let ?s = "\<lparr>ss_id = session_id (now_id div 1000000) (sm_counter w + 1), ss_mac = mac,
    ss_client_name = client_name, ss_state = StateDiscover, ss_arch = arch, ss_started_at = now,
    ss_updated_at = now, ss_events = [], ss_error = []\<rparr>"
  obtain st where "so_create ops (sm_heap w @ [?s]) (sm_store w) (length (sm_heap w)) = Inr st"
    and "view st = view (sm_store w) @ [length (sm_heap w)]"
    using create_view by blast
  then show ?thesis
    by (cases w) (auto simp: sm_start_def default_id_gen_def Let_def session_ok_def intro!: exI [of _ st])
qed

lemma start_ok:
  assumes "manager_ok view w"
  shows "manager_ok view (fst (sm_start ops now now_id mac client_name arch w))"
proof -
  obtain st s where eq: "sm_start ops now now_id mac client_name arch w =
      (\<lparr>sm_store = st, sm_heap = sm_heap w @ [s], sm_counter = sm_counter w + 1\<rparr>,
       Inr (length (sm_heap w)))"
    and "view st = view (sm_store w) @ [length (sm_heap w)]" "session_ok s"
    and "ss_id s = session_id (now_id div 1000000) (sm_counter w + 1)"
    using start_eq by blast
  with assms show ?thesis
    by (auto simp: manager_ok_def numbered_def nth_append less_Suc_eq add.commute)
qed

text \<open>Where no two sessions share an id, an update leaves the store's pointers as they are.\<close>

lemma update_keeps_view:
  assumes "p \<in> set (view st)" and "\<And>q. q \<in> set (view st) \<Longrightarrow> ss_id (h ! q) = ss_id (h ! p) \<Longrightarrow> q = p"
  shows "\<exists>st'. so_update ops h st p = Inr st' \<and> view st' = view st"
proof -
  have "replace_first (\<lambda>q. ss_id (h ! q) = ss_id (h ! p)) p (view st) = Some (view st)"
    using assms by (intro replace_first_same) simp_all
  with update_view [where h = h and p = p and st = st] show ?thesis by simp
qed

lemma move_eq:
  assumes "manager_ok view w" and "p < length (sm_heap w)" and "length (sm_heap w) < 2 ^ 64"
  shows "case session_transition now state detail (sm_heap w ! p) of
      Inl err \<Rightarrow> sm_transition ops now p state detail w = (w, Some (TransitionError err))
    | Inr s \<Rightarrow> \<exists>st. view st = view (sm_store w) \<and>
        sm_transition ops now p state detail w =
          (w\<lparr>sm_heap := (sm_heap w)[p := s], sm_store := st\<rparr>, None)"
proof (cases "session_transition now state detail (sm_heap w ! p)")
  case (Inl err)
  then show ?thesis by (simp add: sm_transition_def)
next
  case (Inr s)
  let ?h = "(sm_heap w)[p := s]"
  have num: "numbered ?h"
    using assms(1) session_transition_frame [OF Inr] by (simp add: manager_ok_def numbered_update)
  have "\<exists>st'. so_update ops ?h (sm_store w) p = Inr st' \<and> view st' = view (sm_store w)"
  proof (rule update_keeps_view)
    show "p \<in> set (view (sm_store w))" using assms by (simp add: manager_ok_def)
  next
    fix q assume "q \<in> set (view (sm_store w))" and "ss_id (?h ! q) = ss_id (?h ! p)"
    with assms show "q = p"
      using numbered_same_id [OF num, of q p] by (simp add: manager_ok_def)
  qed
  with Inr show ?thesis by (auto simp: sm_transition_def Let_def)
qed

lemma move_ok:
  assumes "manager_ok view w" and "p < length (sm_heap w)" and "length (sm_heap w) < 2 ^ 64"
  shows "manager_ok view (fst (sm_transition ops now p state detail w))"
proof (cases "session_transition now state detail (sm_heap w ! p)")
  case (Inl err)
  with move_eq [OF assms, of now state detail] assms(1) show ?thesis by simp
next
  case (Inr s)
  with move_eq [OF assms, of now state detail] obtain st where
    "view st = view (sm_store w)" and
    "fst (sm_transition ops now p state detail w) = w\<lparr>sm_heap := (sm_heap w)[p := s], sm_store := st\<rparr>"
    by auto
  moreover have "session_ok s"
    using assms Inr by (auto simp: manager_ok_def intro: session_transition_ok)
  ultimately show ?thesis
    using assms(1) session_transition_frame [OF Inr]
    by (auto simp: manager_ok_def numbered_update dest: set_update_subset_insert [THEN subsetD])
qed

lemma start_length: "length (sm_heap (fst (sm_start ops now now_id mac client_name arch w))) =
    Suc (length (sm_heap w))"
  using start_eq [of now now_id mac client_name arch w] by auto

lemma move_length: "length (sm_heap (fst (sm_transition ops now p state detail w))) = length (sm_heap w)"
  by (auto simp: sm_transition_def Let_def split: sum.splits)

lemma reach_ok:
  "manager_reach ops empty w \<Longrightarrow> length (sm_heap w) < 2 ^ 64 \<Longrightarrow> manager_ok view w"
proof (induction rule: manager_reach.induct)
  case init
  show ?case by (simp add: manager_ok_def view_empty numbered_def)
next
  case (start w now now_id mac client_name arch)
  then show ?case by (intro start_ok) (simp add: start_length)
next
  case (move w p now state detail)
  then show ?case by (intro move_ok) (simp_all add: move_length)
qed

end

section \<open>Properties of the manager over the in-memory store\<close>

text \<open>A run with one session that was offered a boot file, for the witnesses.\<close>

definition started_world :: "mem_store manager" where
  "started_world = fst (sm_start mem_ops 5 7 (Some [1, 2, 3, 4, 5, 6]) ''pc'' ArchBIOS
     \<lparr>sm_store = [], sm_heap = [], sm_counter = 0\<rparr>)"

definition offered_world :: "mem_store manager" where
  "offered_world = fst (sm_transition mem_ops 9 0 StateOffer ''sent'' started_world)"

lemma started_world_eq: "started_world =
    \<lparr>sm_store = [0], sm_heap = [\<lparr>ss_id = session_id 0 1, ss_mac = Some [1, 2, 3, 4, 5, 6],
       ss_client_name = ''pc'', ss_state = StateDiscover, ss_arch = ArchBIOS, ss_started_at = 5,
       ss_updated_at = 5, ss_events = [], ss_error = []\<rparr>], sm_counter = 1\<rparr>"
  by (simp add: started_world_def sm_start_def default_id_gen_def mem_ops_def mem_create_def Let_def)

lemma reach_started: "manager_reach mem_ops [] started_world"
  unfolding started_world_def by (rule manager_reach.start [OF manager_reach.init])

lemma offered_world_eq: "offered_world =
    \<lparr>sm_store = [0], sm_heap = [\<lparr>ss_id = session_id 0 1, ss_mac = Some [1, 2, 3, 4, 5, 6],
       ss_client_name = ''pc'', ss_state = StateOffer, ss_arch = ArchBIOS, ss_started_at = 5,
       ss_updated_at = 9, ss_events = [\<lparr>se_state = StateOffer, se_at = 9, se_detail = ''sent''\<rparr>],
       ss_error = []\<rparr>], sm_counter = 1\<rparr>"
  by (simp add: offered_world_def started_world_eq sm_transition_def session_transition_def
      valid_transitions_def mem_ops_def mem_update_def Let_def)

lemma reach_offered: "manager_reach mem_ops [] offered_world"
  unfolding offered_world_def
  by (rule manager_reach.move [OF reach_started]) (simp add: started_world_eq)

text \<open>C3 (stored_session_history). In every state the manager can reach, by any sequence of
  starts and transitions, every stored session's events are a run of the boot protocol from
  the discovery to its current state, with no state twice and hence at most six events; its
  error text is that of the failure event and empty where it did not fail.\<close>

theorem stored_session_history:
  assumes "manager_reach mem_ops [] w" and "length (sm_heap w) < 2 ^ 64" and "p \<in> set (sm_store w)"
  shows "boot_run StateDiscover (map se_state (ss_events (sm_heap w ! p))) (ss_state (sm_heap w ! p)) \<and>
    distinct (StateDiscover # map se_state (ss_events (sm_heap w ! p))) \<and>
    length (ss_events (sm_heap w ! p)) \<le> 6 \<and>
    ss_error (sm_heap w ! p) =
      (if ss_state (sm_heap w ! p) = StateFailed
       then se_detail (last (ss_events (sm_heap w ! p))) else [])"
proof -
  from mem.reach_ok [OF assms(1,2)] assms(3) have "session_ok (sm_heap w ! p)"
    by (auto simp: manager_ok_def)
  then show ?thesis
    using boot_run_distinct session_ok_bound by (auto simp: session_ok_def simp del: distinct.simps)
qed

theorem stored_session_history_witness:
  "boot_run StateDiscover (map se_state (ss_events (sm_heap offered_world ! 0))) StateOffer"
  using stored_session_history [OF reach_offered, of 0] by (simp add: offered_world_eq)

text \<open>C22 (sessions_complete_and_unique). In every state the manager can reach, the store holds
  every session that was ever started, once and in the order of the starts, and no two of
  them have the same id (for fewer than 2 to the 64 starts, where the counter wraps around).\<close>

theorem sessions_complete_and_unique:
  assumes "manager_reach mem_ops [] w" and "length (sm_heap w) < 2 ^ 64"
  shows "sm_store w = [0..<length (sm_heap w)] \<and> distinct (map ss_id (sm_heap w))"
proof -
  from mem.reach_ok [OF assms] have "sm_store w = [0..<length (sm_heap w)]" and "numbered (sm_heap w)"
    by (auto simp: manager_ok_def)
  then show ?thesis
    using numbered_same_id [OF _ assms(2)] by (auto simp: distinct_conv_nth)
qed

theorem sessions_complete_and_unique_witness:
  "sm_store offered_world = [0] \<and> distinct (map ss_id (sm_heap offered_world))"
  using sessions_complete_and_unique [OF reach_offered] by (simp add: offered_world_eq)

text \<open>C23 (manager_transition_spec). A transition through the manager fails only where the boot
  protocol forbids it, never because the store lost the session, and then changes nothing;
  otherwise it changes that one session, in the heap and so in the store, and no other.\<close>

theorem manager_transition_spec:
  assumes "manager_reach mem_ops [] w" and "length (sm_heap w) < 2 ^ 64" and "p < length (sm_heap w)"
  shows "sm_transition mem_ops now p state detail w =
    (case session_transition now state detail (sm_heap w ! p) of
       Inl err \<Rightarrow> (w, Some (TransitionError err))
     | Inr s \<Rightarrow> (w\<lparr>sm_heap := (sm_heap w)[p := s]\<rparr>, None))"
  using mem.move_eq [OF mem.reach_ok [OF assms(1,2)] assms(3,2), of now state detail]
  by (auto split: sum.splits)

theorem manager_transition_spec_witness:
  "snd (sm_transition mem_ops 11 0 StateBoot ''x'' offered_world) =
     Some (TransitionError (InvalidTransition (session_id 0 1) StateOffer StateBoot))"
  using manager_transition_spec [OF reach_offered, of 0 11 StateBoot "''x''"]
  by (simp add: offered_world_eq session_transition_def valid_transitions_def)

text \<open>The queries of the manager, in every state it can reach:
  \<open>FindByMAC\<close> returns the session started last for the address, or the error; \<open>Active\<close> the
  sessions in a non-terminal state, oldest first; \<open>History\<close> the sessions of the address,
  newest first, cut at the limit.\<close>

lemma manager_queries_spec:
  assumes "manager_reach mem_ops [] w" and "length (sm_heap w) < 2 ^ 64"
  shows "sm_find_by_mac mem_ops w mac =
      (case filter (same_mac (sm_heap w) mac) (rev [0..<length (sm_heap w)]) of
         [] \<Rightarrow> Inl (NoSessionForMAC mac) | p # ps \<Rightarrow> Inr p) \<and>
    sm_active mem_ops w = Inr (filter (active (sm_heap w)) [0..<length (sm_heap w)]) \<and>
    sm_history mem_ops w mac limit =
      Inr (take (nat limit) (filter (same_mac (sm_heap w) mac) (rev [0..<length (sm_heap w)])))"
proof -
  have last_rev: "(case xs of [] \<Rightarrow> e | ps \<Rightarrow> Inr (last ps)) = (case rev xs of [] \<Rightarrow> e | p # ps \<Rightarrow> Inr p)"
    for xs :: "nat list" and e :: "store_error + nat"
  proof (cases xs rule: rev_cases)
    case (snoc ys y)
    then show ?thesis by (cases ys) simp_all
  qed simp
  from mem.reach_ok [OF assms] have "sm_store w = [0..<length (sm_heap w)]"
    by (simp add: manager_ok_def)
  then show ?thesis
    by (simp add: sm_find_by_mac_def sm_active_def sm_history_def mem.find_by_mac_view
        mem.find_active_view mem.history_view last_rev rev_filter)
qed

lemma manager_queries_spec_example:
  "sm_find_by_mac mem_ops offered_world (Some [1, 2, 3, 4, 5, 6]) = Inr 0 \<and>
   sm_history mem_ops offered_world (Some [1, 2, 3, 4, 5, 6]) 0 = Inr []"
  using manager_queries_spec [OF reach_offered, of "Some [1, 2, 3, 4, 5, 6]" 0]
  by (simp add: offered_world_eq same_mac_def)

text \<open>
  \<open>SessionManager.FindByMAC\<close> is documented to return the active session of an address; it
  returns the latest one, which may have ended: here it has failed and no session is active.
\<close>

lemma find_by_mac_returns_ended_session:
  "let w = fst (sm_transition mem_ops 9 0 StateFailed ''timeout'' started_world)
   in sm_find_by_mac mem_ops w (Some [1, 2, 3, 4, 5, 6]) = Inr 0 \<and> sm_active mem_ops w = Inr []"
  by (simp add: started_world_eq sm_transition_def session_transition_def valid_transitions_def
      mem_ops_def mem_update_def Let_def sm_find_by_mac_def sm_active_def mem_find_by_mac_def
      mem_find_active_def)

end
