(* ===== verification/Registry.thy ===== *)
theory Registry
  imports Domain
begin

text \<open>
  The lookup tables of the server: \<open>Registry\<close> (\<open>internal/server/registry.go\<close>), which maps MAC
  addresses to clients, with a wildcard and one-time boot overrides, and \<open>MenuResolver\<close>
  (\<open>internal/server/menu.go\<close>). Every method of \<open>Registry\<close> holds its mutex for its whole body,
  so a concurrent execution is a sequence of its operations.

  Two interfaces are stated as locales: a table loaded from a list and looked up by key,
  which both components provide, and a store of one-shot values, which the registry
  provides for the overrides.
\<close>

section \<open>The interfaces\<close>

locale keyed_table =
  fixes load :: "'a list \<Rightarrow> 's \<Rightarrow> 's" and find :: "'s \<Rightarrow> 'k \<Rightarrow> 'a option"
    and key :: "'a \<Rightarrow> 'k" and indexed :: "'a \<Rightarrow> bool"
  assumes find_load: "find (load xs s) k = last_match (\<lambda>x. indexed x \<and> key x = k) xs"
begin

lemma find_sound: "find (load xs s) k = Some x \<Longrightarrow> x \<in> set xs \<and> indexed x \<and> key x = k"
  unfolding find_load by (drule last_match_SomeD) simp

lemma find_complete:
  "find (load xs s) k = None \<longleftrightarrow> (\<forall>x \<in> set xs. indexed x \<longrightarrow> key x \<noteq> k)"
  unfolding find_load by (auto simp: last_match_None)

lemma find_unique:
  assumes "x \<in> set xs" and "indexed x" and "inj_on key {y \<in> set xs. indexed y}"
  shows "find (load xs s) (key x) = Some x"
  unfolding find_load
proof (rule last_match_unique)
  fix y assume "y \<in> set xs" and "indexed y \<and> key y = key x"
  with assms show "y = x" by (auto dest: inj_onD)
qed (use assms in auto)

lemma find_load_forgets: "find (load xs s) = find (load xs s')"
  by (rule ext) (simp add: find_load)

end

text \<open>Operations of a store of one-shot values, and the results of the reads in a sequence.\<close>

datatype ('m, 'v, 'o) shot_op = Arm 'm 'v | Fire 'm | Other 'o

fun shots ::
  "('m \<Rightarrow> 'v \<Rightarrow> 's \<Rightarrow> 's) \<Rightarrow> ('m \<Rightarrow> 's \<Rightarrow> 's \<times> 'v) \<Rightarrow> ('o \<Rightarrow> 's \<Rightarrow> 's) \<Rightarrow>
     's \<Rightarrow> ('m, 'v, 'o) shot_op list \<Rightarrow> ('m \<times> 'v) list" where
  "shots put consume other s [] = []"
| "shots put consume other s (Arm m v # xs) = shots put consume other (put m v s) xs"
| "shots put consume other s (Fire m # xs) =
     (m, snd (consume m s)) # shots put consume other (fst (consume m s)) xs"
| "shots put consume other s (Other q # xs) = shots put consume other (other q s) xs"

text \<open>The specification: what is armed is a partial map, a read clears its key.\<close>

fun shots_spec ::
  "'v \<Rightarrow> ('m \<Rightarrow> 'k) \<Rightarrow> ('k \<rightharpoonup> 'v) \<Rightarrow> ('m, 'v, 'o) shot_op list \<Rightarrow> ('m \<times> 'v) list" where
  "shots_spec none key P [] = []"
| "shots_spec none key P (Arm m v # xs) = shots_spec none key (P(key m \<mapsto> v)) xs"
| "shots_spec none key P (Fire m # xs) =
     (m, case P (key m) of None \<Rightarrow> none | Some v \<Rightarrow> v) # shots_spec none key (P(key m := None)) xs"
| "shots_spec none key P (Other q # xs) = shots_spec none key P xs"

definition deliveries :: "'v \<Rightarrow> ('m \<Rightarrow> 'k) \<Rightarrow> 'k \<Rightarrow> ('m \<times> 'v) list \<Rightarrow> nat" where
  "deliveries none key k rs = length (filter (\<lambda>(m, v). key m = k \<and> v \<noteq> none) rs)"

fun arms :: "('m \<Rightarrow> 'k) \<Rightarrow> 'k \<Rightarrow> ('m, 'v, 'o) shot_op list \<Rightarrow> nat" where
  "arms key k [] = 0"
| "arms key k (Arm m v # xs) = (if key m = k then 1 else 0) + arms key k xs"
| "arms key k (_ # xs) = arms key k xs"

lemma shots_spec_deliveries:
  "deliveries none key k (shots_spec none key P xs) \<le>
     arms key k xs + (if P k = None then 0 else 1)"
proof (induction xs arbitrary: P)
  case Nil
  then show ?case by (simp add: deliveries_def)
next
  case (Cons x xs)
  show ?case
  proof (cases x)
    case (Arm m v)
    with Cons [of "P(key m \<mapsto> v)"] show ?thesis
      by (cases "k = key m") (simp_all del: fun_upd_apply add: fun_upd_same fun_upd_other)
  next
    case (Fire m)
    with Cons [of "P(key m := None)"] show ?thesis
      by (cases "k = key m"; cases "P (key m)")
         (auto simp: deliveries_def fun_upd_same fun_upd_other simp del: fun_upd_apply)
  next
    case (Other q)
    with Cons [of P] show ?thesis by simp
  qed
qed

locale one_shot =
  fixes put :: "'m \<Rightarrow> 'v \<Rightarrow> 's \<Rightarrow> 's" and consume :: "'m \<Rightarrow> 's \<Rightarrow> 's \<times> 'v"
    and other :: "'o \<Rightarrow> 's \<Rightarrow> 's" and pending :: "'s \<Rightarrow> 'k \<rightharpoonup> 'v"
    and key :: "'m \<Rightarrow> 'k" and none :: 'v
  assumes pending_put: "pending (put m v s) = (pending s)(key m \<mapsto> v)"
    and consume_result: "snd (consume m s) = (case pending s (key m) of None \<Rightarrow> none | Some v \<Rightarrow> v)"
    and pending_consume: "pending (fst (consume m s)) = (pending s)(key m := None)"
    and pending_other: "pending (other q s) = pending s"
begin

lemma shots_refine: "shots put consume other s xs = shots_spec none key (pending s) xs"
proof (induction xs arbitrary: s)
  case (Cons x xs)
  then show ?case
    by (cases x) (simp_all add: pending_put consume_result pending_consume pending_other
        del: fun_upd_apply)
qed simp

lemma shots_deliveries:
  "deliveries none key k (shots put consume other s xs) \<le>
     arms key k xs + (if pending s k = None then 0 else 1)"
  unfolding shots_refine by (rule shots_spec_deliveries)

end

section \<open>The registry\<close>

record registry =
  rg_clients :: "(string, client) gomap"
  rg_wildcard :: "client option"
  rg_overrides :: "(string, string) gomap"

definition load_client :: "client \<Rightarrow> registry \<Rightarrow> registry" where
  "load_client c r =
     (if client_is_wildcard c then r\<lparr>rg_wildcard := Some c\<rparr>
      else r\<lparr>rg_clients := AList.update (mac_string (cl_mac c)) c (rg_clients r)\<rparr>)"

definition load_clients :: "client list \<Rightarrow> registry \<Rightarrow> registry" where
  "load_clients clients r = fold load_client clients (r\<lparr>rg_clients := [], rg_wildcard := None\<rparr>)"

definition NewRegistry :: "client list \<Rightarrow> registry" where
  "NewRegistry clients =
     load_clients clients \<lparr>rg_clients = [], rg_wildcard = None, rg_overrides = []\<rparr>"

datatype registry_error = NoClientConfig hwaddr

definition find_client :: "registry \<Rightarrow> hwaddr \<Rightarrow> registry_error + client" where
  "find_client r mac =
     (case map_of (rg_clients r) (mac_string mac) of
        Some c \<Rightarrow> Inr c
      | None \<Rightarrow> (case rg_wildcard r of
          Some c \<Rightarrow> Inr c
        | None \<Rightarrow> Inl (NoClientConfig mac)))"

definition set_boot_override :: "hwaddr \<Rightarrow> string \<Rightarrow> registry \<Rightarrow> registry" where
  "set_boot_override mac entry_name r =
     r\<lparr>rg_overrides := AList.update (mac_string mac) entry_name (rg_overrides r)\<rparr>"

definition consume_boot_override :: "hwaddr \<Rightarrow> registry \<Rightarrow> registry \<times> string" where
  "consume_boot_override mac r =
     (case map_of (rg_overrides r) (mac_string mac) of
        None \<Rightarrow> (r, [])
      | Some entry \<Rightarrow> (r\<lparr>rg_overrides := AList.delete (mac_string mac) (rg_overrides r)\<rparr>, entry))"

definition registry_reload :: "client list \<Rightarrow> registry \<Rightarrow> registry" where
  "registry_reload clients r = load_clients clients r"

definition list_clients ::
  "((string, client) gomap \<Rightarrow> (string, client) gomap) \<Rightarrow> registry \<Rightarrow> client list" where
  "list_clients rng r =
     map snd (rng (rg_clients r)) @ (case rg_wildcard r of None \<Rightarrow> [] | Some c \<Rightarrow> [c])"

subsection \<open>The registry as a table\<close>

lemma load_client_simps [simp]:
  "client_is_wildcard c \<Longrightarrow> load_client c r = r\<lparr>rg_wildcard := Some c\<rparr>"
  "\<not> client_is_wildcard c \<Longrightarrow> load_client c r =
     r\<lparr>rg_clients := AList.update (mac_string (cl_mac c)) c (rg_clients r)\<rparr>"
  by (simp_all add: load_client_def)

lemma fold_load_client:
  "map_of (rg_clients (fold load_client cs r)) k =
     (case last_match (\<lambda>c. \<not> client_is_wildcard c \<and> mac_string (cl_mac c) = k) cs of
        Some c \<Rightarrow> Some c | None \<Rightarrow> map_of (rg_clients r) k)"
  "rg_wildcard (fold load_client cs r) =
     (case last_match client_is_wildcard cs of Some c \<Rightarrow> Some c | None \<Rightarrow> rg_wildcard r)"
  "rg_overrides (fold load_client cs r) = rg_overrides r"
  by (induction cs rule: rev_induct) (auto simp: load_client_def)

lemma rg_overrides_load [simp]: "rg_overrides (load_clients cs r) = rg_overrides r"
  by (simp add: load_clients_def fold_load_client)

lemma rg_wildcard_load [simp]: "rg_wildcard (load_clients cs r) = last_match client_is_wildcard cs"
  by (simp add: load_clients_def fold_load_client split: option.splits)

interpretation clients: keyed_table load_clients "\<lambda>r. map_of (rg_clients r)"
  "\<lambda>c. mac_string (cl_mac c)" "\<lambda>c. \<not> client_is_wildcard c"
  by unfold_locales (simp add: load_clients_def fold_load_client split: option.splits)

interpretation overrides: one_shot set_boot_override consume_boot_override registry_reload
  "\<lambda>r. map_of (rg_overrides r)" mac_string "[]"
  by unfold_locales
     (auto simp: set_boot_override_def consume_boot_override_def registry_reload_def
        split: option.splits)

lemma find_client_load:
  "find_client (load_clients cs r) mac =
     (case last_match (\<lambda>c. \<not> client_is_wildcard c \<and> mac_string (cl_mac c) = mac_string mac) cs of
        Some c \<Rightarrow> Inr c
      | None \<Rightarrow> (case last_match client_is_wildcard cs of
          Some c \<Rightarrow> Inr c | None \<Rightarrow> Inl (NoClientConfig mac)))"
  by (simp add: find_client_def clients.find_load split: option.splits)

lemma find_client_load_mem:
  "find_client (load_clients cs r) mac = Inr c \<Longrightarrow> c \<in> set cs"
  by (auto simp: find_client_load dest: last_match_SomeD split: option.splits)

lemma find_client_override [simp]:
  "find_client (set_boot_override m e r) mac = find_client r mac"
  "find_client (fst (consume_boot_override m r)) mac = find_client r mac"
  by (simp_all add: find_client_def set_boot_override_def consume_boot_override_def
      split: option.splits)

section \<open>The menu resolver\<close>

record menu_resolver =
  mr_menus :: "(string, menu_entry) gomap"

definition load_menus :: "menu_entry list \<Rightarrow> (string, menu_entry) gomap" where
  "load_menus menus = fold (\<lambda>e. AList.update (me_name e) e) menus []"

definition NewMenuResolver :: "menu_entry list \<Rightarrow> menu_resolver" where
  "NewMenuResolver menus = \<lparr>mr_menus = load_menus menus\<rparr>"

definition menus_reload :: "menu_entry list \<Rightarrow> menu_resolver \<Rightarrow> menu_resolver" where
  "menus_reload menus r = r\<lparr>mr_menus := load_menus menus\<rparr>"

datatype resolve_error = NoEntriesToResolve | MenuEntryNotFound string

fun resolve_loop ::
  "menu_resolver \<Rightarrow> menu_entry list \<Rightarrow> string list \<Rightarrow> resolve_error + menu_entry list" where
  "resolve_loop r result [] = Inr result"
| "resolve_loop r result (name # names) =
     (case map_of (mr_menus r) name of
        None \<Rightarrow> Inl (MenuEntryNotFound name)
      | Some entry \<Rightarrow> resolve_loop r (result @ [entry]) names)"

definition menus_resolve :: "menu_resolver \<Rightarrow> string list \<Rightarrow> resolve_error + menu_entry list" where
  "menus_resolve r entries =
     (if entries = [] then Inl NoEntriesToResolve else resolve_loop r [] entries)"

definition menus_find_by_name :: "menu_resolver \<Rightarrow> string \<Rightarrow> resolve_error + menu_entry" where
  "menus_find_by_name r name =
     (case map_of (mr_menus r) name of
        None \<Rightarrow> Inl (MenuEntryNotFound name) | Some entry \<Rightarrow> Inr entry)"

definition menus_list_all ::
  "((string, menu_entry) gomap \<Rightarrow> (string, menu_entry) gomap) \<Rightarrow> menu_resolver \<Rightarrow> menu_entry list" where
  "menus_list_all rng r = map snd (rng (mr_menus r))"

lemma map_of_fold_menus:
  "map_of (fold (\<lambda>e. AList.update (me_name e) e) menus m) name =
     (case last_match (\<lambda>e. me_name e = name) menus of Some e \<Rightarrow> Some e | None \<Rightarrow> map_of m name)"
  by (induction menus rule: rev_induct) auto

interpretation menus: keyed_table menus_reload "\<lambda>r. map_of (mr_menus r)" me_name "\<lambda>_. True"
  by unfold_locales (simp add: menus_reload_def load_menus_def map_of_fold_menus split: option.splits)

lemma NewMenuResolver_reload: "NewMenuResolver ms = menus_reload ms \<lparr>mr_menus = []\<rparr>"
  by (simp add: NewMenuResolver_def menus_reload_def)

lemma resolve_loop_eq:
  "resolve_loop r acc names =
     (case find (\<lambda>n. map_of (mr_menus r) n = None) names of
        Some n \<Rightarrow> Inl (MenuEntryNotFound n)
      | None \<Rightarrow> Inr (acc @ map (\<lambda>n. the (map_of (mr_menus r) n)) names))"
  by (induction names arbitrary: acc) (auto split: option.splits)

lemma menus_resolve_ok:
  assumes "names \<noteq> []" and "\<And>n. n \<in> set names \<Longrightarrow> map_of (mr_menus r) n \<noteq> None"
  shows "menus_resolve r names = Inr (map (\<lambda>n. the (map_of (mr_menus r) n)) names)"
proof -
  have "find (\<lambda>n. map_of (mr_menus r) n = None) names = None"
    using assms(2) by (simp add: find_None_iff)
  with assms(1) show ?thesis by (simp add: menus_resolve_def resolve_loop_eq)
qed

lemma menus_resolve_Inr:
  "menus_resolve r names = Inr es \<Longrightarrow>
     names \<noteq> [] \<and> list_all2 (\<lambda>n e. map_of (mr_menus r) n = Some e) names es"
  by (auto simp: menus_resolve_def resolve_loop_eq find_None_iff list_all2_conv_all_nth
      split: if_splits option.splits)

section \<open>Nothing is lost when clients are listed\<close>

lemma update_absent: "map_of m k = None \<Longrightarrow> AList.update k v m = m @ [(k, v)]"
  by (induction m) (auto split: if_splits)

lemma load_clients_all:
  assumes "inj_on (\<lambda>c. mac_string (cl_mac c)) (set (filter (\<lambda>c. \<not> client_is_wildcard c) cs))"
    and "distinct (filter (\<lambda>c. \<not> client_is_wildcard c) cs)"
  shows "map snd (rg_clients (fold load_client cs \<lparr>rg_clients = [], rg_wildcard = w, rg_overrides = o'\<rparr>)) =
    filter (\<lambda>c. \<not> client_is_wildcard c) cs"
  using assms
proof (induction cs rule: rev_induct)
  case (snoc c cs)
  let ?r = "fold load_client cs \<lparr>rg_clients = [], rg_wildcard = w, rg_overrides = o'\<rparr>"
  from snoc have IH: "map snd (rg_clients ?r) = filter (\<lambda>c. \<not> client_is_wildcard c) cs"
    by (auto simp: inj_on_def)
  show ?case
  proof (cases "client_is_wildcard c")
    case True
    with IH show ?thesis by simp
  next
    case False
    with snoc.prems have "\<forall>d \<in> set cs. \<not> client_is_wildcard d \<longrightarrow>
        mac_string (cl_mac d) \<noteq> mac_string (cl_mac c)"
      by (auto simp: inj_on_def)
    then have "last_match (\<lambda>d. \<not> client_is_wildcard d \<and> mac_string (cl_mac d) = mac_string (cl_mac c)) cs
        = None"
      by (auto simp: last_match_None)
    then have "map_of (rg_clients ?r) (mac_string (cl_mac c)) = None"
      by (simp add: fold_load_client)
    with IH False show ?thesis by (simp add: update_absent)
  qed
qed simp

section \<open>Properties\<close>

text \<open>C24 (find_client_spec). After the registry is built from a list of clients, or reloaded
  with one, looking a MAC address up returns the last client listed for exactly this address;
  where there is none it returns the last wildcard client, and an error only where there is
  no wildcard either. Earlier clients and pending overrides do not matter.\<close>

theorem find_client_spec:
  "find_client (registry_reload cs r) mac =
     (case last_match (\<lambda>c. \<not> client_is_wildcard c \<and> mac_string (cl_mac c) = mac_string mac) cs of
        Some c \<Rightarrow> Inr c
      | None \<Rightarrow> (case last_match client_is_wildcard cs of
          Some c \<Rightarrow> Inr c | None \<Rightarrow> Inl (NoClientConfig mac))) \<and>
   find_client (NewRegistry cs) mac = find_client (registry_reload cs r) mac"
  by (simp add: registry_reload_def NewRegistry_def find_client_load)

text \<open>C16 (override_one_shot). In every sequence of \<open>SetBootOverride\<close>, \<open>ConsumeBootOverride\<close> and
  \<open>Reload\<close> calls, from any registry, a read returns exactly the override set last for the
  address and not yet read, or the empty string: a reload drops none, and an address is given
  an override at most as often as one was set for it (or was pending at the start).\<close>

theorem override_one_shot:
  "shots set_boot_override consume_boot_override registry_reload r xs =
     shots_spec [] mac_string (map_of (rg_overrides r)) xs \<and>
   deliveries [] mac_string k (shots set_boot_override consume_boot_override registry_reload r xs) \<le>
     arms mac_string k xs + (if map_of (rg_overrides r) k = None then 0 else 1)"
  by (intro conjI overrides.shots_refine overrides.shots_deliveries)

text \<open>Resolving a client's menu names, after the resolver is built from
  a list of entries or reloaded with one, returns for each name, in order, the last entry of
  that name; an empty list of names and the first name with no entry are errors.\<close>

lemma menus_resolve_spec:
  "menus_resolve (menus_reload ms r) names =
     (if names = [] then Inl NoEntriesToResolve
      else case find (\<lambda>n. n \<notin> set (map me_name ms)) names of
             Some n \<Rightarrow> Inl (MenuEntryNotFound n)
           | None \<Rightarrow> Inr (map (\<lambda>n. the (last_match (\<lambda>e. me_name e = n) ms)) names)) \<and>
   menus_resolve (NewMenuResolver ms) names = menus_resolve (menus_reload ms r) names"
proof -
  have "(\<lambda>n. map_of (mr_menus (menus_reload ms r)) n = None) = (\<lambda>n. n \<notin> set (map me_name ms))" for r
    by (auto simp: menus.find_load last_match_None)
  then have eq: "menus_resolve (menus_reload ms r) names =
     (if names = [] then Inl NoEntriesToResolve
      else case find (\<lambda>n. n \<notin> set (map me_name ms)) names of
             Some n \<Rightarrow> Inl (MenuEntryNotFound n)
           | None \<Rightarrow> Inr (map (\<lambda>n. the (last_match (\<lambda>e. me_name e = n) ms)) names))" for r
    by (simp add: menus_resolve_def resolve_loop_eq menus.find_load split: option.splits)
  show ?thesis by (simp only: eq NewMenuResolver_reload simp_thms)
qed

text \<open>Listing the clients of a registry built from a list with one
  client per MAC address and at most one wildcard returns all of them, each once, whatever
  order the map is visited in.\<close>

lemma list_clients_complete:
  assumes "range_order rng"
    and "distinct cs"
    and "inj_on (\<lambda>c. mac_string (cl_mac c)) (set (filter (\<lambda>c. \<not> client_is_wildcard c) cs))"
    and "length (filter client_is_wildcard cs) \<le> 1"
  shows "mset (list_clients rng (NewRegistry cs)) = mset cs"
proof -
  have wild: "mset (case last_match client_is_wildcard cs of None \<Rightarrow> [] | Some c \<Rightarrow> [c]) =
      mset (filter client_is_wildcard cs)"
  proof (cases "filter client_is_wildcard cs")
    case Nil
    then show ?thesis by (simp add: last_match_def filter_empty_conv find_None_iff[THEN iffD2])
  next
    case (Cons w ws)
    with assms(4) have one: "filter client_is_wildcard cs = [w]" by simp
    then have "{c \<in> set cs. client_is_wildcard c} = {w}" by (metis list.simps(15) empty_set set_filter)
    then have "last_match client_is_wildcard cs = Some w"
      by (intro last_match_unique) auto
    with one show ?thesis by simp
  qed
  have perm: "mset (map snd (rng m)) = mset (map snd m)" for m
    using assms(1) by (simp add: range_order_def)
  have "map snd (rg_clients (NewRegistry cs)) = filter (\<lambda>c. \<not> client_is_wildcard c) cs"
    using load_clients_all [OF assms(3)] assms(2) by (simp add: NewRegistry_def load_clients_def)
  then have "mset (map snd (rng (rg_clients (NewRegistry cs)))) =
      mset (filter (\<lambda>c. \<not> client_is_wildcard c) cs)"
    by (simp only: perm)
  moreover have "rg_wildcard (NewRegistry cs) = last_match client_is_wildcard cs"
    by (simp add: NewRegistry_def)
  ultimately have "mset (list_clients rng (NewRegistry cs)) =
      mset (filter (\<lambda>c. \<not> client_is_wildcard c) cs) + mset (filter client_is_wildcard cs)"
    using wild by (simp only: list_clients_def mset_append)
  then show ?thesis by (simp add: add.commute flip: multiset_partition)
qed

definition sample_menu :: menu_config where
  "sample_menu = \<lparr>mc_entries = [''disk''], mc_default = [], mc_timeout = 0\<rparr>"

definition sample_client :: "hwaddr \<Rightarrow> string \<Rightarrow> client" where
  "sample_client mac name = \<lparr>cl_mac = mac, cl_name = name, cl_menu = sample_menu, cl_bootloader = None,
     cl_vars = None, cl_enabled = True, cl_source = ''boot.toml''\<rparr>"

lemma list_clients_complete_example:
  "mset (list_clients rev (NewRegistry [sample_client (Some [1, 2, 3, 4, 5, 6]) ''a'',
      sample_client WildcardMAC ''b'', sample_client (Some [1, 2, 3, 4, 5, 7]) ''c''])) =
   mset [sample_client (Some [1, 2, 3, 4, 5, 6]) ''a'', sample_client WildcardMAC ''b'',
      sample_client (Some [1, 2, 3, 4, 5, 7]) ''c'']"
  by (rule list_clients_complete)
     (simp_all add: range_order_def sample_client_def client_is_wildcard_iff WildcardMAC_def)

end
