(* ===== verification/Ipxe.thy ===== *)
theory Ipxe
  imports Domain
begin

text \<open>
  The iPXE script generator of \<open>internal/server/ipxe.go\<close>. The writers append to a
  \<open>strings.Builder\<close>; here each returns the text it appends. \<open>substituteVars\<close> ranges over
  the map of custom variables, whose order Go leaves open: \<open>rng s m\<close> is the order in which
  the map \<open>m\<close> is visited when the string \<open>s\<close> is substituted.

  The generator is shown to print a program of iPXE commands, an abstract syntax with
  labels and jumps, so that facts about the control flow of a script can be stated; and
  substitution is shown to be simultaneous and independent of the map order on templates.
\<close>

section \<open>The generator\<close>

record ipxe_vars =
  iv_server_ip :: string
  iv_http_port :: int
  iv_mac :: string
  iv_custom :: "(string, string) gomap option"

type_synonym var_order = "string \<Rightarrow> (string, string) gomap \<Rightarrow> (string, string) gomap"

definition nl :: string where
  "nl = [CHR 0x0A]"

definition placeholder :: "string \<Rightarrow> string" where
  "placeholder k = ''${'' @ k @ ''}''"

definition go_map :: "('k, 'v) gomap option \<Rightarrow> ('k, 'v) gomap" where
  "go_map m = (case m of None \<Rightarrow> [] | Some m' \<Rightarrow> m')"

definition substitute_vars :: "var_order \<Rightarrow> string \<Rightarrow> ipxe_vars \<Rightarrow> string" where
  "substitute_vars rng s vars =
     (let s1 = replace_all ''${server_ip}'' (iv_server_ip vars) s;
          s2 = replace_all ''${http_port}'' (dec_of_int (iv_http_port vars)) s1;
          s3 = replace_all ''${mac}'' (iv_mac vars) s2
      in fold (\<lambda>(k, v) s. replace_all (''${'' @ k @ ''}'') v s) (rng s (go_map (iv_custom vars))) s3)"

definition file_url :: "var_order \<Rightarrow> menu_entry \<Rightarrow> string \<Rightarrow> ipxe_vars \<Rightarrow> string" where
  "file_url rng entry filename vars =
     (if mh_path (me_http entry) \<noteq> [] then
        let path = (if \<not> has_suffix (mh_path (me_http entry)) ''/''
                    then mh_path (me_http entry) @ ''/'' else mh_path (me_http entry));
            url = ''http://'' @ iv_server_ip vars @ '':'' @ dec_of_int (iv_http_port vars) @ path @ filename
        in substitute_vars rng url vars
      else
        let url = ''http://'' @ iv_server_ip vars @ '':'' @ dec_of_int (iv_http_port vars) @ ''/'' @
                  me_name entry @ ''/'' @ filename
        in substitute_vars rng url vars)"

definition write_wimboot :: "var_order \<Rightarrow> menu_entry \<Rightarrow> ipxe_vars \<Rightarrow> string" where
  "write_wimboot rng entry vars =
     ''kernel '' @ file_url rng entry ''wimboot'' vars @ nl @
     concat (map (\<lambda>file. ''initrd '' @ file_url rng entry file vars @ nl) (bp_files (me_boot entry))) @
     ''boot'' @ nl"

definition write_boot_entry :: "var_order \<Rightarrow> menu_entry \<Rightarrow> ipxe_vars \<Rightarrow> string" where
  "write_boot_entry rng entry vars =
     (let b = me_boot entry in
      if bp_loader b = ''wimboot'' then write_wimboot rng entry vars
      else if bp_chain b \<noteq> [] then
        ''chain --autofree '' @ substitute_vars rng (bp_chain b) vars @ '' || goto failed'' @ nl
      else if bp_binary b \<noteq> [] then
        ''chain '' @ file_url rng entry (bp_binary b) vars @ nl
      else
        (if bp_kernel b \<noteq> [] then
           ''kernel '' @ file_url rng entry (bp_kernel b) vars @
           (if bp_cmdline b \<noteq> [] then '' '' @ substitute_vars rng (bp_cmdline b) vars else []) @ nl
         else []) @
        (if bp_initrd b \<noteq> [] then ''initrd '' @ file_url rng entry (bp_initrd b) vars @ nl else []) @
        (if bp_image b \<noteq> [] then ''initrd '' @ file_url rng entry (bp_image b) vars @ nl else []) @
        ''boot'' @ nl)"

definition write_choose :: "menu_config \<Rightarrow> string" where
  "write_choose mc =
     ''choose'' @
     (if mc_default mc \<noteq> [] then '' --default '' @ mc_default mc else []) @
     (if mc_timeout mc > 0 then '' --timeout '' @ dec_of_int (mc_timeout mc) @ ''000'' else []) @
     '' selected || goto failed'' @ nl"

definition write_menu_block :: "var_order \<Rightarrow> ipxe_vars \<Rightarrow> menu_entry \<Rightarrow> string" where
  "write_menu_block rng vars entry =
     nl @ '':'' @ me_name entry @ nl @
     (if me_type entry = MenuExit then ''exit 0'' @ nl
      else if bp_chain (me_boot entry) \<noteq> [] then
        ''chain --autofree '' @ substitute_vars rng (bp_chain (me_boot entry)) vars @
        '' || goto start'' @ nl
      else write_boot_entry rng entry vars)"

definition write_menu :: "var_order \<Rightarrow> menu_entry list \<Rightarrow> menu_config \<Rightarrow> ipxe_vars \<Rightarrow> string" where
  "write_menu rng entries mc vars =
     '':start'' @ nl @
     ''menu Bootforge Boot Menu'' @ nl @
     concat (map (\<lambda>entry. ''item '' @ me_name entry @ '' '' @ me_label entry @ nl) entries) @
     nl @
     write_choose mc @
     ''goto ${selected}'' @ nl @
     concat (map (write_menu_block rng vars) entries) @
     nl @ '':failed'' @ nl @
     ''echo Boot failed, retrying in 5 seconds...'' @ nl @
     ''sleep 5'' @ nl @
     ''goto start'' @ nl"

definition direct_boot :: "menu_entry list \<Rightarrow> bool" where
  "direct_boot entries \<longleftrightarrow> length entries = 1 \<and> me_type (entries ! 0) \<noteq> MenuExit"

definition generate :: "var_order \<Rightarrow> menu_entry list \<Rightarrow> menu_config \<Rightarrow> ipxe_vars \<Rightarrow> string" where
  "generate rng entries mc vars =
     ''#!ipxe'' @ nl @ nl @
     (if length entries = 1 \<and> me_type (entries ! 0) \<noteq> MenuExit
      then write_boot_entry rng (entries ! 0) vars
      else write_menu rng entries mc vars)"

definition generate_override :: "var_order \<Rightarrow> menu_entry \<Rightarrow> ipxe_vars \<Rightarrow> string" where
  "generate_override rng entry vars =
     ''#!ipxe'' @ nl @ nl @ ''# One-time boot override'' @ nl @ write_boot_entry rng entry vars"

section \<open>iPXE programs\<close>

text \<open>One constructor per kind of line the generator prints.\<close>

datatype line =
  Shebang
| Blank
| Remark string
| Label string
| MenuTitle string
| Item string string
| Choose string int \<comment> \<open>the default entry and the timeout in seconds, else a jump to \<open>failed\<close>\<close>
| GotoSelected
| Goto string
| ExitMenu
| ChainOr string string \<comment> \<open>a URL and the label to jump to where it cannot be loaded\<close>
| Chain string
| Kernel string "string option"
| Initrd string
| Boot
| Echo string
| Sleep int

fun print_line :: "line \<Rightarrow> string" where
  "print_line Shebang = ''#!ipxe''"
| "print_line Blank = []"
| "print_line (Remark s) = ''# '' @ s"
| "print_line (Label l) = '':'' @ l"
| "print_line (MenuTitle s) = ''menu '' @ s"
| "print_line (Item n l) = ''item '' @ n @ '' '' @ l"
| "print_line (Choose d t) = ''choose'' @ (if d \<noteq> [] then '' --default '' @ d else []) @
     (if t > 0 then '' --timeout '' @ dec_of_int t @ ''000'' else []) @ '' selected || goto failed''"
| "print_line GotoSelected = ''goto ${selected}''"
| "print_line (Goto l) = ''goto '' @ l"
| "print_line ExitMenu = ''exit 0''"
| "print_line (ChainOr u l) = ''chain --autofree '' @ u @ '' || goto '' @ l"
| "print_line (Chain u) = ''chain '' @ u"
| "print_line (Kernel u c) = ''kernel '' @ u @ (case c of None \<Rightarrow> [] | Some c' \<Rightarrow> '' '' @ c')"
| "print_line (Initrd u) = ''initrd '' @ u"
| "print_line Boot = ''boot''"
| "print_line (Echo s) = ''echo '' @ s"
| "print_line (Sleep n) = ''sleep '' @ dec_of_int n"

definition print_program :: "line list \<Rightarrow> string" where
  "print_program ls = concat (map (\<lambda>l. print_line l @ nl) ls)"

lemma print_program_simps [simp]:
  "print_program [] = []" "print_program (l # ls) = print_line l @ nl @ print_program ls"
  "print_program (ls @ ms) = print_program ls @ print_program ms"
  by (simp_all add: print_program_def)

lemma print_program_concat: "print_program (concat (map f xs)) = concat (map (\<lambda>x. print_program (f x)) xs)"
  by (induction xs) simp_all

text \<open>The jumps a program makes by name, the labels it defines, the choices it offers.\<close>

fun line_jumps :: "line \<Rightarrow> string list" where
  "line_jumps (Choose d t) = [''failed'']"
| "line_jumps (Goto l) = [l]"
| "line_jumps (ChainOr u l) = [l]"
| "line_jumps _ = []"

fun line_label :: "line \<Rightarrow> string list" where
  "line_label (Label l) = [l]"
| "line_label _ = []"

fun line_item :: "line \<Rightarrow> string list" where
  "line_item (Item n l) = [n]"
| "line_item _ = []"

definition jumps :: "line list \<Rightarrow> string list" where "jumps ls = concat (map line_jumps ls)"
definition labels :: "line list \<Rightarrow> string list" where "labels ls = concat (map line_label ls)"
definition choices :: "line list \<Rightarrow> string list" where "choices ls = concat (map line_item ls)"

definition jumps_defined :: "line list \<Rightarrow> bool" where
  "jumps_defined ls \<longleftrightarrow> set (jumps ls) \<union> set (choices ls) \<subseteq> set (labels ls)"

lemma parts_simps [simp]:
  "jumps [] = []" "jumps (l # ls) = line_jumps l @ jumps ls" "jumps (ls @ ms) = jumps ls @ jumps ms"
  "labels [] = []" "labels (l # ls) = line_label l @ labels ls" "labels (ls @ ms) = labels ls @ labels ms"
  "choices [] = []" "choices (l # ls) = line_item l @ choices ls" "choices (ls @ ms) = choices ls @ choices ms"
  by (simp_all add: jumps_def labels_def choices_def)

section \<open>The program the generator prints\<close>

definition boot_program :: "var_order \<Rightarrow> ipxe_vars \<Rightarrow> menu_entry \<Rightarrow> line list" where
  "boot_program rng vars e =
     (let b = me_boot e; url = (\<lambda>f. file_url rng e f vars) in
      if bp_loader b = ''wimboot''
      then Kernel (url ''wimboot'') None # map (\<lambda>f. Initrd (url f)) (bp_files b) @ [Boot]
      else if bp_chain b \<noteq> [] then [ChainOr (substitute_vars rng (bp_chain b) vars) ''failed'']
      else if bp_binary b \<noteq> [] then [Chain (url (bp_binary b))]
      else (if bp_kernel b \<noteq> [] then [Kernel (url (bp_kernel b))
             (if bp_cmdline b \<noteq> [] then Some (substitute_vars rng (bp_cmdline b) vars) else None)] else []) @
           (if bp_initrd b \<noteq> [] then [Initrd (url (bp_initrd b))] else []) @
           (if bp_image b \<noteq> [] then [Initrd (url (bp_image b))] else []) @ [Boot])"

definition block_program :: "var_order \<Rightarrow> ipxe_vars \<Rightarrow> menu_entry \<Rightarrow> line list" where
  "block_program rng vars e =
     Blank # Label (me_name e) #
     (if me_type e = MenuExit then [ExitMenu]
      else if bp_chain (me_boot e) \<noteq> []
      then [ChainOr (substitute_vars rng (bp_chain (me_boot e)) vars) ''start'']
      else boot_program rng vars e)"

definition menu_program :: "var_order \<Rightarrow> menu_entry list \<Rightarrow> menu_config \<Rightarrow> ipxe_vars \<Rightarrow> line list" where
  "menu_program rng entries mc vars =
     [Label ''start'', MenuTitle ''Bootforge Boot Menu''] @
     map (\<lambda>e. Item (me_name e) (me_label e)) entries @
     [Blank, Choose (mc_default mc) (mc_timeout mc), GotoSelected] @
     concat (map (block_program rng vars) entries) @
     [Blank, Label ''failed'', Echo ''Boot failed, retrying in 5 seconds...'', Sleep 5, Goto ''start'']"

definition generate_program :: "var_order \<Rightarrow> menu_entry list \<Rightarrow> menu_config \<Rightarrow> ipxe_vars \<Rightarrow> line list" where
  "generate_program rng entries mc vars =
     Shebang # Blank #
     (if direct_boot entries then boot_program rng vars (entries ! 0)
      else menu_program rng entries mc vars)"

lemma print_map_items:
  "print_program (map f xs) = concat (map (\<lambda>x. print_line (f x) @ nl) xs)"
  by (induction xs) simp_all

lemma write_boot_entry_program:
  "write_boot_entry rng e vars = print_program (boot_program rng vars e)"
  by (simp add: write_boot_entry_def write_wimboot_def boot_program_def Let_def print_map_items)

lemma write_menu_block_program:
  "write_menu_block rng vars = (\<lambda>e. print_program (block_program rng vars e))"
  by (rule ext) (simp add: write_menu_block_def block_program_def write_boot_entry_program)

lemma dec_of_int_5: "dec_of_int 5 = ''5''"
  by (simp add: dec_of_int_def dec_of_nat.simps dec_digit_def)

lemma write_menu_program:
  "write_menu rng entries mc vars = print_program (menu_program rng entries mc vars)"
  by (simp add: write_menu_def menu_program_def write_choose_def print_program_concat
      print_map_items write_menu_block_program dec_of_int_5)

lemma generate_eq_program:
  "generate rng entries mc vars = print_program (generate_program rng entries mc vars)"
  by (simp add: generate_def generate_program_def direct_boot_def write_boot_entry_program
      write_menu_program)

lemma boot_program_parts [simp]:
  "labels (boot_program rng vars e) = []" "choices (boot_program rng vars e) = []"
  "jumps (boot_program rng vars e) =
     (if bp_loader (me_boot e) \<noteq> ''wimboot'' \<and> bp_chain (me_boot e) \<noteq> [] then [''failed''] else [])"
proof -
  have "labels (map (\<lambda>f. Initrd (g f)) fs) = []" "choices (map (\<lambda>f. Initrd (g f)) fs) = []"
    "jumps (map (\<lambda>f. Initrd (g f)) fs) = []" for g and fs :: "string list"
    by (induction fs) simp_all
  then show "labels (boot_program rng vars e) = []" "choices (boot_program rng vars e) = []"
    "jumps (boot_program rng vars e) =
      (if bp_loader (me_boot e) \<noteq> ''wimboot'' \<and> bp_chain (me_boot e) \<noteq> [] then [''failed''] else [])"
    by (simp_all add: boot_program_def Let_def)
qed

lemma block_programs_parts:
  "labels (concat (map (block_program rng vars) es)) = map me_name es"
  "choices (concat (map (block_program rng vars) es)) = []"
  "set (jumps (concat (map (block_program rng vars) es))) \<subseteq> {''start'', ''failed''}"
  by (induction es) (auto simp: block_program_def)

lemma items_parts:
  "labels (map (\<lambda>e. Item (me_name e) (me_label e)) es) = []"
  "choices (map (\<lambda>e. Item (me_name e) (me_label e)) es) = map me_name es"
  "jumps (map (\<lambda>e. Item (me_name e) (me_label e)) es) = []"
  by (induction es) simp_all

lemma menu_program_parts:
  "labels (menu_program rng es mc vars) = ''start'' # map me_name es @ [''failed'']"
  "choices (menu_program rng es mc vars) = map me_name es"
  "set (jumps (menu_program rng es mc vars)) = {''start'', ''failed''}"
  using block_programs_parts [of rng vars es]
  by (auto simp: menu_program_def items_parts)

section \<open>Templates\<close>

text \<open>
  A template is literal text without a dollar sign and placeholders \<open>${name}\<close>. What a
  substitution should do to it: replace every placeholder of a variable by its value, all
  at once.
\<close>

datatype token = Lit string | Var string

fun token_string :: "token \<Rightarrow> string" where
  "token_string (Lit t) = t"
| "token_string (Var n) = placeholder n"

definition template_string :: "token list \<Rightarrow> string" where
  "template_string ts = concat (map token_string ts)"

definition name_ok :: "string \<Rightarrow> bool" where
  "name_ok n \<longleftrightarrow> CHR ''$'' \<notin> set n \<and> CHR ''}'' \<notin> set n"

fun token_ok :: "token \<Rightarrow> bool" where
  "token_ok (Lit t) \<longleftrightarrow> CHR ''$'' \<notin> set t"
| "token_ok (Var n) \<longleftrightarrow> name_ok n"

fun token_value :: "(string \<rightharpoonup> string) \<Rightarrow> token \<Rightarrow> string" where
  "token_value env (Lit t) = t"
| "token_value env (Var n) = (case env n of None \<Rightarrow> placeholder n | Some v \<Rightarrow> v)"

fun token_subst :: "string \<Rightarrow> string \<Rightarrow> token \<Rightarrow> token" where
  "token_subst k v (Lit t) = Lit t"
| "token_subst k v (Var n) = (if n = k then Lit v else Var n)"

lemma replace_all_skip:
  "CHR ''$'' \<notin> set t \<Longrightarrow>
     replace_all (CHR ''$'' # ks) v (t @ s) = t @ replace_all (CHR ''$'' # ks) v s"
  by (induction t) auto

lemma prefix_upto:
  "c \<notin> set a \<Longrightarrow> c \<notin> set b \<Longrightarrow> has_prefix (a @ c # s) (b @ [c]) \<longleftrightarrow> a = b"
proof (induction a arbitrary: b)
  case Nil
  then show ?case by (cases b) auto
next
  case (Cons x a)
  then show ?case by (cases b) auto
qed

lemma replace_placeholder:
  assumes "name_ok k" and "name_ok n"
  shows "replace_all (placeholder k) v (placeholder n @ s) =
    (if n = k then v else placeholder n) @ replace_all (placeholder k) v s"
proof -
  have pre: "has_prefix (placeholder n @ s) (placeholder k) \<longleftrightarrow> n = k"
    using assms prefix_upto [of "CHR ''}''" n k s] by (simp add: placeholder_def name_ok_def)
  show ?thesis
  proof (cases "n = k")
    case True
    with pre show ?thesis by (simp add: placeholder_def)
  next
    case False
    then have "\<not> has_prefix (n @ CHR ''}'' # s) (k @ ''}'')"
      using assms prefix_upto [of "CHR ''}''" n k s] by (simp add: name_ok_def)
    moreover have "replace_all (CHR ''$'' # CHR ''{'' # k @ ''}'') v ((CHR ''{'' # n @ ''}'') @ s) =
        (CHR ''{'' # n @ ''}'') @ replace_all (CHR ''$'' # CHR ''{'' # k @ ''}'') v s"
      using assms(2) by (intro replace_all_skip) (auto simp: name_ok_def)
    ultimately show ?thesis using False by (simp add: placeholder_def)
  qed
qed

lemma replace_template:
  assumes "name_ok k" and "\<forall>t \<in> set ts. token_ok t"
  shows "replace_all (placeholder k) v (template_string ts) = template_string (map (token_subst k v) ts)"
  using assms(2)
proof (induction ts)
  case Nil
  then show ?case by (simp add: template_string_def placeholder_def)
next
  case (Cons t ts)
  show ?case
  proof (cases t)
    case (Lit l)
    with Cons show ?thesis by (simp add: template_string_def placeholder_def replace_all_skip)
  next
    case (Var n)
    with Cons assms(1) show ?thesis by (simp add: template_string_def replace_placeholder)
  qed
qed

lemma token_subst_ok: "token_ok t \<Longrightarrow> CHR ''$'' \<notin> set v \<Longrightarrow> token_ok (token_subst k v t)"
  by (cases t) auto

text \<open>A sequence of replacements; the first one for a name wins. Only the value put in last may
  contain a dollar sign.\<close>

lemma template_values: "template_string (map (token_subst k v) ts) = concat (map (token_value [k \<mapsto> v]) ts)"
proof -
  have "token_string (token_subst k v t) = token_value [k \<mapsto> v] t" for t by (cases t) simp_all
  then show ?thesis by (simp add: template_string_def comp_def del: fun_upd_apply)
qed

lemma fold_replace_template_last:
  assumes "\<forall>t \<in> set ts. token_ok t" and "\<forall>(k, v) \<in> set kvs. name_ok k"
    and "\<forall>(k, v) \<in> set (butlast kvs). CHR ''$'' \<notin> set v"
  shows "fold (\<lambda>(k, v) s. replace_all (placeholder k) v s) kvs (template_string ts) =
    concat (map (token_value (map_of kvs)) ts)"
  using assms
proof (induction kvs arbitrary: ts)
  case Nil
  have "token_string = token_value (map_of [])"
  proof
    show "token_string t = token_value (map_of []) t" for t by (cases t) simp_all
  qed
  then show ?case by (simp add: template_string_def)
next
  case (Cons kv kvs)
  obtain k v where kv: "kv = (k, v)" by (cases kv)
  show ?case
  proof (cases "kvs = []")
    case True
    with Cons.prems show ?thesis
      by (simp add: kv replace_template template_values del: fun_upd_apply)
  next
    case False
    have "token_value (map_of kvs) (token_subst k v t) = token_value (map_of (kv # kvs)) t" for t
      by (cases t) (auto simp: kv)
    moreover have "\<forall>t \<in> set (map (token_subst k v) ts). token_ok t"
      using Cons.prems False by (auto simp: kv token_subst_ok)
    ultimately show ?thesis
      using Cons.prems False Cons.IH [of "map (token_subst k v) ts"]
      by (simp add: kv replace_template o_def del: fun_upd_apply)
  qed
qed

lemma fold_replace_template:
  assumes "\<forall>t \<in> set ts. token_ok t" and "\<forall>(k, v) \<in> set kvs. name_ok k \<and> CHR ''$'' \<notin> set v"
  shows "fold (\<lambda>(k, v) s. replace_all (placeholder k) v s) kvs (template_string ts) =
    concat (map (token_value (map_of kvs)) ts)"
  using assms(2) by (intro fold_replace_template_last [OF assms(1)]) (auto dest: in_set_butlastD)

text \<open>The variables of a chain URL.\<close>

definition chain_env :: "string \<Rightarrow> int \<Rightarrow> string \<Rightarrow> string \<rightharpoonup> string" where
  "chain_env server_ip port mac =
     map_of [(''server_ip'', server_ip), (''http_port'', dec_of_int port), (''mac'', mac)]"

definition script_env :: "ipxe_vars \<Rightarrow> string \<rightharpoonup> string" where
  "script_env vars n =
     (if n = ''server_ip'' then Some (iv_server_ip vars)
      else if n = ''http_port'' then Some (dec_of_int (iv_http_port vars))
      else if n = ''mac'' then Some (iv_mac vars)
      else map_of (go_map (iv_custom vars)) n)"

definition vars_ok :: "ipxe_vars \<Rightarrow> bool" where
  "vars_ok vars \<longleftrightarrow>
     CHR ''$'' \<notin> set (iv_server_ip vars) \<and> CHR ''$'' \<notin> set (iv_mac vars) \<and>
     map_wf (go_map (iv_custom vars)) \<and>
     (\<forall>(k, v) \<in> set (go_map (iv_custom vars)). name_ok k \<and> CHR ''$'' \<notin> set v)"

lemma dec_of_int_no_dollar: "CHR ''$'' \<notin> set (dec_of_int i)"
  using dec_of_int_chars [of i] by (auto simp: dec_digits_def)

lemma chain_url_template:
  assumes "list_all token_ok ts" and "CHR ''$'' \<notin> set server_ip"
  shows "replace_all ''${mac}'' mac (replace_all ''${http_port}'' (dec_of_int port)
      (replace_all ''${server_ip}'' server_ip (template_string ts))) =
    concat (map (token_value (chain_env server_ip port mac)) ts)"
  using fold_replace_template_last [of ts "[(''server_ip'', server_ip), (''http_port'', dec_of_int port), (''mac'', mac)]"]
    assms dec_of_int_no_dollar [of port]
  by (simp add: placeholder_def list_all_iff name_ok_def chain_env_def del: fun_upd_apply)

text \<open>The chain URL that leads to the boot script of a machine.\<close>

definition chain_template :: string where
  "chain_template = ''http://${server_ip}:${http_port}/boot/${mac}/menu.ipxe''"

lemma chain_template_value:
  assumes "CHR ''$'' \<notin> set server_ip"
  shows "replace_all ''${mac}'' mac (replace_all ''${http_port}'' (dec_of_int port)
      (replace_all ''${server_ip}'' server_ip chain_template)) =
    ''http://'' @ server_ip @ '':'' @ dec_of_int port @ ''/boot/'' @ mac @ ''/menu.ipxe''"
proof -
  let ?ts = "[Lit ''http://'', Var ''server_ip'', Lit '':'', Var ''http_port'', Lit ''/boot/'', Var ''mac'', Lit ''/menu.ipxe'']"
  have eq: "chain_template = template_string ?ts"
    by (simp add: chain_template_def template_string_def placeholder_def)
  have "list_all token_ok ?ts" by (simp add: name_ok_def)
  from chain_url_template [OF this assms, of mac port] show ?thesis
    unfolding eq by (simp only: list.map token_value.simps concat.simps) (simp add: chain_env_def)
qed

lemma substitute_vars_fold:
  "substitute_vars rng s vars =
     fold (\<lambda>(k, v) s. replace_all (placeholder k) v s)
       ([(''server_ip'', iv_server_ip vars), (''http_port'', dec_of_int (iv_http_port vars)),
         (''mac'', iv_mac vars)] @ rng s (go_map (iv_custom vars))) s"
  by (simp add: substitute_vars_def placeholder_def Let_def)

lemma substitute_template:
  assumes "\<forall>t \<in> set ts. token_ok t" and "vars_ok vars" and "\<And>s. range_order (rng s)"
  shows "substitute_vars rng (template_string ts) vars = concat (map (token_value (script_env vars)) ts)"
proof -
  let ?s = "template_string ts" and ?m = "go_map (iv_custom vars)"
  let ?kvs = "[(''server_ip'', iv_server_ip vars), (''http_port'', dec_of_int (iv_http_port vars)),
    (''mac'', iv_mac vars)] @ rng ?s ?m"
  have "map_of (rng ?s ?m) = map_of ?m" and set_eq: "set (rng ?s ?m) = set ?m"
    using assms(2,3) by (auto simp: vars_ok_def range_order_map_of range_order_set)
  then have env: "map_of ?kvs = script_env vars"
    by (intro ext) (simp add: script_env_def)
  have "\<forall>(k, v) \<in> set ?kvs. name_ok k \<and> CHR ''$'' \<notin> set v"
    using assms(2) set_eq dec_of_int_no_dollar by (auto simp: vars_ok_def name_ok_def)
  from fold_replace_template [OF assms(1) this] show ?thesis
    unfolding substitute_vars_fold env .
qed

section \<open>Properties\<close>

text \<open>C25 (substitution_simultaneous). On a template (placeholders between literal text without a
  dollar sign), with values that contain no dollar sign, \<open>substituteVars\<close> replaces every
  placeholder of a known variable by its value, all at once, and leaves unknown ones: the
  built-in variables take precedence over custom ones, and the order in which Go visits the
  map of custom variables makes no difference.\<close>

theorem substitution_simultaneous:
  assumes "\<forall>t \<in> set ts. token_ok t" and "vars_ok vars" and "\<And>s. range_order (rng s)"
  shows "substitute_vars rng (template_string ts) vars = concat (map (token_value (script_env vars)) ts)"
  using assms by (rule substitute_template)

definition sample_vars :: ipxe_vars where
  "sample_vars = \<lparr>iv_server_ip = ''10.0.0.1'', iv_http_port = 8080, iv_mac = ''aa:bb'',
     iv_custom = Some [(''host'', ''pc1''), (''disk'', ''sda'')]\<rparr>"

theorem substitution_simultaneous_witness:
  "substitute_vars (\<lambda>_. rev) (template_string [Lit ''root='', Var ''disk'', Lit '' ip='', Var ''server_ip'']) sample_vars =
     ''root=sda ip=10.0.0.1''"
proof -
  have "vars_ok sample_vars"
    by (simp add: vars_ok_def sample_vars_def go_map_def map_wf_def name_ok_def)
  from substitution_simultaneous [of "[Lit ''root='', Var ''disk'', Lit '' ip='', Var ''server_ip'']",
      OF _ this, of "\<lambda>_. rev"]
  show ?thesis by (simp add: range_order_def script_env_def sample_vars_def go_map_def name_ok_def)
qed

text \<open>C5 (menu_script_closed). Unless there is a single entry that is not an exit entry, the
  generated script is a menu: it offers exactly the given entries, in order, defines a label
  for each of them next to \<open>start\<close> and \<open>failed\<close>, and every jump in it and every choice
  leads to a label it defines.\<close>

theorem menu_script_closed:
  assumes "\<not> direct_boot entries"
  shows "generate rng entries mc vars = print_program (generate_program rng entries mc vars) \<and>
    choices (generate_program rng entries mc vars) = map me_name entries \<and>
    labels (generate_program rng entries mc vars) = ''start'' # map me_name entries @ [''failed''] \<and>
    jumps_defined (generate_program rng entries mc vars)"
  using assms generate_eq_program
  by (auto simp: generate_program_def jumps_defined_def menu_program_parts)

definition sample_entry :: "string \<Rightarrow> menu_type \<Rightarrow> string \<Rightarrow> menu_entry" where
  "sample_entry name t chain = \<lparr>me_name = name, me_label = ''Label'', me_description = [], me_type = t,
     me_http = empty_menu_http, me_boot = empty_boot_params\<lparr>bp_chain := chain\<rparr>, me_source = []\<rparr>"

definition sample_config :: menu_config where
  "sample_config = \<lparr>mc_entries = [''disk''], mc_default = ''disk'', mc_timeout = 30\<rparr>"

theorem menu_script_closed_witness:
  "jumps_defined (generate_program (\<lambda>_ m. m) [sample_entry ''disk'' MenuExit []] sample_config sample_vars)"
proof -
  have "\<not> direct_boot [sample_entry ''disk'' MenuExit []]"
    by (simp add: direct_boot_def sample_entry_def)
  from menu_script_closed [OF this] show ?thesis by blast
qed

text \<open>For a single entry that is not an exit entry the script boots it
  directly. Such a script defines no label and offers no choice; it makes a jump exactly
  where the entry is chained without wimboot, to the label \<open>failed\<close>, which then does not
  exist.\<close>

lemma direct_script_jumps:
  assumes "direct_boot entries"
  shows "generate rng entries mc vars = print_program (generate_program rng entries mc vars) \<and>
    labels (generate_program rng entries mc vars) = [] \<and>
    choices (generate_program rng entries mc vars) = [] \<and>
    (jumps_defined (generate_program rng entries mc vars) \<longleftrightarrow>
       bp_loader (me_boot (entries ! 0)) = ''wimboot'' \<or> bp_chain (me_boot (entries ! 0)) = [])"
  using assms generate_eq_program
  by (auto simp: generate_program_def jumps_defined_def)

lemma direct_script_jumps_example:
  "\<not> jumps_defined (generate_program (\<lambda>_ m. m) [sample_entry ''xyz'' MenuChain ''https://boot.netboot.xyz'']
      sample_config sample_vars)"
proof -
  have "direct_boot [sample_entry ''xyz'' MenuChain ''https://boot.netboot.xyz'']"
    by (simp add: direct_boot_def sample_entry_def)
  from direct_script_jumps [OF this] show ?thesis
    by (simp add: sample_entry_def empty_boot_params_def)
qed

text \<open>
  A boot override to an exit entry prints a bare \<open>boot\<close> with nothing loaded, where the menu
  prints \<open>exit 0\<close> for the same entry.
\<close>

lemma override_of_exit_entry:
  "generate_override rng (sample_entry ''disk'' MenuExit []) vars =
     print_program [Shebang, Blank, Remark ''One-time boot override'', Boot]"
  by (simp add: generate_override_def write_boot_entry_def Let_def sample_entry_def
      empty_boot_params_def)

end
