(* ===== verification/BootHandler.thy ===== *)
theory BootHandler
  imports Registry Ipxe
begin

text \<open>
  The HTTP handler of the boot menu, \<open>MenuScriptHandler.ServeHTTP\<close> of
  \<open>internal/service/httpboot/menuscript.go\<close>: the state it reaches (the registry with its
  pending overrides, the menu resolver and the handler's base variables), a request being
  the path value \<open>{mac}\<close>, and the response. Logging is left out.

  A struct assignment copies \<open>h.vars\<close> but not the map in its field \<open>Custom\<close>: where the
  base variables have a map, the client's variables are written into it, and the model
  returns the handler with the map so changed.
\<close>

section \<open>The handler\<close>

record handler =
  hd_registry :: registry
  hd_menus :: menu_resolver
  hd_vars :: ipxe_vars

record http_response =
  hr_status :: nat
  hr_body :: string

definition http_error :: "string \<Rightarrow> nat \<Rightarrow> http_response" where
  "http_error msg code = \<lparr>hr_status = code, hr_body = msg @ nl\<rparr>"

definition serve_script :: "string \<Rightarrow> http_response" where
  "serve_script script = \<lparr>hr_status = 200, hr_body = script\<rparr>"

definition put_all :: "(string, string) gomap \<Rightarrow> (string, string) gomap \<Rightarrow> (string, string) gomap" where
  "put_all kvs m = fold (\<lambda>(k, v). AList.update k v) kvs m"

text \<open>The variables of one request, and the handler after they were put together.\<close>

definition request_vars :: "handler \<Rightarrow> hwaddr \<Rightarrow> client \<Rightarrow> handler \<times> ipxe_vars" where
  "request_vars h mac client =
     (let vars = (hd_vars h)\<lparr>iv_mac := mac_string mac\<rparr> in
      case cl_vars client of
        None \<Rightarrow> (h, vars)
      | Some kvs \<Rightarrow>
          (case iv_custom vars of
             None \<Rightarrow> (h, vars\<lparr>iv_custom := Some (put_all kvs [])\<rparr>)
           | Some shared \<Rightarrow>
               (h\<lparr>hd_vars := (hd_vars h)\<lparr>iv_custom := Some (put_all kvs shared)\<rparr>\<rparr>,
                vars\<lparr>iv_custom := Some (put_all kvs shared)\<rparr>)))"

definition serve_menu :: "var_order \<Rightarrow> handler \<Rightarrow> client \<Rightarrow> ipxe_vars \<Rightarrow> http_response" where
  "serve_menu rng h client vars =
     (case menus_resolve (hd_menus h) (mc_entries (cl_menu client)) of
        Inl _ \<Rightarrow> http_error ''Internal Server Error'' 500
      | Inr entries \<Rightarrow> serve_script (generate rng entries (cl_menu client) vars))"

definition serve_http :: "var_order \<Rightarrow> handler \<Rightarrow> string \<Rightarrow> handler \<times> http_response" where
  "serve_http rng h mac_str =
     (case net_parse_mac mac_str of
        None \<Rightarrow> (h, http_error ''Bad Request: invalid MAC address'' 400)
      | Some bs \<Rightarrow>
          (case find_client (hd_registry h) (Some bs) of
             Inl _ \<Rightarrow> (h, http_error ''Not Found: no configuration for this MAC'' 404)
           | Inr client \<Rightarrow>
               if \<not> cl_enabled client
               then (h, http_error ''Forbidden: client is disabled'' 403)
               else
                 let (h1, vars) = request_vars h (Some bs) client;
                     (reg, override_name) = consume_boot_override (Some bs) (hd_registry h1);
                     h2 = h1\<lparr>hd_registry := reg\<rparr>
                 in if override_name \<noteq> [] then
                      (case menus_find_by_name (hd_menus h2) override_name of
                         Inl _ \<Rightarrow> (h2, serve_menu rng h2 client vars)
                       | Inr entry \<Rightarrow> (h2, serve_script (generate_override rng entry vars)))
                    else (h2, serve_menu rng h2 client vars)))"

definition update_vars :: "ipxe_vars \<Rightarrow> handler \<Rightarrow> handler" where
  "update_vars vars h = h\<lparr>hd_vars := vars\<rparr>"

definition update_components :: "registry \<Rightarrow> menu_resolver \<Rightarrow> handler \<Rightarrow> handler" where
  "update_components r m h = h\<lparr>hd_registry := r, hd_menus := m\<rparr>"

section \<open>What a request leaves as it was\<close>

lemma request_vars_frame [simp]:
  "hd_registry (fst (request_vars h mac c)) = hd_registry h"
  "hd_menus (fst (request_vars h mac c)) = hd_menus h"
  "iv_server_ip (snd (request_vars h mac c)) = iv_server_ip (hd_vars h)"
  "iv_mac (snd (request_vars h mac c)) = mac_string mac"
  by (auto simp: request_vars_def Let_def split: option.splits)

lemma request_vars_fresh:
  "iv_custom (hd_vars h) = None \<Longrightarrow> fst (request_vars h mac c) = h"
  by (auto simp: request_vars_def Let_def split: option.splits)

lemma request_vars_cong:
  "hd_vars h = hd_vars h' \<Longrightarrow> snd (request_vars h mac c) = snd (request_vars h' mac c)"
  by (auto simp: request_vars_def Let_def split: option.splits)

lemma consume_other:
  "mac_string m \<noteq> mac_string m' \<Longrightarrow>
     snd (consume_boot_override m (fst (consume_boot_override m' r))) = snd (consume_boot_override m r)"
  by (simp add: overrides.consume_result overrides.pending_consume)

text \<open>The handler after a request, and the response, without the tuples.\<close>

definition request_client :: "handler \<Rightarrow> string \<Rightarrow> (hwaddr \<times> client) option" where
  "request_client h mac_str =
     (case net_parse_mac mac_str of
        None \<Rightarrow> None
      | Some bs \<Rightarrow>
          (case find_client (hd_registry h) (Some bs) of
             Inl _ \<Rightarrow> None | Inr c \<Rightarrow> if cl_enabled c then Some (Some bs, c) else None))"

definition refusal :: "handler \<Rightarrow> string \<Rightarrow> http_response" where
  "refusal h m =
     (case net_parse_mac m of
        None \<Rightarrow> http_error ''Bad Request: invalid MAC address'' 400
      | Some bs \<Rightarrow>
          (case find_client (hd_registry h) (Some bs) of
             Inl _ \<Rightarrow> http_error ''Not Found: no configuration for this MAC'' 404
           | Inr c \<Rightarrow> http_error ''Forbidden: client is disabled'' 403))"

lemma serve_http_refused: "request_client h m = None \<Longrightarrow> serve_http rng h m = (h, refusal h m)"
  by (simp add: request_client_def serve_http_def refusal_def split: option.splits sum.splits if_splits)

lemma refusal_cong:
  "find_client (hd_registry h') = find_client (hd_registry h) \<Longrightarrow> refusal h' m = refusal h m"
  by (simp add: refusal_def cong: option.case_cong)

lemma request_clientD:
  assumes "request_client h m = Some (mac, c)"
  shows "\<exists>bs. mac = Some bs \<and> net_parse_mac m = Some bs \<and>
    find_client (hd_registry h) (Some bs) = Inr c \<and> cl_enabled c"
  using assms by (simp add: request_client_def split: option.splits sum.splits if_splits)

lemma serve_http_accepted:
  assumes "request_client h m = Some (mac, c)"
  shows "serve_http rng h m =
      ((fst (request_vars h mac c))\<lparr>hd_registry := fst (consume_boot_override mac (hd_registry h))\<rparr>,
       case map_of (mr_menus (hd_menus h)) (snd (consume_boot_override mac (hd_registry h))) of
         Some entry \<Rightarrow>
           if snd (consume_boot_override mac (hd_registry h)) \<noteq> []
           then serve_script (generate_override rng entry (snd (request_vars h mac c)))
           else serve_menu rng h c (snd (request_vars h mac c))
       | None \<Rightarrow> serve_menu rng h c (snd (request_vars h mac c)))"
proof -
  obtain bs where bs: "mac = Some bs" "net_parse_mac m = Some bs"
    "find_client (hd_registry h) (Some bs) = Inr c" "cl_enabled c"
    using request_clientD [OF assms] by blast
  then show ?thesis
    by (simp add: serve_http_def serve_menu_def Let_def menus_find_by_name_def case_prod_beta
        split: option.split)
qed

lemma serve_http_same:
  assumes "request_client h m = Some (mac, c)" and "request_client h' m = Some (mac, c)"
    and "hd_vars h' = hd_vars h" and "hd_menus h' = hd_menus h"
    and "snd (consume_boot_override mac (hd_registry h')) = snd (consume_boot_override mac (hd_registry h))"
  shows "snd (serve_http rng h' m) = snd (serve_http rng h m)"
proof -
  have "serve_menu rng h' c = serve_menu rng h c"
    by (rule ext) (simp add: serve_menu_def assms(4))
  then show ?thesis
    using request_vars_cong [OF assms(3), of mac c]
    by (simp add: serve_http_accepted [OF assms(1)] serve_http_accepted [OF assms(2)] assms(4,5)
        cong: option.case_cong if_cong)
qed

lemma request_client_cong:
  "hd_registry h' = hd_registry h \<or>
     (\<exists>m e. hd_registry h' = set_boot_override m e (hd_registry h)) \<or>
     (\<exists>m. hd_registry h' = fst (consume_boot_override m (hd_registry h))) \<Longrightarrow>
   request_client h' s = request_client h s"
proof -
  assume "hd_registry h' = hd_registry h \<or>
     (\<exists>m e. hd_registry h' = set_boot_override m e (hd_registry h)) \<or>
     (\<exists>m. hd_registry h' = fst (consume_boot_override m (hd_registry h)))"
  then have "find_client (hd_registry h') = find_client (hd_registry h)" by (auto intro!: ext)
  then show ?thesis by (simp add: request_client_def cong: option.case_cong)
qed

section \<open>Properties\<close>

text \<open>A request for a malformed address, for an address with no
  client, or for a disabled client is answered with 400, 404 and 403 respectively and changes
  nothing: in particular a pending boot override stays pending.\<close>

lemma refused_request_spec:
  assumes "request_client h m = None"
  shows "serve_http rng h m =
    (h, case net_parse_mac m of
          None \<Rightarrow> http_error ''Bad Request: invalid MAC address'' 400
        | Some bs \<Rightarrow>
            (case find_client (hd_registry h) (Some bs) of
               Inl _ \<Rightarrow> http_error ''Not Found: no configuration for this MAC'' 404
             | Inr c \<Rightarrow> http_error ''Forbidden: client is disabled'' 403))"
  using serve_http_refused [OF assms] by (simp only: refusal_def)

definition empty_handler :: handler where
  "empty_handler = \<lparr>hd_registry = NewRegistry [], hd_menus = NewMenuResolver [], hd_vars = sample_vars\<rparr>"

lemma refused_request_spec_example:
  "hr_status (snd (serve_http (\<lambda>_ m. m) empty_handler ''nonsense'')) = 400"
proof -
  have bad: "net_parse_mac ''nonsense'' = None" by (simp add: net_parse_mac_def)
  then have "request_client empty_handler ''nonsense'' = None" by (simp add: request_client_def)
  from refused_request_spec [OF this, of "\<lambda>_ m. m"] bad show ?thesis by (simp add: http_error_def)
qed

text \<open>A server with one client, and a request of that client, for the witnesses.\<close>

definition one_client_handler :: handler where
  "one_client_handler =
     \<lparr>hd_registry = NewRegistry [sample_client (Some [1, 2, 3, 4, 5, 6]) ''pc'',
                                sample_client WildcardMAC ''any''],
      hd_menus = NewMenuResolver [sample_entry ''disk'' MenuExit [],
                                  sample_entry ''rescue'' MenuChain ''http://10.0.0.1/rescue''],
      hd_vars = sample_vars\<lparr>iv_custom := None\<rparr>\<rparr>"

lemma request_of_known_client:
  "request_client one_client_handler (bytes_string [1, 2, 3, 4, 5, 6]) =
     Some (Some [1, 2, 3, 4, 5, 6], sample_client (Some [1, 2, 3, 4, 5, 6]) ''pc'')"
  "request_client one_client_handler (bytes_string [1, 2, 3, 4, 5, 7]) =
     Some (Some [1, 2, 3, 4, 5, 7], sample_client WildcardMAC ''any'')"
  by (simp_all add: request_client_def net_parse_mac_bytes_string mac_len_ok_def
      one_client_handler_def NewRegistry_def load_clients_def find_client_def sample_client_def
      client_is_wildcard_iff WildcardMAC_def)

text \<open>C4 (override_served_once). After \<open>SetBootOverride\<close> with the name of an existing entry, the
  next request of that client is answered with the script of this entry alone; the request
  after it is answered as if the override had never been set.\<close>

theorem override_served_once:
  assumes client: "request_client h m = Some (mac, c)"
    and entry: "map_of (mr_menus (hd_menus h)) name = Some entry" "name \<noteq> []"
    and fresh: "iv_custom (hd_vars h) = None"
    and none_pending: "map_of (rg_overrides (hd_registry h)) (mac_string mac) = None"
  defines "h1 \<equiv> h\<lparr>hd_registry := set_boot_override mac name (hd_registry h)\<rparr>"
  shows "snd (serve_http rng h1 m) =
      serve_script (generate_override rng entry (snd (request_vars h mac c))) \<and>
    snd (serve_http rng (fst (serve_http rng h1 m)) m) = snd (serve_http rng h m)"
proof -
  let ?h2 = "fst (serve_http rng h1 m)"
  have c1: "request_client h1 m = Some (mac, c)"
    using client by (subst request_client_cong [of h1 h]) (auto simp: h1_def)
  have vars1: "fst (request_vars h1 mac c) = h1" "snd (request_vars h1 mac c) = snd (request_vars h mac c)"
    using fresh by (simp add: request_vars_fresh h1_def)
      (rule request_vars_cong, simp add: h1_def)
  have got: "snd (consume_boot_override mac (hd_registry h1)) = name"
    by (simp add: h1_def overrides.consume_result overrides.pending_put)
  have first: "snd (serve_http rng h1 m) =
      serve_script (generate_override rng entry (snd (request_vars h mac c)))"
    using entry unfolding serve_http_accepted [OF c1] got vars1 by (simp add: h1_def)
  have h2: "?h2 = h1\<lparr>hd_registry := fst (consume_boot_override mac (hd_registry h1))\<rparr>"
    unfolding serve_http_accepted [OF c1] vars1 by simp
  then have h2': "hd_menus ?h2 = hd_menus h" "hd_vars ?h2 = hd_vars h"
    "hd_registry ?h2 = fst (consume_boot_override mac (hd_registry h1))"
    by (simp_all add: h1_def)
  have c2: "request_client ?h2 m = Some (mac, c)"
    using c1 h2' by (subst request_client_cong [of ?h2 h1]) auto
  have again: "snd (consume_boot_override mac (hd_registry ?h2)) =
      snd (consume_boot_override mac (hd_registry h))"
    using none_pending by (simp add: h2' overrides.consume_result overrides.pending_consume)
  from serve_http_same [OF client c2 h2'(2,1) again]
  have "snd (serve_http rng ?h2 m) = snd (serve_http rng h m)" .
  with first show ?thesis by blast
qed

theorem override_served_once_witness:
  "snd (serve_http (\<lambda>_ m. m) (one_client_handler\<lparr>hd_registry :=
      set_boot_override (Some [1, 2, 3, 4, 5, 6]) ''rescue'' (hd_registry one_client_handler)\<rparr>)
      (bytes_string [1, 2, 3, 4, 5, 6])) =
   serve_script (generate_override (\<lambda>_ m. m) (sample_entry ''rescue'' MenuChain ''http://10.0.0.1/rescue'')
     (snd (request_vars one_client_handler (Some [1, 2, 3, 4, 5, 6])
        (sample_client (Some [1, 2, 3, 4, 5, 6]) ''pc''))))"
proof (rule override_served_once [THEN conjunct1])
  show "request_client one_client_handler (bytes_string [1, 2, 3, 4, 5, 6]) =
     Some (Some [1, 2, 3, 4, 5, 6], sample_client (Some [1, 2, 3, 4, 5, 6]) ''pc'')"
    by (rule request_of_known_client)
  show "map_of (mr_menus (hd_menus one_client_handler)) ''rescue'' =
      Some (sample_entry ''rescue'' MenuChain ''http://10.0.0.1/rescue'')"
    by (simp add: one_client_handler_def NewMenuResolver_def load_menus_def sample_entry_def)
qed (simp_all add: one_client_handler_def NewRegistry_def)

text \<open>C21 (requests_independent). While the handler's base variables have no custom map, which is
  how \<open>cli/serve.go\<close> builds it, a request leaves the base variables as they are and does not
  change the answer to a later request for a different address: neither custom variables nor
  overrides leak from one machine to another.\<close>

theorem requests_independent:
  assumes fresh: "iv_custom (hd_vars h) = None"
    and other: "net_parse_mac m \<noteq> net_parse_mac m'"
  shows "hd_vars (fst (serve_http rng h m')) = hd_vars h \<and>
    snd (serve_http rng (fst (serve_http rng h m')) m) = snd (serve_http rng h m)"
proof (cases "request_client h m'")
  case None
  then show ?thesis by (simp add: serve_http_refused)
next
  case (Some mc)
  then obtain mac' c' where some: "request_client h m' = Some (mac', c')" by (cases mc) simp
  let ?h' = "fst (serve_http rng h m')"
  have h': "?h' = h\<lparr>hd_registry := fst (consume_boot_override mac' (hd_registry h))\<rparr>"
    unfolding serve_http_accepted [OF some] using fresh by (simp add: request_vars_fresh)
  then have parts: "hd_vars ?h' = hd_vars h" "hd_menus ?h' = hd_menus h"
    "hd_registry ?h' = fst (consume_boot_override mac' (hd_registry h))"
    by simp_all
  have same: "request_client ?h' m = request_client h m"
    using parts by (intro request_client_cong) blast
  have "snd (serve_http rng ?h' m) = snd (serve_http rng h m)"
  proof (cases "request_client h m")
    case None
    with same have "request_client ?h' m = None" by simp
    moreover have "find_client (hd_registry ?h') = find_client (hd_registry h)"
      unfolding parts(3) by (intro ext) simp
    ultimately show ?thesis
      using refusal_cong [of ?h' h m] serve_http_refused [OF None] serve_http_refused [of ?h' m]
      by (simp only: snd_conv)
  next
    case (Some nc)
    then obtain mac c where c: "request_client h m = Some (mac, c)" by (cases nc) simp
    obtain bs bs' where "mac = Some bs" "net_parse_mac m = Some bs" "mac' = Some bs'"
      "net_parse_mac m' = Some bs'"
      using request_clientD [OF c] request_clientD [OF some] by blast
    with other have "mac_string mac \<noteq> mac_string mac'" by auto
    then have "snd (consume_boot_override mac (hd_registry ?h')) =
        snd (consume_boot_override mac (hd_registry h))"
      unfolding parts(3) by (rule consume_other)
    moreover from c same have c2: "request_client ?h' m = Some (mac, c)" by simp
    ultimately show ?thesis
      using serve_http_same [OF c _ parts(1,2)] by blast
  qed
  with parts(1) show ?thesis by blast
qed

theorem requests_independent_witness:
  "snd (serve_http (\<lambda>_ m. m) (fst (serve_http (\<lambda>_ m. m) one_client_handler (bytes_string [1, 2, 3, 4, 5, 7])))
      (bytes_string [1, 2, 3, 4, 5, 6])) =
   snd (serve_http (\<lambda>_ m. m) one_client_handler (bytes_string [1, 2, 3, 4, 5, 6]))"
  by (rule requests_independent [THEN conjunct2])
     (simp_all add: one_client_handler_def net_parse_mac_bytes_string mac_len_ok_def)

end
