(* ===== verification/Duration.thy ===== *)
theory Duration
  imports Prelude
begin

text \<open>
  \<open>time.Duration\<close> of the standard library, a number of nanoseconds in 64 bits: its method
  \<open>String\<close>, with which the writer prints the timeouts of the configuration, and
  \<open>time.ParseDuration\<close>, with which the parser reads them. Numbers are natural numbers; the
  bounds the library checks are written out, and so is the one addition that can wrap
  around. The fractional part is computed exactly here and in double precision by the
  library; the two agree on fractions with no more digits than the unit has decimal places,
  such as the printed ones. The main fact: what is printed is read back.
\<close>

section \<open>Printing\<close>

text \<open>The buffer is filled from its end; the argument \<open>acc\<close> is what it holds.\<close>

fun fmt_frac :: "nat \<Rightarrow> nat \<Rightarrow> bool \<Rightarrow> string \<Rightarrow> string \<times> nat" where
  "fmt_frac 0 v print acc = (if print then CHR ''.'' # acc else acc, v)"
| "fmt_frac (Suc prec) v print acc =
     (let digit = v mod 10; print' = print \<or> digit \<noteq> 0
      in fmt_frac prec (v div 10) print' (if print' then dec_digit digit # acc else acc))"

definition fmt_int :: "nat \<Rightarrow> string \<Rightarrow> string" where
  "fmt_int v acc = dec_of_nat v @ acc"

definition micro :: string where
  "micro = [CHR 0xC2, CHR 0xB5]"

definition magnitude_string :: "nat \<Rightarrow> string" where
  "magnitude_string u =
     (if u < 10 ^ 9 then
        if u = 0 then ''0s''
        else let (prec, unit) =
                   (if u < 10 ^ 3 then (0, ''ns'')
                    else if u < 10 ^ 6 then (3, micro @ ''s'')
                    else (6, ''ms''));
                 (acc, v) = fmt_frac prec u False unit
             in fmt_int v acc
      else
        let (acc, secs) = fmt_frac 9 u False ''s'';
            acc1 = fmt_int (secs mod 60) acc;
            mins = secs div 60
        in if mins > 0 then
             let acc2 = fmt_int (mins mod 60) (CHR ''m'' # acc1);
                 hours = mins div 60
             in if hours > 0 then fmt_int hours (CHR ''h'' # acc2) else acc2
           else acc1)"

definition duration_string :: "int \<Rightarrow> string" where
  "duration_string d =
     (if d < 0 then CHR ''-'' # magnitude_string (nat (- d)) else magnitude_string (nat d))"

section \<open>Parsing\<close>

definition is_digit :: "char \<Rightarrow> bool" where
  "is_digit c \<longleftrightarrow> c \<in> set dec_digits"

text \<open>\<open>strconv.Atoi\<close>.\<close>

definition go_atoi :: "string \<Rightarrow> int option" where
  "go_atoi s =
     (let neg = has_prefix s ''-'';
          ds = (if neg \<or> has_prefix s ''+'' then drop 1 s else s) in
      if ds = [] \<or> \<not> list_all is_digit ds then None
      else
        let n = int (dec_val ds); v = (if neg then - n else n) in
        if - 9223372036854775808 \<le> v \<and> v < 9223372036854775808 then Some v else None)"

definition digit_val :: "char \<Rightarrow> nat" where
  "digit_val c = of_char c - 48"

fun leading_int :: "nat \<Rightarrow> string \<Rightarrow> (nat \<times> string) option" where
  "leading_int x [] = Some (x, [])"
| "leading_int x (c # s) =
     (if \<not> is_digit c then Some (x, c # s)
      else if x > 2 ^ 63 div 10 then None
      else let y = x * 10 + digit_val c
           in if y > 2 ^ 63 then None else leading_int y s)"

fun leading_fraction :: "bool \<Rightarrow> nat \<Rightarrow> nat \<Rightarrow> string \<Rightarrow> nat \<times> nat \<times> string" where
  "leading_fraction overflow x scale [] = (x, scale, [])"
| "leading_fraction overflow x scale (c # s) =
     (if \<not> is_digit c then (x, scale, c # s)
      else if overflow then leading_fraction True x scale s
      else if x > (2 ^ 63 - 1) div 10 then leading_fraction True x scale s
      else let y = x * 10 + digit_val c
           in if y > 2 ^ 63 then leading_fraction True x scale s
              else leading_fraction False y (scale * 10) s)"

definition unit_map :: "(string, nat) gomap" where
  "unit_map = [(''ns'', 1), (''us'', 10 ^ 3), (micro @ ''s'', 10 ^ 3),
     ([CHR 0xCE, CHR 0xBC] @ ''s'', 10 ^ 3), (''ms'', 10 ^ 6), (''s'', 10 ^ 9),
     (''m'', 60 * 10 ^ 9), (''h'', 3600 * 10 ^ 9)]"

datatype duration_error =
  DurationInvalid string
| DurationMissingUnit string
| DurationUnknownUnit string string

definition unit_char :: "char \<Rightarrow> bool" where
  "unit_char c \<longleftrightarrow> c \<noteq> CHR ''.'' \<and> \<not> is_digit c"

text \<open>One number with its unit; the result is its value and what follows.\<close>

definition parse_term :: "string \<Rightarrow> string \<Rightarrow> duration_error + nat \<times> string" where
  "parse_term orig s =
     (if unit_char (hd s) then Inl (DurationInvalid orig)
      else case leading_int 0 s of
        None \<Rightarrow> Inl (DurationInvalid orig)
      | Some (v, s1) \<Rightarrow>
          let pre = length s1 \<noteq> length s;
              (f, scale, s2, post) =
                (if s1 \<noteq> [] \<and> hd s1 = CHR ''.'' then
                   let (f, scale, r) = leading_fraction False 0 1 (tl s1)
                   in (f, scale, r, length r \<noteq> length (tl s1))
                 else (0, 1, s1, False));
              u = takeWhile unit_char s2;
              s3 = dropWhile unit_char s2
          in if \<not> pre \<and> \<not> post then Inl (DurationInvalid orig)
             else if u = [] then Inl (DurationMissingUnit orig)
             else case map_of unit_map u of
               None \<Rightarrow> Inl (DurationUnknownUnit u orig)
             | Some unit \<Rightarrow>
                 if v > 2 ^ 63 div unit then Inl (DurationInvalid orig)
                 else let w = v * unit + (if f > 0 then f * unit div scale else 0)
                      in if w > 2 ^ 63 then Inl (DurationInvalid orig) else Inr (w, s3))"

lemma leading_int_shorter: "leading_int x s = Some (v, r) \<Longrightarrow> length r \<le> length s"
  by (induction x s rule: leading_int.induct) (auto simp: Let_def split: if_splits)

lemma leading_fraction_shorter:
  "leading_fraction b x k s = (v, sc, r) \<Longrightarrow> length r \<le> length s"
  by (induction b x k s rule: leading_fraction.induct) (auto simp: Let_def split: if_splits)

lemma drop_unit_shorter: "takeWhile P s \<noteq> [] \<Longrightarrow> length (dropWhile P s) < length s"
  by (cases s) (auto simp: length_dropWhile_le le_imp_less_Suc split: if_splits)

lemma parse_term_shorter:
  assumes "parse_term orig s = Inr (w, r)"
  shows "length r < length s"
proof -
  obtain v s1 where li: "leading_int 0 s = Some (v, s1)"
    using assms by (auto simp: parse_term_def split: if_splits option.splits)
  note l1 = leading_int_shorter [OF li]
  obtain f scale s2 where lf: "leading_fraction False 0 1 (tl s1) = (f, scale, s2)"
    by (cases "leading_fraction False 0 1 (tl s1)") auto
  note l2 = leading_fraction_shorter [OF lf]
  show ?thesis
    using assms li lf l1 l2 drop_unit_shorter [of unit_char s1] drop_unit_shorter [of unit_char s2]
    by (cases "s1 \<noteq> [] \<and> hd s1 = CHR ''.''")
       (auto simp: parse_term_def Let_def split: if_splits option.splits)
qed

function parse_terms :: "string \<Rightarrow> nat \<Rightarrow> string \<Rightarrow> duration_error + nat" where
  "parse_terms orig d s =
     (if s = [] then Inr d
      else case parse_term orig s of
        Inl err \<Rightarrow> Inl err
      | Inr (v, r) \<Rightarrow>
          let d' = (d + v) mod 2 ^ 64
          in if d' > 2 ^ 63 then Inl (DurationInvalid orig) else parse_terms orig d' r)"
  by pat_completeness auto
termination
  by (relation "measure (\<lambda>(orig, d, s). length s)") (auto dest: parse_term_shorter)

declare parse_terms.simps [simp del]

definition ParseDuration :: "string \<Rightarrow> duration_error + int" where
  "ParseDuration orig =
     (let neg = (orig \<noteq> [] \<and> hd orig = CHR ''-'');
          s = (if orig \<noteq> [] \<and> (hd orig = CHR ''-'' \<or> hd orig = CHR ''+'') then tl orig else orig)
      in if s = ''0'' then Inr 0
         else if s = [] then Inl (DurationInvalid orig)
         else case parse_terms orig 0 s of
           Inl err \<Rightarrow> Inl err
         | Inr d \<Rightarrow>
             if neg then Inr (- int d)
             else if d > 2 ^ 63 - 1 then Inl (DurationInvalid orig)
             else Inr (int d))"

section \<open>Digits\<close>

lemma is_digit_dec [simp]: "n < 10 \<Longrightarrow> is_digit (dec_digit n)"
  by (simp add: is_digit_def)

lemma not_digit [simp]:
  "\<not> is_digit (CHR ''.'')" "\<not> is_digit (CHR ''s'')" "\<not> is_digit (CHR ''n'')" "\<not> is_digit (CHR ''m'')"
  "\<not> is_digit (CHR ''h'')" "\<not> is_digit (CHR 0xC2)" "\<not> is_digit (CHR 0xB5)" "\<not> is_digit (CHR ''-'')" "\<not> is_digit (CHR ''+'')"
  by (simp_all add: is_digit_def dec_digits_def)

definition starts_plain :: "string \<Rightarrow> bool" where
  "starts_plain s \<longleftrightarrow> (case s of [] \<Rightarrow> True | c # _ \<Rightarrow> \<not> is_digit c)"

lemma dec_val_Cons: "dec_val (c # cs) = digit_val c * 10 ^ length cs + dec_val cs"
  by (simp add: digit_val_def)

lemma leading_int_digits:
  assumes "\<forall>c \<in> set cs. is_digit c" and "starts_plain r" and "x * 10 ^ length cs + dec_val cs \<le> 2 ^ 63"
  shows "leading_int x (cs @ r) = Some (x * 10 ^ length cs + dec_val cs, r)"
  using assms
proof (induction cs arbitrary: x)
  case Nil
  then show ?case by (cases r) (auto simp: starts_plain_def)
next
  case (Cons c cs)
  let ?y = "x * 10 + digit_val c"
  have eq: "x * 10 ^ length (c # cs) + dec_val (c # cs) = ?y * 10 ^ length cs + dec_val cs"
    by (simp add: digit_val_def algebra_simps)
  have "?y \<le> ?y * 10 ^ length cs + dec_val cs" by (simp add: trans_le_add1)
  also have "\<dots> \<le> 2 ^ 63" using Cons.prems(3) unfolding eq .
  finally have y: "?y \<le> 2 ^ 63" .
  then have "x \<le> 2 ^ 63 div 10" by simp
  with y Cons.IH [of ?y] Cons.prems show ?case
    unfolding eq by (simp add: Let_def)
qed

lemma leading_fraction_digits:
  assumes "\<forall>c \<in> set cs. is_digit c" and "starts_plain r" and "x * 10 ^ length cs + dec_val cs < 10 ^ 9"
  shows "leading_fraction False x k (cs @ r) = (x * 10 ^ length cs + dec_val cs, k * 10 ^ length cs, r)"
  using assms
proof (induction cs arbitrary: x k)
  case Nil
  then show ?case by (cases r) (auto simp: starts_plain_def)
next
  case (Cons c cs)
  let ?y = "x * 10 + digit_val c"
  have eq: "x * 10 ^ length (c # cs) + dec_val (c # cs) = ?y * 10 ^ length cs + dec_val cs"
    by (simp add: digit_val_def algebra_simps)
  have "?y \<le> ?y * 10 ^ length cs + dec_val cs" by (simp add: trans_le_add1)
  also have "\<dots> < 10 ^ 9" using Cons.prems(3) unfolding eq .
  finally have y: "?y < 10 ^ 9" .
  then have "x \<le> (2 ^ 63 - 1) div 10" "?y \<le> 2 ^ 63" by simp_all
  with Cons.IH [of ?y "k * 10"] Cons.prems show ?case
    unfolding eq by (simp add: Let_def mult.assoc)
qed

lemma dec_of_nat_is_digit: "c \<in> set (dec_of_nat n) \<Longrightarrow> is_digit c"
  using dec_of_nat_digits by (auto simp: is_digit_def)

lemma leading_int_dec:
  "n \<le> 2 ^ 63 \<Longrightarrow> starts_plain r \<Longrightarrow> leading_int 0 (dec_of_nat n @ r) = Some (n, r)"
  using leading_int_digits [of "dec_of_nat n" r 0] by (simp add: dec_of_nat_is_digit)

section \<open>The printed fraction\<close>

lemma fmt_frac_True:
  "\<exists>cs. fmt_frac p v True acc = (CHR ''.'' # cs @ acc, v div 10 ^ p) \<and> length cs = p \<and>
     (\<forall>c \<in> set cs. is_digit c) \<and> dec_val cs = v mod 10 ^ p"
proof (induction p arbitrary: v acc)
  case 0
  then show ?case by simp
next
  case (Suc p)
  from Suc.IH [of "v div 10" "dec_digit (v mod 10) # acc"] obtain cs where
    cs: "fmt_frac p (v div 10) True (dec_digit (v mod 10) # acc) =
      (CHR ''.'' # cs @ dec_digit (v mod 10) # acc, v div 10 div 10 ^ p)"
      "length cs = p" "\<forall>c \<in> set cs. is_digit c" "dec_val cs = v div 10 mod 10 ^ p"
    by blast
  have "dec_val (cs @ [dec_digit (v mod 10)]) = v mod 10 ^ Suc p"
    by (simp add: dec_val_snoc cs(4) mod_mult2_eq)
  with cs show ?case
    by (intro exI [of _ "cs @ [dec_digit (v mod 10)]"]) (simp add: div_mult2_eq)
qed

definition fraction_of :: "nat \<Rightarrow> nat \<Rightarrow> string \<Rightarrow> bool" where
  "fraction_of p r fs \<longleftrightarrow>
     (if r = 0 then fs = []
      else \<exists>cs. fs = CHR ''.'' # cs \<and> cs \<noteq> [] \<and> length cs \<le> p \<and> (\<forall>c \<in> set cs. is_digit c) \<and>
             dec_val cs * 10 ^ (p - length cs) = r)"

lemma fmt_frac_False:
  "\<exists>fs. fmt_frac p v False acc = (fs @ acc, v div 10 ^ p) \<and> fraction_of p (v mod 10 ^ p) fs"
proof (induction p arbitrary: v acc)
  case 0
  then show ?case by (simp add: fraction_of_def)
next
  case (Suc p)
  show ?case
  proof (cases "v mod 10 = 0")
    case True
    from Suc.IH [of "v div 10" acc] obtain fs where
      fs: "fmt_frac p (v div 10) False acc = (fs @ acc, v div 10 div 10 ^ p)"
        "fraction_of p (v div 10 mod 10 ^ p) fs"
      by blast
    have "v mod 10 ^ Suc p = 10 * (v div 10 mod 10 ^ p)"
      using True by (simp add: mod_mult2_eq)
    with fs True show ?thesis
      by (intro exI [of _ fs]) (auto simp: fraction_of_def div_mult2_eq Suc_diff_le)
  next
    case False
    from fmt_frac_True [of p "v div 10" "dec_digit (v mod 10) # acc"] obtain cs where
      cs: "fmt_frac p (v div 10) True (dec_digit (v mod 10) # acc) =
        (CHR ''.'' # cs @ dec_digit (v mod 10) # acc, v div 10 div 10 ^ p)"
        "length cs = p" "\<forall>c \<in> set cs. is_digit c" "dec_val cs = v div 10 mod 10 ^ p"
      by blast
    have val: "dec_val (cs @ [dec_digit (v mod 10)]) = v mod 10 ^ Suc p"
      by (simp add: dec_val_snoc cs(4) mod_mult2_eq)
    have "v mod 10 ^ Suc p \<noteq> 0" using False by (simp add: mod_mult2_eq)
    with cs False val show ?thesis
      by (intro exI [of _ "CHR ''.'' # cs @ [dec_digit (v mod 10)]"])
         (auto simp: fraction_of_def div_mult2_eq)
  qed
qed

section \<open>Reading back\<close>

definition is_unit :: "nat \<Rightarrow> nat \<Rightarrow> string \<Rightarrow> bool" where
  "is_unit p unit u \<longleftrightarrow> u \<noteq> [] \<and> (\<forall>c \<in> set u. unit_char c) \<and> map_of unit_map u = Some unit \<and>
     (unit = 10 ^ p \<or> p = 0) \<and> p \<le> 9"

lemma is_unit_simps [simp]:
  "is_unit 0 (Suc 0) ''ns''" "is_unit 3 (10 ^ 3) (micro @ ''s'')" "is_unit 6 (10 ^ 6) ''ms''"
  "is_unit 9 (10 ^ 9) ''s''" "is_unit 0 (60 * 10 ^ 9) ''m''" "is_unit 0 (3600 * 10 ^ 9) ''h''"
  by (simp_all add: is_unit_def unit_map_def unit_char_def micro_def)

text \<open>A number, a fraction of \<open>p\<close> digits at most and a unit.\<close>

lemma parse_term_printed:
  assumes u: "is_unit p unit u" and fs: "fraction_of p f fs" and f: "f < 10 ^ p"
    and rest: "r = [] \<or> \<not> unit_char (hd r)"
    and bound: "n * unit + f \<le> 2 ^ 63" and pos: "0 < unit"
  shows "parse_term orig (dec_of_nat n @ fs @ u @ r) = Inr (n * unit + f, r)"
proof -
  let ?s = "dec_of_nat n @ fs @ u @ r"
  have n: "n * unit \<le> 2 ^ 63" using bound by simp
  then have n_div: "n \<le> 2 ^ 63 div unit" using pos by (simp add: less_eq_div_iff_mult_less_eq)
  have "n \<le> n * unit" using pos by simp
  then have n_le: "n \<le> 2 ^ 63" using n by (rule order_trans)
  have u_ne: "u \<noteq> []" and u_chars: "\<forall>c \<in> set u. unit_char c" and u_map: "map_of unit_map u = Some unit"
    using u by (auto simp: is_unit_def)
  have hd_u: "unit_char (hd (u @ r))" using u_ne u_chars by (cases u) auto
  have take_u: "takeWhile unit_char (u @ r) = u" and drop_u: "dropWhile unit_char (u @ r) = r"
    using u_chars rest by (cases r; auto simp: takeWhile_append2 dropWhile_append2)+
  have plain: "starts_plain (u @ r)"
    using hd_u u_ne by (cases u) (auto simp: starts_plain_def unit_char_def)
  have hd_s: "\<not> unit_char (hd ?s)"
    using dec_of_nat_is_digit [of "hd (dec_of_nat n)" n] by (simp add: unit_char_def)
  show ?thesis
  proof (cases "f = 0")
    case True
    then have [simp]: "fs = []" using fs by (simp add: fraction_of_def)
    have "leading_int 0 ?s = Some (n, u @ r)"
      using leading_int_dec [OF n_le plain] by simp
    with True hd_s hd_u u_ne u_map n_div bound show ?thesis
      unfolding parse_term_def Let_def by (simp add: take_u drop_u unit_char_def)
  next
    case False
    then obtain cs where cs: "fs = CHR ''.'' # cs" "cs \<noteq> []" "length cs \<le> p"
      "\<forall>c \<in> set cs. is_digit c" "dec_val cs * 10 ^ (p - length cs) = f"
      using fs by (auto simp: fraction_of_def)
    have "p \<noteq> 0" using cs(2,3) by (cases cs) auto
    then have unit: "unit = 10 ^ p" and p9: "p \<le> 9" using u by (auto simp: is_unit_def)
    have "dec_val cs \<le> f" unfolding cs(5) [symmetric] by simp
    also note f
    also have "(10::nat) ^ p \<le> 10 ^ 9" using p9 by (rule power_increasing) simp
    finally have val: "dec_val cs < 10 ^ 9" .
    have "leading_int 0 ?s = Some (n, CHR ''.'' # cs @ u @ r)"
      using leading_int_dec [OF n_le, of "CHR ''.'' # cs @ u @ r"] cs(1) by (simp add: starts_plain_def)
    moreover have "leading_fraction False 0 1 (cs @ u @ r) = (dec_val cs, 10 ^ length cs, u @ r)"
      using leading_fraction_digits [OF cs(4) plain, of 0 1] val by simp
    moreover have "dec_val cs * unit div 10 ^ length cs = f"
    proof -
      have "(10::nat) ^ p = 10 ^ (p - length cs) * 10 ^ length cs"
        using cs(3) by (simp flip: power_add)
      then have "dec_val cs * unit = f * 10 ^ length cs"
        unfolding unit cs(5) [symmetric] by simp
      then show ?thesis by simp
    qed
    moreover have "0 < dec_val cs" using False cs(5) by (cases "dec_val cs") auto
    ultimately show ?thesis
      using hd_s u_ne u_map n_div bound cs(1,2)
      unfolding parse_term_def Let_def by (simp add: take_u drop_u)
  qed
qed

lemma parse_terms_Nil [simp]: "parse_terms orig d [] = Inr d"
  by (simp add: parse_terms.simps)

lemma parse_terms_printed:
  assumes "is_unit p unit u" and "fraction_of p f fs" and "f < 10 ^ p"
    and "r = [] \<or> \<not> unit_char (hd r)"
    and "d + n * unit + f \<le> 2 ^ 63" and "0 < unit"
  shows "parse_terms orig d (dec_of_nat n @ fs @ u @ r) = parse_terms orig (d + n * unit + f) r"
proof -
  have "parse_term orig (dec_of_nat n @ fs @ u @ r) = Inr (n * unit + f, r)"
    using assms by (intro parse_term_printed) auto
  moreover have "(d + (n * unit + f)) mod 2 ^ 64 = d + n * unit + f" using assms(5) by simp
  ultimately show ?thesis
    using assms(5) by (subst parse_terms.simps) (simp add: Let_def add.assoc)
qed

lemma hd_dec_not_unit [simp]: "\<not> unit_char (hd (dec_of_nat n))"
  using dec_of_nat_is_digit [of "hd (dec_of_nat n)" n] by (simp add: unit_char_def)

lemma fraction_of_0 [simp]: "fraction_of p 0 []"
  by (simp add: fraction_of_def)

lemma parse_small:
  assumes "is_unit p (10 ^ p) u" and "x \<le> 2 ^ 63" and "fraction_of p (x mod 10 ^ p) fs"
  shows "parse_terms orig 0 (dec_of_nat (x div 10 ^ p) @ fs @ u) = Inr x"
proof -
  have "0 + x div 10 ^ p * 10 ^ p + x mod 10 ^ p = x" using div_mult_mod_eq by simp
  with parse_terms_printed [OF assms(1,3), of "[]" 0 "x div 10 ^ p" orig] assms(2) show ?thesis
    by (simp del: div_mult_mod_eq)
qed

text \<open>Hours, minutes and seconds.\<close>

lemma parse_minutes:
  assumes "r = dec_of_nat k @ t" and "d + m * (60 * 10 ^ 9) \<le> 2 ^ 63"
  shows "parse_terms orig d (dec_of_nat m @ CHR ''m'' # r) = parse_terms orig (d + m * (60 * 10 ^ 9)) r"
  using parse_terms_printed [OF is_unit_simps(5), of 0 "[]" r d m orig] assms by simp

lemma parse_hours:
  assumes "r = dec_of_nat k @ t" and "d + h * (3600 * 10 ^ 9) \<le> 2 ^ 63"
  shows "parse_terms orig d (dec_of_nat h @ CHR ''h'' # r) = parse_terms orig (d + h * (3600 * 10 ^ 9)) r"
  using parse_terms_printed [OF is_unit_simps(6), of 0 "[]" r d h orig] assms by simp

lemma magnitude_small:
  assumes "u < 10 ^ 9"
  shows "parse_terms orig 0 (magnitude_string u) = Inr u"
proof -
  have le: "u \<le> 2 ^ 63" using assms by simp
  consider "u = 0" | "0 < u" "u < 10 ^ 3" | "10 ^ 3 \<le> u" "u < 10 ^ 6" | "10 ^ 6 \<le> u" by linarith
  then show ?thesis
  proof cases
    case 1
    have "dec_of_nat 0 = ''0''" by (subst dec_of_nat.simps) (simp add: dec_digit_def)
    with 1 parse_small [OF is_unit_simps(4), of 0 "[]" orig] show ?thesis
      by (simp add: magnitude_string_def)
  next
    case 2
    with parse_small [of 0 "''ns''" u "[]" orig] le show ?thesis
      by (simp add: magnitude_string_def fmt_int_def)
  next
    case 3
    obtain fs where fs: "fmt_frac 3 u False (micro @ ''s'') = (fs @ micro @ ''s'', u div 10 ^ 3)"
      "fraction_of 3 (u mod 10 ^ 3) fs"
      using fmt_frac_False by blast
    from 3 parse_small [OF is_unit_simps(2) le fs(2), of orig] fs(1) assms show ?thesis
      unfolding magnitude_string_def by (simp add: fmt_int_def)
  next
    case 4
    obtain fs where fs: "fmt_frac 6 u False ''ms'' = (fs @ ''ms'', u div 10 ^ 6)"
      "fraction_of 6 (u mod 10 ^ 6) fs"
      using fmt_frac_False by blast
    from 4 parse_small [OF is_unit_simps(3) le fs(2), of orig] fs(1) assms show ?thesis
      unfolding magnitude_string_def by (simp add: fmt_int_def)
  qed
qed

lemma clock_split:
  fixes secs :: nat
  shows "secs = secs mod 60 + secs div 60 mod 60 * 60 + secs div 60 div 60 * 3600"
proof -
  have "secs = secs mod 60 + secs div 60 * 60" by simp
  moreover have "secs div 60 = secs div 60 mod 60 + secs div 60 div 60 * 60" by simp
  ultimately show ?thesis by linarith
qed

lemma magnitude_large:
  assumes "10 ^ 9 \<le> u" and "u \<le> 2 ^ 63"
  shows "parse_terms orig 0 (magnitude_string u) = Inr u"
proof -
  obtain fs where fs: "fmt_frac 9 u False ''s'' = (fs @ ''s'', u div 10 ^ 9)"
    "fraction_of 9 (u mod 10 ^ 9) fs"
    using fmt_frac_False by blast
  define s where "s = u div 10 ^ 9"
  define sec where "sec = s mod 60"
  define min where "min = s div 60 mod 60"
  define hour where "hour = s div 60 div 60"
  define acc where "acc = dec_of_nat sec @ fs @ ''s''"
  have u: "u = hour * (3600 * 10 ^ 9) + min * (60 * 10 ^ 9) + sec * 10 ^ 9 + u mod 10 ^ 9"
  proof -
    have "u = s * 10 ^ 9 + u mod 10 ^ 9" by (simp add: s_def)
    moreover have "s = sec + min * 60 + hour * 3600"
      unfolding sec_def min_def hour_def by (rule clock_split)
    ultimately show ?thesis by simp
  qed
  have str: "magnitude_string u =
      (if s div 60 > 0 then
         if hour > 0 then dec_of_nat hour @ CHR ''h'' # dec_of_nat min @ CHR ''m'' # acc
         else dec_of_nat min @ CHR ''m'' # acc
       else acc)"
    using assms(1) unfolding magnitude_string_def s_def hour_def min_def sec_def acc_def
    by (simp add: fs(1) fmt_int_def Let_def)
  have seconds: "parse_terms orig (u - (sec * 10 ^ 9 + u mod 10 ^ 9)) acc = Inr u"
  proof -
    have "u - (sec * 10 ^ 9 + u mod 10 ^ 9) + sec * 10 ^ 9 + u mod 10 ^ 9 = u" using u by linarith
    with parse_terms_printed [OF is_unit_simps(4) fs(2), of "[]" _ sec orig] assms(2) show ?thesis
      unfolding acc_def by (metis append_Nil2 mod_less_divisor parse_terms_Nil zero_less_numeral zero_less_power)
  qed
  have minutes: "parse_terms orig (hour * (3600 * 10 ^ 9)) (dec_of_nat min @ CHR ''m'' # acc) = Inr u"
  proof -
    have "hour * (3600 * 10 ^ 9) + min * (60 * 10 ^ 9) = u - (sec * 10 ^ 9 + u mod 10 ^ 9)" using u by linarith
    then show ?thesis
      using seconds assms(2) by (subst parse_minutes [OF acc_def]) simp_all
  qed
  show ?thesis
  proof (cases "s div 60 > 0")
    case False
    then have "hour = 0" "min = 0" by (simp_all add: hour_def min_def)
    with u have "u - (sec * 10 ^ 9 + u mod 10 ^ 9) = 0" by simp
    with False seconds show ?thesis by (simp add: str)
  next
    case True
    show ?thesis
    proof (cases "hour > 0")
      case False
      with True minutes show ?thesis by (simp add: str)
    next
      case hour: True
      have "hour * (3600 * 10 ^ 9) \<le> 2 ^ 63" using u assms(2) by linarith
      with True hour minutes show ?thesis
        by (simp add: str parse_hours [OF refl])
    qed
  qed
qed

lemma magnitude_shape: "\<exists>n t. magnitude_string u = dec_of_nat n @ t \<and> t \<noteq> []"
proof (cases "u = 0")
  case True
  have "''0s'' = dec_of_nat 0 @ ''s''"
    by (subst dec_of_nat.simps) (simp add: dec_digit_def)
  with True show ?thesis unfolding magnitude_string_def by (metis list.distinct(1) zero_less_numeral zero_less_power)
next
  case False
  have frac: "\<exists>t n. fmt_frac p u False (c # acc) = (t, n) \<and> t \<noteq> []" for p c acc
    using fmt_frac_False [of p u "c # acc"] by auto
  show ?thesis
  proof (cases "u < 10 ^ 9")
    case True
    define pu where "pu = (if u < 10 ^ 3 then (0 :: nat, ''ns'') else if u < 10 ^ 6 then (3, micro @ ''s'') else (6, ''ms''))"
    have "\<exists>p c acc. pu = (p, c # acc)" unfolding pu_def micro_def by (simp split: if_splits)
    then obtain p c acc where "pu = (p, c # acc)" by blast
    moreover obtain t n where "fmt_frac p u False (c # acc) = (t, n)" "t \<noteq> []"
      using frac by blast
    ultimately have "magnitude_string u = dec_of_nat n @ t"
      using True \<open>u \<noteq> 0\<close> unfolding magnitude_string_def fmt_int_def pu_def by simp
    with \<open>t \<noteq> []\<close> show ?thesis by blast
  next
    case False
    obtain t n where "fmt_frac 9 u False ''s'' = (t, n)" "t \<noteq> []" using frac by blast
    with False show ?thesis
      unfolding magnitude_string_def fmt_int_def by (simp add: Let_def) blast
  qed
qed

lemma ParseDuration_duration_string:
  assumes "- (2 ^ 63) \<le> d" and "d < 2 ^ 63"
  shows "ParseDuration (duration_string d) = Inr d"
proof -
  obtain n t where nt: "magnitude_string (nat \<bar>d\<bar>) = dec_of_nat n @ t" "t \<noteq> []"
    using magnitude_shape by blast
  let ?m = "magnitude_string (nat \<bar>d\<bar>)"
  have m: "?m \<noteq> []" "?m \<noteq> ''0''" "hd ?m \<noteq> CHR ''-''" "hd ?m \<noteq> CHR ''+''"
    using nt dec_of_nat_is_digit [of "hd (dec_of_nat n)" n]
    by (auto simp: append_eq_Cons_conv)
  have le: "nat \<bar>d\<bar> \<le> 2 ^ 63" using assms by auto
  have run: "parse_terms orig 0 ?m = Inr (nat \<bar>d\<bar>)" for orig
    using magnitude_small magnitude_large [OF _ le] by (cases "nat \<bar>d\<bar> < 10 ^ 9") auto
  show ?thesis
  proof (cases "d < 0")
    case True
    with m run show ?thesis by (simp add: duration_string_def ParseDuration_def)
  next
    case False
    with m run assms show ?thesis
      by (simp add: duration_string_def ParseDuration_def Let_def nat_le_iff)
  qed
qed

text \<open>\<open>Duration.Round\<close>: to the nearest multiple, halves away from zero, without overflow.\<close>

definition duration_round :: "int \<Rightarrow> int \<Rightarrow> int" where
  "duration_round d m =
     (if m \<le> 0 then d
      else if d < 0 then
        let r = (- d) mod m in
        if 2 * r < m then d + r
        else if - 9223372036854775808 \<le> d - m + r then d - m + r else - 9223372036854775808
      else
        let r = d mod m in
        if 2 * r < m then d - r
        else if d + m - r < 9223372036854775808 then d + m - r else 9223372036854775807)"

end
