(* ===== verification/TomlParser.thy ===== *)
theory TomlParser
  imports Domain Duration
begin

text \<open>
  The parser of the configuration files, \<open>internal/infra/toml/parser.go\<close>: the raw structs the
  TOML library fills, and their conversion to the configuration types with its defaults and
  errors. A pointer field is an option, a slice a list, a \<open>map[string]string\<close> an optional
  association list (\<^const>\<open>None\<close> where it is \<open>nil\<close>). \<open>toml.Unmarshal\<close>, from a third-party
  module, is the argument \<open>unmarshal\<close>; reading the file is the argument \<open>read\<close>.
\<close>

section \<open>Raw structs\<close>

record raw_logging =
  rl_level :: string
  rl_format :: string

record raw_server =
  rs_interface :: string
  rs_data_dir :: string
  rs_logging :: raw_logging

record raw_dhcp_proxy =
  rd_enabled :: "bool option"
  rd_port :: int
  rd_proxy_port :: int
  rd_vendor_class :: string

record raw_tftp =
  rt_enabled :: "bool option"
  rt_port :: int
  rt_block_size :: int
  rt_timeout :: string
  rt_retries :: int

record raw_tls =
  rtls_enabled :: bool
  rtls_cert :: string
  rtls_key :: string

record raw_http =
  rh_enabled :: "bool option"
  rh_port :: int
  rh_read_timeout :: string
  rh_tls :: "raw_tls option"

record raw_health =
  rhe_enabled :: "bool option"
  rhe_interval :: string
  rhe_startup_check :: "bool option"

record raw_bootloader =
  rbl_dir :: string
  rbl_uefix64 :: string
  rbl_uefix86 :: string
  rbl_bios :: string
  rbl_arm64 :: string
  rbl_chain_url :: string

record raw_http_section =
  rhs_files :: string
  rhs_path :: string
  rhs_upstream :: string

record raw_boot =
  rb_kernel :: string
  rb_initrd :: string
  rb_cmdline :: string
  rb_loader :: string
  rb_files :: "string list"
  rb_binary :: string
  rb_image :: string
  rb_chain :: string

record raw_menu =
  rm_name :: string
  rm_label :: string
  rm_description :: string
  rm_type :: string
  rm_http :: "raw_http_section option"
  rm_boot :: "raw_boot option"

record raw_bootloader_override =
  rbo_uefix64 :: string
  rbo_uefix86 :: string
  rbo_bios :: string
  rbo_arm64 :: string

record raw_menu_config =
  rmc_entries :: "string list"
  rmc_default :: string
  rmc_timeout :: int

record raw_client =
  rc_mac :: string
  rc_name :: string
  rc_enabled :: "bool option"
  rc_menu :: raw_menu_config
  rc_bootloader :: "raw_bootloader_override option"
  rc_vars :: "(string, string) gomap option"

record raw_file =
  rf_server :: "raw_server option"
  rf_dhcp_proxy :: "raw_dhcp_proxy option"
  rf_tftp :: "raw_tftp option"
  rf_http :: "raw_http option"
  rf_health :: "raw_health option"
  rf_bootloader :: "raw_bootloader option"
  rf_menu :: "raw_menu list"
  rf_client :: "raw_client list"

record file_result =
  fr_filename :: string
  fr_server :: "server_config option"
  fr_dhcp_proxy :: "dhcp_proxy_config option"
  fr_tftp :: "tftp_config option"
  fr_http :: "http_config option"
  fr_health :: "health_config option"
  fr_bootloader :: "bootloader_config option"
  fr_menus :: "menu_entry list"
  fr_clients :: "client list"

section \<open>Conversion\<close>

datatype convert_error =
  DurationError string duration_error
| MenuTypeError string menu_type_error
| MACError string mac_error

definition bool_default :: "bool option \<Rightarrow> bool \<Rightarrow> bool" where
  "bool_default b default_val = (case b of Some v \<Rightarrow> v | None \<Rightarrow> default_val)"

definition convert_server :: "raw_server \<Rightarrow> server_config" where
  "convert_server raw =
     \<lparr>sc_interface = rs_interface raw, sc_data_dir = rs_data_dir raw,
      sc_logging = \<lparr>lc_level = rl_level (rs_logging raw), lc_format = rl_format (rs_logging raw)\<rparr>\<rparr>"

definition convert_dhcp_proxy :: "raw_dhcp_proxy \<Rightarrow> dhcp_proxy_config" where
  "convert_dhcp_proxy raw =
     \<lparr>dp_enabled = bool_default (rd_enabled raw) True, dp_port = rd_port raw,
      dp_proxy_port = rd_proxy_port raw, dp_vendor_class = rd_vendor_class raw\<rparr>"

text \<open>An optional duration: the empty text leaves the zero value.\<close>

definition parse_timeout :: "string \<Rightarrow> string \<Rightarrow> convert_error + int" where
  "parse_timeout field s =
     (if s \<noteq> [] then wrap_error (DurationError field) (ParseDuration s) else Inr 0)"

definition convert_tftp :: "raw_tftp \<Rightarrow> convert_error + tftp_config" where
  "convert_tftp raw =
     sum_bind (parse_timeout ''tftp.timeout'' (rt_timeout raw)) (\<lambda>d.
     Inr \<lparr>tc_enabled = bool_default (rt_enabled raw) True, tc_port = rt_port raw,
          tc_block_size = rt_block_size raw, tc_timeout = d, tc_retries = rt_retries raw\<rparr>)"

definition convert_http :: "raw_http \<Rightarrow> convert_error + http_config" where
  "convert_http raw =
     sum_bind (parse_timeout ''http.read_timeout'' (rh_read_timeout raw)) (\<lambda>d.
     Inr \<lparr>hc_enabled = bool_default (rh_enabled raw) True, hc_port = rh_port raw,
          hc_read_timeout = d,
          hc_tls = (case rh_tls raw of
              None \<Rightarrow> \<lparr>tls_enabled = False, tls_cert = [], tls_key = []\<rparr>
            | Some t \<Rightarrow> \<lparr>tls_enabled = rtls_enabled t, tls_cert = rtls_cert t, tls_key = rtls_key t\<rparr>)\<rparr>)"

definition convert_health :: "raw_health \<Rightarrow> convert_error + health_config" where
  "convert_health raw =
     sum_bind (parse_timeout ''health.interval'' (rhe_interval raw)) (\<lambda>d.
     Inr \<lparr>he_enabled = bool_default (rhe_enabled raw) True, he_interval = d,
          he_startup_check = bool_default (rhe_startup_check raw) True\<rparr>)"

definition convert_bootloader :: "raw_bootloader \<Rightarrow> bootloader_config" where
  "convert_bootloader raw =
     \<lparr>bl_dir = rbl_dir raw, bl_uefix64 = rbl_uefix64 raw, bl_uefix86 = rbl_uefix86 raw,
      bl_bios = rbl_bios raw, bl_arm64 = rbl_arm64 raw, bl_chain_url = rbl_chain_url raw\<rparr>"

text \<open>An entry without a type has the zero value, which is the type \<open>install\<close>.\<close>

definition convert_menu :: "raw_menu \<Rightarrow> string \<Rightarrow> convert_error + menu_entry" where
  "convert_menu raw source_file =
     sum_bind (if rm_type raw \<noteq> [] then wrap_error (MenuTypeError (rm_name raw)) (ParseMenuType (rm_type raw))
               else Inr MenuInstall) (\<lambda>mt.
     Inr \<lparr>me_name = rm_name raw, me_label = rm_label raw, me_description = rm_description raw,
          me_type = mt,
          me_http = (case rm_http raw of
              None \<Rightarrow> empty_menu_http
            | Some h \<Rightarrow> \<lparr>mh_files = rhs_files h, mh_path = rhs_path h, mh_upstream = rhs_upstream h\<rparr>),
          me_boot = (case rm_boot raw of
              None \<Rightarrow> empty_boot_params
            | Some b \<Rightarrow> \<lparr>bp_kernel = rb_kernel b, bp_initrd = rb_initrd b, bp_cmdline = rb_cmdline b,
                bp_loader = rb_loader b, bp_files = rb_files b, bp_binary = rb_binary b,
                bp_image = rb_image b, bp_chain = rb_chain b\<rparr>),
          me_source = source_file\<rparr>)"

definition convert_client :: "raw_client \<Rightarrow> string \<Rightarrow> convert_error + client" where
  "convert_client raw source_file =
     sum_bind (wrap_error (MACError (rc_name raw)) (ParseMAC (rc_mac raw))) (\<lambda>mac.
     Inr \<lparr>cl_mac = mac, cl_name = rc_name raw,
          cl_menu = \<lparr>mc_entries = rmc_entries (rc_menu raw), mc_default = rmc_default (rc_menu raw),
                     mc_timeout = rmc_timeout (rc_menu raw)\<rparr>,
          cl_bootloader = map_option (\<lambda>b. \<lparr>bo_uefix64 = rbo_uefix64 b, bo_uefix86 = rbo_uefix86 b,
                     bo_bios = rbo_bios b, bo_arm64 = rbo_arm64 b\<rparr>) (rc_bootloader raw),
          cl_vars = rc_vars raw, cl_enabled = bool_default (rc_enabled raw) True,
          cl_source = source_file\<rparr>)"

section \<open>A file\<close>

datatype load_error =
  NotADirectory string
| ReadingDirectory string
| NoTomlFiles string
| ReadingFile string
| ParsingFile string string
| InSection string convert_error
| InMenu string nat convert_error
| InClient string nat convert_error
| DuplicateServer string string
| DuplicateMenu string string string
| MultipleWildcards string string
| DuplicateMAC string string string
| NoServerSection
| EntryNotFound hwaddr string string string string

definition convert_section :: "string \<Rightarrow> ('a \<Rightarrow> convert_error + 'b) \<Rightarrow> 'a option \<Rightarrow> load_error + 'b option" where
  "convert_section path f raw =
     (case raw of None \<Rightarrow> Inr None
      | Some r \<Rightarrow> sum_bind (wrap_error (InSection path) (f r)) (\<lambda>cfg. Inr (Some cfg)))"

definition convert_file :: "string \<Rightarrow> raw_file \<Rightarrow> load_error + file_result" where
  "convert_file path raw =
     sum_bind (convert_section path convert_tftp (rf_tftp raw)) (\<lambda>tftp.
     sum_bind (convert_section path convert_http (rf_http raw)) (\<lambda>http.
     sum_bind (convert_section path convert_health (rf_health raw)) (\<lambda>health.
     sum_bind (traverse (\<lambda>i rm. wrap_error (InMenu path i) (convert_menu rm path)) 0 (rf_menu raw)) (\<lambda>menus.
     sum_bind (traverse (\<lambda>i rc. wrap_error (InClient path i) (convert_client rc path)) 0 (rf_client raw)) (\<lambda>clients.
     Inr \<lparr>fr_filename = path, fr_server = map_option convert_server (rf_server raw),
          fr_dhcp_proxy = map_option convert_dhcp_proxy (rf_dhcp_proxy raw),
          fr_tftp = tftp, fr_http = http, fr_health = health,
          fr_bootloader = map_option convert_bootloader (rf_bootloader raw),
          fr_menus = menus, fr_clients = clients\<rparr>)))))"

definition parse_file ::
  "(string \<Rightarrow> string option) \<Rightarrow> (string \<Rightarrow> string + raw_file) \<Rightarrow> string \<Rightarrow> load_error + file_result" where
  "parse_file read unmarshal path =
     (case read path of
        None \<Rightarrow> Inl (ReadingFile path)
      | Some data \<Rightarrow> sum_bind (wrap_error (ParsingFile path) (unmarshal data)) (convert_file path))"

section \<open>What a converted file satisfies\<close>

lemma convert_file_filename: "convert_file path raw = Inr r \<Longrightarrow> fr_filename r = path"
  by (auto simp: convert_file_def sum_bind_Inr_iff)

lemma parse_file_filename: "parse_file read unmarshal path = Inr r \<Longrightarrow> fr_filename r = path"
  by (auto simp: parse_file_def sum_bind_Inr_iff convert_file_filename split: option.splits)

lemma convert_client_mac:
  "convert_client raw path = Inr c \<Longrightarrow> \<exists>bs. cl_mac c = Some bs \<and> mac_len_ok (length bs)"
  by (auto simp: convert_client_def sum_bind_Inr_iff dest: ParseMAC_length)

lemma convert_client_source: "convert_client raw path = Inr c \<Longrightarrow> cl_source c = path"
  by (auto simp: convert_client_def sum_bind_Inr_iff)

lemma convert_file_clients:
  assumes "convert_file path raw = Inr r" and "c \<in> set (fr_clients r)"
  shows "\<exists>rc \<in> set (rf_client raw). convert_client rc path = Inr c"
proof -
  from assms(1) have "traverse (\<lambda>i rc. wrap_error (InClient path i) (convert_client rc path)) 0 (rf_client raw) =
      Inr (fr_clients r)"
    by (auto simp: convert_file_def sum_bind_Inr_iff)
  from traverse_Inr [OF this] assms(2) show ?thesis
    by (auto simp: in_set_conv_nth) (metis nth_mem)
qed

lemma parse_file_clients_mac:
  assumes "parse_file read unmarshal path = Inr r" and "c \<in> set (fr_clients r)"
  shows "\<exists>bs. cl_mac c = Some bs \<and> mac_len_ok (length bs)"
  using assms
  by (auto simp: parse_file_def sum_bind_Inr_iff split: option.splits
      dest!: convert_file_clients convert_client_mac)

end
