(* ===== verification/Paths.thy ===== *)
theory Paths
  imports Prelude
begin

text \<open>
  Slash-separated paths: \<open>Clean\<close>, \<open>Join\<close>, \<open>IsAbs\<close>, \<open>Abs\<close> and \<open>Rel\<close> of package
  \<open>path/filepath\<close> on Unix, which the loader, the TFTP server and the HTTP routes use. The
  package works on the bytes of a path; here a path is split into its elements, which are
  processed with a stack, and put together again. The main facts: a cleaned absolute path
  is a slash followed by ordinary elements, joining a relative path leads back to the
  target it was made for, and a path with the prefix of a directory has its elements.
\<close>

section \<open>Splitting and joining\<close>

fun split_char :: "char \<Rightarrow> string \<Rightarrow> string list" where
  "split_char c [] = [[]]"
| "split_char c (x # xs) =
     (if x = c then [] # split_char c xs
      else case split_char c xs of [] \<Rightarrow> [[x]] | y # ys \<Rightarrow> (x # y) # ys)"

fun join_str :: "string \<Rightarrow> string list \<Rightarrow> string" where
  "join_str sep [] = []"
| "join_str sep [s] = s"
| "join_str sep (s # t # ts) = s @ sep @ join_str sep (t # ts)"

definition slash :: char where
  "slash = CHR ''/''"

definition path_elems :: "string \<Rightarrow> string list" where
  "path_elems s = filter (\<lambda>e. e \<noteq> [] \<and> e \<noteq> ''.'') (split_char slash s)"

definition join_elems :: "string list \<Rightarrow> string" where
  "join_elems es = join_str [slash] es"

lemma split_char_ne [simp]: "split_char c s \<noteq> []"
  by (induction c s rule: split_char.induct) (auto split: list.splits)

lemma split_char_append:
  "split_char c (s @ c # t) = split_char c s @ split_char c t"
  by (induction c s rule: split_char.induct) (auto split: list.splits)

lemma split_char_plain: "c \<notin> set s \<Longrightarrow> split_char c s = [s]"
  by (induction c s rule: split_char.induct) auto

lemma split_char_chars: "e \<in> set (split_char c s) \<Longrightarrow> c \<notin> set e"
  by (induction c s arbitrary: e rule: split_char.induct) (auto split: list.splits if_splits)

lemma split_char_joined: "join_str [c] (split_char c s) = s"
proof (induction c s rule: split_char.induct)
  case (2 c x xs)
  then show ?case by (cases "split_char c xs"; cases "tl (split_char c xs)") auto
qed simp

lemma split_char_join:
  "es \<noteq> [] \<Longrightarrow> \<forall>e \<in> set es. c \<notin> set e \<Longrightarrow> split_char c (join_str [c] es) = es"
  by (induction "[c]" es rule: join_str.induct) (auto simp: split_char_plain split_char_append)

lemma path_elems_append: "path_elems (s @ slash # t) = path_elems s @ path_elems t"
  by (simp add: path_elems_def split_char_append)

lemma path_elems_Nil [simp]: "path_elems [] = []"
  by (simp add: path_elems_def)

lemma path_elems_slash [simp]: "path_elems (slash # s) = path_elems s"
  by (simp add: path_elems_def)

section \<open>Cleaning\<close>

text \<open>The stack holds the elements so far, the last one first.\<close>

fun push_elem :: "bool \<Rightarrow> string \<Rightarrow> string list \<Rightarrow> string list" where
  "push_elem rooted e st =
     (if e = ''..'' then
        (case st of
           [] \<Rightarrow> if rooted then [] else [''..'']
         | t # r \<Rightarrow> if t = ''..'' then ''..'' # st else r)
      else e # st)"

definition clean_elems :: "bool \<Rightarrow> string list \<Rightarrow> string list" where
  "clean_elems rooted es = rev (fold (push_elem rooted) es [])"

definition path_is_abs :: "string \<Rightarrow> bool" where
  "path_is_abs s = has_prefix s [slash]"

definition path_clean :: "string \<Rightarrow> string" where
  "path_clean s =
     (let es = clean_elems (path_is_abs s) (path_elems s)
      in if path_is_abs s then slash # join_elems es
         else if es = [] then ''.'' else join_elems es)"

definition path_join :: "string list \<Rightarrow> string" where
  "path_join ss = (case dropWhile (\<lambda>s. s = []) ss of [] \<Rightarrow> [] | t # ts \<Rightarrow> path_clean (join_str [slash] (t # ts)))"

text \<open>\<open>cwd\<close> is the working directory of the process.\<close>

definition path_abs :: "string \<Rightarrow> string \<Rightarrow> string" where
  "path_abs cwd s = (if path_is_abs s then path_clean s else path_join [cwd, s])"

fun strip_common :: "'a list \<Rightarrow> 'a list \<Rightarrow> 'a list \<times> 'a list" where
  "strip_common (a # as) (b # bs) = (if a = b then strip_common as bs else (a # as, b # bs))"
| "strip_common as bs = (as, bs)"

definition path_rel :: "string \<Rightarrow> string \<Rightarrow> string option" where
  "path_rel base targ =
     (if path_clean base = path_clean targ then Some ''.''
      else if path_is_abs base \<noteq> path_is_abs targ then None
      else
        let (b, t) = strip_common (clean_elems (path_is_abs base) (path_elems base))
                                  (clean_elems (path_is_abs targ) (path_elems targ))
        in if b \<noteq> [] \<and> hd b = ''..'' then None
           else Some (join_elems (map (\<lambda>_. ''..'') b @ t)))"

section \<open>Clean paths\<close>

text \<open>An ordinary element; the elements of a cleaned absolute path are ordinary.\<close>

definition elem_ok :: "string \<Rightarrow> bool" where
  "elem_ok e \<longleftrightarrow> e \<noteq> [] \<and> e \<noteq> ''.'' \<and> e \<noteq> ''..'' \<and> slash \<notin> set e"

definition abs_path :: "string list \<Rightarrow> string" where
  "abs_path es = slash # join_elems es"

lemma path_elems_ok: "e \<in> set (path_elems s) \<Longrightarrow> e \<noteq> ''..'' \<Longrightarrow> elem_ok e"
  by (auto simp: path_elems_def elem_ok_def dest: split_char_chars)

lemma push_elem_ok:
  assumes "e = ''..'' \<or> elem_ok e" and "\<forall>x \<in> set st. elem_ok x"
  shows "\<forall>x \<in> set (push_elem True e st). elem_ok x"
proof (cases "e = ''..''")
  case True
  then show ?thesis using assms(2) by (cases st) (auto simp: elem_ok_def)
next
  case False
  then show ?thesis using assms by simp
qed

lemma fold_push_ok:
  "\<forall>e \<in> set es. e = ''..'' \<or> elem_ok e \<Longrightarrow> \<forall>e \<in> set st. elem_ok e \<Longrightarrow>
     \<forall>e \<in> set (fold (push_elem True) es st). elem_ok e"
proof (induction es arbitrary: st)
  case Nil
  then show ?case by simp
next
  case (Cons e es)
  have "\<forall>x \<in> set (push_elem True e st). elem_ok x"
    using Cons.prems by (intro push_elem_ok) auto
  then show ?case using Cons.IH Cons.prems(1) by (simp del: push_elem.simps)
qed

lemma clean_elems_ok: "\<forall>e \<in> set (clean_elems True (path_elems s)). elem_ok e"
  unfolding clean_elems_def set_rev by (rule fold_push_ok) (auto dest: path_elems_ok)

lemma push_plain: "e \<noteq> ''..'' \<Longrightarrow> push_elem r e st = e # st"
  by simp

lemma fold_push_plain: "\<forall>e \<in> set es. e \<noteq> ''..'' \<Longrightarrow> fold (push_elem r) es st = rev es @ st"
  by (induction es arbitrary: st) auto

lemma fold_push_up:
  "\<forall>e \<in> set st. e \<noteq> ''..'' \<Longrightarrow> n \<le> length st \<Longrightarrow> fold (push_elem r) (replicate n ''..'') st = drop n st"
proof (induction n arbitrary: st)
  case 0
  then show ?case by simp
next
  case (Suc n)
  then obtain t s where "st = t # s" by (cases st) auto
  with Suc show ?case by simp
qed

lemma path_elems_join:
  assumes "\<forall>e \<in> set es. e \<noteq> [] \<and> e \<noteq> ''.'' \<and> slash \<notin> set e"
  shows "path_elems (join_elems es) = es"
proof (cases "es = []")
  case True
  then show ?thesis by (simp add: join_elems_def)
next
  case False
  with assms show ?thesis
    by (simp add: path_elems_def join_elems_def split_char_join filter_id_conv)
qed

lemma elem_okD: "elem_ok e \<Longrightarrow> e \<noteq> [] \<and> e \<noteq> ''.'' \<and> slash \<notin> set e" "elem_ok e \<Longrightarrow> e \<noteq> ''..''"
  by (simp_all add: elem_ok_def)

lemma path_elems_abs_path [simp]: "\<forall>e \<in> set es. elem_ok e \<Longrightarrow> path_elems (abs_path es) = es"
  unfolding abs_path_def path_elems_slash by (intro path_elems_join) (auto dest: elem_okD)

lemma is_abs_abs_path [simp]: "path_is_abs (abs_path es)"
  by (simp add: path_is_abs_def abs_path_def)

lemma is_abs_iff: "path_is_abs s \<longleftrightarrow> (\<exists>t. s = slash # t)"
  by (auto simp: path_is_abs_def has_prefix_iff)

lemma is_abs_append [simp]: "path_is_abs s \<Longrightarrow> path_is_abs (s @ t)"
  by (auto simp: is_abs_iff)

lemma clean_elems_plain: "\<forall>e \<in> set es. elem_ok e \<Longrightarrow> clean_elems r es = es"
  unfolding clean_elems_def by (subst fold_push_plain) (auto simp: elem_ok_def)

text \<open>Cleaning an absolute path, as a function of its elements.\<close>

lemma path_clean_abs: "path_is_abs s \<Longrightarrow> path_clean s = abs_path (clean_elems True (path_elems s))"
  by (simp add: path_clean_def abs_path_def)

lemma abs_path_inj:
  assumes "\<forall>e \<in> set as. elem_ok e" and "\<forall>e \<in> set bs. elem_ok e" and "abs_path as = abs_path bs"
  shows "as = bs"
  using assms path_elems_abs_path by metis

lemma path_clean_abs_path [simp]: "\<forall>e \<in> set es. elem_ok e \<Longrightarrow> path_clean (abs_path es) = abs_path es"
  by (simp add: path_clean_abs clean_elems_plain)

lemma path_clean_abs_cases:
  assumes "path_is_abs s"
  obtains es where "path_clean s = abs_path es" "\<forall>e \<in> set es. elem_ok e"
  using path_clean_abs [OF assms] clean_elems_ok by blast

lemma path_clean_idem_abs: "path_is_abs s \<Longrightarrow> path_clean (path_clean s) = path_clean s"
  by (metis path_clean_abs_cases path_clean_abs_path)

lemma path_join_abs:
  "path_is_abs a \<Longrightarrow> path_join [a, b] = abs_path (clean_elems True (path_elems a @ path_elems b))"
  by (cases a) (auto simp: path_join_def path_clean_abs path_elems_append is_abs_iff)

lemma path_join_abs_path:
  "\<forall>e \<in> set es. elem_ok e \<Longrightarrow> path_join [abs_path es, b] =
     abs_path (rev (fold (push_elem True) (path_elems b) (rev es)))"
  by (simp add: path_join_abs clean_elems_def fold_push_plain elem_ok_def)

lemma path_abs_cases:
  assumes "path_is_abs cwd"
  obtains es where "path_abs cwd s = abs_path es" "\<forall>e \<in> set es. elem_ok e"
proof (cases "path_is_abs s")
  case True
  then show ?thesis using that path_clean_abs_cases [OF True] by (metis path_abs_def)
next
  case False
  have "\<forall>e \<in> set (clean_elems True (path_elems cwd @ path_elems s)). elem_ok e"
    using clean_elems_ok [of "cwd @ slash # s"] by (simp add: path_elems_append)
  with False that path_join_abs [OF assms] show ?thesis by (simp add: path_abs_def)
qed

section \<open>Relative paths lead back\<close>

lemma strip_common_split:
  "strip_common as bs = (as', bs') \<Longrightarrow> \<exists>p. as = p @ as' \<and> bs = p @ bs'"
proof (induction as bs rule: strip_common.induct)
  case (1 a as b bs)
  then show ?case
  proof (cases "a = b")
    case True
    with 1 obtain p where "as = p @ as'" "bs = p @ bs'" by auto
    with True have "a # as = (a # p) @ as'" "b # bs = (a # p) @ bs'" by simp_all
    then show ?thesis by blast
  qed auto
qed auto

lemma path_rel_abs_path:
  assumes "\<forall>e \<in> set bs. elem_ok e" and "\<forall>e \<in> set ts. elem_ok e"
  shows "\<exists>r. path_rel (abs_path bs) (abs_path ts) = Some r \<and>
    \<not> path_is_abs r \<and> r \<noteq> [] \<and> path_join [abs_path bs, r] = abs_path ts"
proof (cases "bs = ts")
  case True
  have "path_elems ''.'' = []" by (simp add: path_elems_def slash_def)
  with True assms show ?thesis
    by (simp add: path_rel_def path_join_abs_path path_is_abs_def slash_def)
next
  case False
  obtain b t where bt: "strip_common bs ts = (b, t)" by fastforce
  from strip_common_split [OF this] obtain p where p: "bs = p @ b" "ts = p @ t" by blast
  let ?es = "map (\<lambda>_. ''..'') b @ t"
  from False p have ne: "?es \<noteq> []" by auto
  have ok_b: "\<forall>e \<in> set b. elem_ok e" and ok_t: "\<forall>e \<in> set t. elem_ok e" using assms p by simp_all
  have up: "e \<noteq> [] \<and> e \<noteq> ''.'' \<and> slash \<notin> set e" if "e = ''..''" for e
    unfolding that by (simp add: slash_def)
  have good: "\<forall>e \<in> set ?es. e \<noteq> [] \<and> e \<noteq> ''.'' \<and> slash \<notin> set e"
  proof
    fix e
    assume "e \<in> set ?es"
    then consider "e = ''..''" | "e \<in> set t" by auto
    then show "e \<noteq> [] \<and> e \<noteq> ''.'' \<and> slash \<notin> set e"
      using up ok_t elem_okD(1) by cases blast+
  qed
  have b_ok: "b = [] \<or> hd b \<noteq> ''..''"
    using assms p by (cases b) (auto simp: elem_ok_def)
  have rel: "path_rel (abs_path bs) (abs_path ts) = Some (join_elems ?es)"
    using False b_ok bt assms abs_path_inj [OF assms]
    by (auto simp: path_rel_def clean_elems_plain)
  have "fold (push_elem True) ?es (rev bs) = rev ts"
  proof -
    have "map (\<lambda>_. ''..'') b = replicate (length (rev b)) ''..''" by (simp add: map_replicate_const)
    moreover have "fold (push_elem True) (replicate (length (rev b)) ''..'') (rev b @ rev p) = rev p"
      by (subst fold_push_up) (use assms p in \<open>auto simp: elem_ok_def\<close>)
    moreover have "fold (push_elem True) t (rev p) = rev t @ rev p"
      by (rule fold_push_plain) (use assms p in \<open>auto simp: elem_ok_def\<close>)
    ultimately show ?thesis by (simp add: p)
  qed
  then have "path_join [abs_path bs, join_elems ?es] = abs_path ts"
    using assms by (simp add: path_join_abs_path path_elems_join [OF good] del: fold_append map_append)
  moreover obtain e es where es: "?es = e # es" using ne by (cases ?es) auto
  with good have "e \<noteq> []" "slash \<notin> set e" by auto
  then have "\<not> path_is_abs (join_elems ?es) \<and> join_elems ?es \<noteq> []"
    unfolding es join_elems_def by (cases e; cases es) (auto simp: is_abs_iff)
  ultimately show ?thesis using rel by blast
qed

section \<open>Prefixes\<close>

lemma join_elems_simps [simp]:
  "join_elems [] = []" "join_elems [e] = e" "join_elems (e # f # es) = e @ slash # join_elems (f # es)"
  by (simp_all add: join_elems_def)

lemma join_elems_append:
  "as \<noteq> [] \<Longrightarrow> bs \<noteq> [] \<Longrightarrow> join_elems (as @ bs) = join_elems as @ slash # join_elems bs"
proof (induction as)
  case Nil
  then show ?case by simp
next
  case (Cons a as)
  then obtain b bs' where b: "bs = b # bs'" by (cases bs) auto
  show ?case
  proof (cases as)
    case Nil
    with b show ?thesis by simp
  next
    case (Cons c cs)
    with Cons.IH Cons.prems show ?thesis by simp
  qed
qed

text \<open>A path below a directory extends its elements, and conversely.\<close>

lemma abs_path_prefix_iff:
  assumes "\<forall>e \<in> set bs. elem_ok e" and "\<forall>e \<in> set ts. elem_ok e" and "bs \<noteq> []"
  shows "has_prefix (abs_path ts) (abs_path bs @ [slash]) \<longleftrightarrow> (\<exists>r. r \<noteq> [] \<and> ts = bs @ r)"
proof
  assume "has_prefix (abs_path ts) (abs_path bs @ [slash])"
  then obtain r where r: "abs_path ts = abs_path bs @ slash # r"
    by (auto simp: has_prefix_iff)
  from arg_cong [OF this, of path_elems] assms have "ts = bs @ path_elems r"
    by (simp add: path_elems_append)
  moreover have "path_elems r \<noteq> []"
  proof
    assume "path_elems r = []"
    with calculation have "ts = bs" by simp
    with r show False by simp
  qed
  ultimately show "\<exists>r. r \<noteq> [] \<and> ts = bs @ r" by blast
next
  assume "\<exists>r. r \<noteq> [] \<and> ts = bs @ r"
  then obtain r where "r \<noteq> []" "ts = bs @ r" by blast
  then have "abs_path ts = (abs_path bs @ [slash]) @ join_elems r"
    using assms(3) by (simp add: abs_path_def join_elems_append)
  then show "has_prefix (abs_path ts) (abs_path bs @ [slash])"
    by (simp only: has_prefix_append)
qed

lemma join_elems_Cons_ne: "e \<noteq> [] \<Longrightarrow> join_elems (e # es) \<noteq> []"
  by (cases es) simp_all

lemma join_elems_ne:
  assumes "es \<noteq> []" and "\<forall>e \<in> set es. e \<noteq> []"
  shows "join_elems es \<noteq> []"
proof -
  from assms(1) obtain e r where es: "es = e # r" by (cases es) simp_all
  have "e \<in> set es" by (simp add: es)
  from bspec [OF assms(2) this] have "e \<noteq> []" .
  then show ?thesis unfolding es by (rule join_elems_Cons_ne)
qed

lemma path_clean_ne [simp]: "path_clean s \<noteq> []"
proof (cases "path_is_abs s")
  case True
  then show ?thesis by (simp add: path_clean_def)
next
  case False
  let ?es = "clean_elems False (path_elems s)"
  have keep: "\<forall>e \<in> set (fold (push_elem False) es st). e \<noteq> []"
    if "\<forall>e \<in> set es. e \<noteq> []" "\<forall>e \<in> set st. e \<noteq> []" for es st
    using that
  proof (induction es arbitrary: st)
    case Nil
    then show ?case by simp
  next
    case (Cons e es)
    then have "\<forall>x \<in> set (push_elem False e st). x \<noteq> []" by (cases st) auto
    with Cons show ?case by (simp del: push_elem.simps)
  qed
  have "\<forall>e \<in> set (path_elems s). e \<noteq> []" by (simp add: path_elems_def)
  then have "\<forall>e \<in> set ?es. e \<noteq> []"
    unfolding clean_elems_def set_rev by (rule keep) simp
  then have "?es \<noteq> [] \<Longrightarrow> join_elems ?es \<noteq> []" by (intro join_elems_ne)
  with False show ?thesis by (simp add: path_clean_def Let_def)
qed

section \<open>Relative paths below a directory\<close>

text \<open>Cleaning a relative path first makes no difference to what it leads to.\<close>

lemma fold_push_clean:
  "fold (push_elem True) (clean_elems False es) st = fold (push_elem True) es st"
proof -
  have step: "fold (push_elem True) (rev (push_elem False e acc)) st =
      push_elem True e (fold (push_elem True) (rev acc) st)" for e acc
    by (cases acc) (auto split: list.splits)
  have "fold (push_elem True) (rev (fold (push_elem False) es acc)) st =
      fold (push_elem True) es (fold (push_elem True) (rev acc) st)" for acc
    by (induction es arbitrary: acc) (simp_all only: fold_simps step list.simps id_apply o_apply fold.simps)
  from this [of "[]"] show ?thesis by (simp add: clean_elems_def)
qed

definition elem_plain :: "string \<Rightarrow> bool" where
  "elem_plain e \<longleftrightarrow> e \<noteq> [] \<and> e \<noteq> ''.'' \<and> slash \<notin> set e"

lemma clean_elems_plain_ok: "\<forall>e \<in> set (clean_elems r (path_elems s)). elem_plain e"
proof -
  have dots: "elem_plain ''..''" by (simp add: elem_plain_def slash_def)
  have push: "\<forall>x \<in> set (push_elem r e st). elem_plain x"
    if "elem_plain e" "\<forall>x \<in> set st. elem_plain x" for e st
    using that dots by (cases st; cases "e = ''..''"; cases r) simp_all
  have keep: "\<forall>e \<in> set (fold (push_elem r) es st). elem_plain e"
    if "\<forall>e \<in> set es. elem_plain e" "\<forall>e \<in> set st. elem_plain e" for es st
    using that
  proof (induction es arbitrary: st)
    case Nil
    then show ?case by simp
  next
    case (Cons e es)
    have "\<forall>x \<in> set (push_elem r e st). elem_plain x" using Cons.prems by (intro push) simp_all
    with Cons show ?case by (simp del: push_elem.simps)
  qed
  have "\<forall>e \<in> set (path_elems s). elem_plain e"
    by (auto simp: path_elems_def elem_plain_def dest: split_char_chars)
  then show ?thesis unfolding clean_elems_def set_rev by (rule keep) simp
qed

lemma clean_relative:
  assumes "\<not> path_is_abs s"
  shows "\<not> path_is_abs (path_clean s) \<and> path_elems (path_clean s) = clean_elems False (path_elems s)"
proof (cases "clean_elems False (path_elems s)")
  case Nil
  have "path_elems ''.'' = []" by (simp add: path_elems_def slash_def)
  with Nil assms show ?thesis
    by (simp add: path_clean_def Let_def) (simp add: path_is_abs_def slash_def)
next
  case (Cons e es)
  have "elem_plain e" using clean_elems_plain_ok [of False s] by (simp add: Cons)
  then obtain c cs where "e = c # cs" "c \<noteq> slash" by (cases e) (auto simp: elem_plain_def)
  then have "\<not> path_is_abs (join_elems (e # es))" by (cases es) (auto simp: is_abs_iff)
  moreover have "path_elems (join_elems (e # es)) = e # es"
    using clean_elems_plain_ok [of False s] unfolding Cons by (intro path_elems_join) (simp add: elem_plain_def)
  ultimately show ?thesis using assms by (simp add: path_clean_def Cons)
qed

lemma path_abs_join:
  assumes cwd: "path_is_abs cwd" and ds: "path_abs cwd dir = abs_path ds" "\<forall>e \<in> set ds. elem_ok e"
    and ne: "dir \<noteq> []"
  shows "path_abs cwd (path_join [dir, r]) = abs_path (rev (fold (push_elem True) (path_elems r) (rev ds)))"
proof (cases "path_is_abs dir")
  case True
  then have "abs_path (clean_elems True (path_elems dir)) = abs_path ds"
    using ds(1) by (simp add: path_abs_def path_clean_abs)
  then have "clean_elems True (path_elems dir) = ds"
    by (intro abs_path_inj clean_elems_ok ds(2))
  then have "fold (push_elem True) (path_elems dir) [] = rev ds"
    by (simp add: clean_elems_def flip: rev_swap)
  moreover have "path_clean (path_join [dir, r]) = path_join [dir, r]"
    using True ne by (cases dir) (auto simp: path_join_def is_abs_iff intro!: path_clean_idem_abs)
  ultimately show ?thesis
    using True by (simp add: path_abs_def path_join_abs clean_elems_def)
next
  case False
  from ne False have rel: "\<not> path_is_abs (dir @ slash # r)" by (cases dir) (auto simp: is_abs_iff)
  have join: "path_join [dir, r] = path_clean (dir @ slash # r)" using ne by (simp add: path_join_def)
  have "abs_path (clean_elems True (path_elems cwd @ path_elems dir)) = abs_path ds"
    using ds(1) False by (simp add: path_abs_def path_join_abs cwd)
  then have "clean_elems True (path_elems cwd @ path_elems dir) = ds"
    using clean_elems_ok [of "cwd @ slash # dir"] ds(2) by (intro abs_path_inj) (simp_all add: path_elems_append)
  then have "fold (push_elem True) (path_elems dir) (fold (push_elem True) (path_elems cwd) []) = rev ds"
    by (simp add: clean_elems_def flip: rev_swap)
  then show ?thesis
    using clean_relative [OF rel]
    by (simp add: join path_abs_def path_join_abs cwd clean_elems_def [of True] fold_push_clean path_elems_append)
qed

lemma path_rel_clean:
  assumes "path_is_abs t"
  shows "path_rel b t = path_rel b (path_clean t)"
proof -
  obtain es where es: "path_clean t = abs_path es" "\<forall>e \<in> set es. elem_ok e"
    using path_clean_abs_cases [OF assms] .
  moreover have "clean_elems True (path_elems t) = es"
    using es assms clean_elems_ok by (intro abs_path_inj) (simp_all add: path_clean_abs)
  ultimately show ?thesis
    using assms by (simp add: path_rel_def clean_elems_plain)
qed

text \<open>A target given relative to a directory is found again from the directory.\<close>

lemma path_rel_join:
  assumes "path_is_abs cwd" and "dir \<noteq> []" and "path_is_abs t"
  obtains r where "path_rel (path_abs cwd dir) t = Some r" "\<not> path_is_abs r" "r \<noteq> []"
    "path_abs cwd (path_join [dir, r]) = path_clean t"
proof -
  obtain ds where ds: "path_abs cwd dir = abs_path ds" "\<forall>e \<in> set ds. elem_ok e"
    using path_abs_cases [OF assms(1)] .
  obtain ts where ts: "path_clean t = abs_path ts" "\<forall>e \<in> set ts. elem_ok e"
    using path_clean_abs_cases [OF assms(3)] .
  from path_rel_abs_path [OF ds(2) ts(2)] obtain r where r: "path_rel (abs_path ds) (abs_path ts) = Some r"
    "\<not> path_is_abs r" "r \<noteq> []" "path_join [abs_path ds, r] = abs_path ts"
    by blast
  have "path_abs cwd (path_join [dir, r]) = path_join [abs_path ds, r]"
    using path_abs_join [OF assms(1) ds assms(2)] path_join_abs_path [OF ds(2)] by simp
  with r ts ds that path_rel_clean [OF assms(3)] show ?thesis by metis
qed

lemma path_abs_child:
  assumes "path_is_abs cwd" and "path_abs cwd dir = abs_path ds" "\<forall>e \<in> set ds. elem_ok e"
    and "dir \<noteq> []" and "elem_ok name"
  shows "path_abs cwd (path_join [dir, name]) = abs_path (ds @ [name])"
proof -
  have "path_elems name = [name]"
    using path_elems_join [of "[name]"] elem_okD(1) [OF assms(5)] by simp
  with path_abs_join [OF assms(1-4), of name] elem_okD(2) [OF assms(5)] show ?thesis by simp
qed

end
