(* ===== verification/TomlLoader.thy ===== *)
theory TomlLoader
  imports TomlParser Paths "HOL-Library.List_Lexorder" "HOL-Library.Char_ord"
begin

text \<open>
  The loader of a configuration directory, \<open>internal/infra/toml/loader.go\<close>: it reads every
  \<open>.toml\<close> file, merges the results with checks across the files, and makes the data
  directory absolute. The file system is a value: the working directory and a map from
  cleaned absolute paths to files and directories, without links and permissions.
\<close>

section \<open>The file system\<close>

datatype fs_node = FileNode string | DirNode

record file_system =
  fs_cwd :: string
  fs_nodes :: "(string, fs_node) gomap"

definition fs_lookup :: "file_system \<Rightarrow> string \<Rightarrow> fs_node option" where
  "fs_lookup fs p = (if p = [] then None else map_of (fs_nodes fs) (path_abs (fs_cwd fs) p))"

definition os_read_file :: "file_system \<Rightarrow> string \<Rightarrow> string option" where
  "os_read_file fs p = (case fs_lookup fs p of Some (FileNode d) \<Rightarrow> Some d | _ \<Rightarrow> None)"

text \<open>The entry names of a directory with the flag \<open>IsDir\<close>; \<open>os.ReadDir\<close> sorts them.\<close>

definition os_read_dir :: "file_system \<Rightarrow> string \<Rightarrow> (string \<times> bool) list option" where
  "os_read_dir fs dir =
     (case fs_lookup fs dir of
        Some DirNode \<Rightarrow>
          (let base = path_elems (path_abs (fs_cwd fs) dir);
               below = filter (\<lambda>(p, _). path_elems p \<noteq> [] \<and> butlast (path_elems p) = base) (fs_nodes fs)
           in Some (sort_key fst (map (\<lambda>(p, n). (last (path_elems p), n = DirNode)) below)))
      | _ \<Rightarrow> None)"

text \<open>\<open>os.WriteFile\<close> creates or replaces a file in an existing directory.\<close>

definition os_write_file :: "string \<Rightarrow> string \<Rightarrow> file_system \<Rightarrow> file_system option" where
  "os_write_file p data fs =
     (let key = path_abs (fs_cwd fs) p
      in if p = [] \<or> path_elems key = [] \<or> map_of (fs_nodes fs) key = Some DirNode then None
         else if map_of (fs_nodes fs) (abs_path (butlast (path_elems key))) \<noteq> Some DirNode then None
         else Some (fs\<lparr>fs_nodes := AList.update key (FileNode data) (fs_nodes fs)\<rparr>))"

section \<open>Similar names\<close>

fun common_prefix :: "string \<Rightarrow> string \<Rightarrow> nat" where
  "common_prefix (a # as) (b # bs) = (if a = b then Suc (common_prefix as bs) else 0)"
| "common_prefix _ _ = 0"

definition similarity :: "string \<Rightarrow> string \<Rightarrow> nat" where
  "similarity target name =
     (let lower = to_lower name
      in common_prefix target lower +
         (if contains_str lower target \<or> contains_str target lower then 3 else 0))"

definition better_match :: "string \<Rightarrow> string \<times> string \<Rightarrow> string \<times> nat \<Rightarrow> string \<times> nat" where
  "better_match target = (\<lambda>(name, _) (best, best_score).
     let score = similarity target name
     in if score > best_score \<and> score \<ge> 3 then (name, score) else (best, best_score))"

type_synonym name_order = "(string, string) gomap \<Rightarrow> (string, string) gomap"

definition find_similar :: "name_order \<Rightarrow> string \<Rightarrow> (string, string) gomap \<Rightarrow> string" where
  "find_similar rng target available =
     fst (fold (better_match (to_lower target)) (rng available) ([], 0))"

section \<open>Merging\<close>

record merge_state =
  mg_cfg :: full_config
  mg_server_source :: string
  mg_seen_macs :: "(string, string) gomap"
  mg_seen_menus :: "(string, string) gomap"
  mg_wildcard_count :: int
  mg_wildcard_source :: string

definition merge_start :: merge_state where
  "merge_start = \<lparr>mg_cfg = empty_full_config, mg_server_source = [], mg_seen_macs = [],
     mg_seen_menus = [], mg_wildcard_count = 0, mg_wildcard_source = []\<rparr>"

definition merge_server :: "file_result \<Rightarrow> merge_state \<Rightarrow> load_error + merge_state" where
  "merge_server r st =
     (case fr_server r of
        None \<Rightarrow> Inr st
      | Some s \<Rightarrow>
          if mg_server_source st \<noteq> [] then Inl (DuplicateServer (mg_server_source st) (fr_filename r))
          else Inr (st\<lparr>mg_cfg := (mg_cfg st)\<lparr>fc_server := s\<rparr>, mg_server_source := fr_filename r\<rparr>))"

definition assign :: "'a option \<Rightarrow> 'a \<Rightarrow> 'a" where
  "assign new old = (case new of None \<Rightarrow> old | Some v \<Rightarrow> v)"

definition merge_services :: "file_result \<Rightarrow> merge_state \<Rightarrow> merge_state" where
  "merge_services r st =
     st\<lparr>mg_cfg := (mg_cfg st)
        \<lparr>fc_dhcp_proxy := assign (fr_dhcp_proxy r) (fc_dhcp_proxy (mg_cfg st)),
         fc_tftp := assign (fr_tftp r) (fc_tftp (mg_cfg st)),
         fc_http := assign (fr_http r) (fc_http (mg_cfg st)),
         fc_health := assign (fr_health r) (fc_health (mg_cfg st)),
         fc_bootloader := assign (fr_bootloader r) (fc_bootloader (mg_cfg st))\<rparr>\<rparr>"

definition merge_menu :: "string \<Rightarrow> menu_entry \<Rightarrow> merge_state \<Rightarrow> load_error + merge_state" where
  "merge_menu filename m st =
     (case map_of (mg_seen_menus st) (me_name m) of
        Some existing \<Rightarrow> Inl (DuplicateMenu (me_name m) existing filename)
      | None \<Rightarrow> Inr (st\<lparr>mg_seen_menus := AList.update (me_name m) filename (mg_seen_menus st),
          mg_cfg := (mg_cfg st)\<lparr>fc_menus := fc_menus (mg_cfg st) @ [m]\<rparr>\<rparr>))"

definition merge_client :: "string \<Rightarrow> client \<Rightarrow> merge_state \<Rightarrow> load_error + merge_state" where
  "merge_client filename c st =
     sum_bind
       (if client_is_wildcard c then
          let count = mg_wildcard_count st + 1
          in if count > 1 then Inl (MultipleWildcards (mg_wildcard_source st) filename)
             else Inr (st\<lparr>mg_wildcard_count := count, mg_wildcard_source := filename\<rparr>)
        else case map_of (mg_seen_macs st) (mac_string (cl_mac c)) of
            Some existing \<Rightarrow> Inl (DuplicateMAC (mac_string (cl_mac c)) existing filename)
          | None \<Rightarrow> Inr (st\<lparr>mg_seen_macs := AList.update (mac_string (cl_mac c)) filename (mg_seen_macs st)\<rparr>))
       (\<lambda>st. Inr (st\<lparr>mg_cfg := (mg_cfg st)\<lparr>fc_clients := fc_clients (mg_cfg st) @ [c]\<rparr>\<rparr>))"

definition merge_file :: "file_result \<Rightarrow> merge_state \<Rightarrow> load_error + merge_state" where
  "merge_file r st =
     sum_bind (merge_server r st) (\<lambda>st.
     sum_bind (fold_err (merge_menu (fr_filename r)) (fr_menus r) (merge_services r st)) (\<lambda>st.
     fold_err (merge_client (fr_filename r)) (fr_clients r) st))"

definition check_entry :: "name_order \<Rightarrow> (string, string) gomap \<Rightarrow> client \<Rightarrow> string \<Rightarrow> load_error option" where
  "check_entry rng seen_menus c entry_name =
     (if map_of seen_menus entry_name = None
      then Some (EntryNotFound (cl_mac c) (cl_name c) (cl_source c) entry_name
             (find_similar rng entry_name seen_menus))
      else None)"

definition merge_results :: "name_order \<Rightarrow> file_result list \<Rightarrow> load_error + full_config" where
  "merge_results rng results =
     sum_bind (fold_err merge_file results merge_start) (\<lambda>st.
       if mg_server_source st = [] then Inl NoServerSection
       else case first_error (\<lambda>c. first_error (check_entry rng (mg_seen_menus st) c) (mc_entries (cl_menu c)))
                  (fc_clients (mg_cfg st)) of
              Some err \<Rightarrow> Inl err
            | None \<Rightarrow> Inr (mg_cfg st))"

section \<open>The directory\<close>

definition resolve_paths :: "string \<Rightarrow> full_config \<Rightarrow> string \<Rightarrow> full_config" where
  "resolve_paths cwd cfg base_dir =
     (let d = sc_data_dir (fc_server cfg)
      in if d \<noteq> [] \<and> \<not> path_is_abs d
         then cfg\<lparr>fc_server := (fc_server cfg)\<lparr>sc_data_dir := path_abs cwd (path_join [base_dir, d])\<rparr>\<rparr>
         else cfg)"

definition toml_files :: "string \<Rightarrow> (string \<times> bool) list \<Rightarrow> string list" where
  "toml_files dir entries =
     map (\<lambda>(name, _). path_join [dir, name])
       (filter (\<lambda>(name, is_dir). \<not> is_dir \<and> has_suffix name ''.toml'') entries)"

definition load_dir ::
  "name_order \<Rightarrow> (string \<Rightarrow> string + raw_file) \<Rightarrow> file_system \<Rightarrow> string \<Rightarrow> load_error + full_config" where
  "load_dir rng unmarshal fs dir =
     (case fs_lookup fs dir of
        Some (FileNode _) \<Rightarrow> Inl (NotADirectory dir)
      | _ \<Rightarrow>
        case os_read_dir fs dir of
          None \<Rightarrow> Inl (ReadingDirectory dir)
        | Some entries \<Rightarrow>
            let files = toml_files dir entries
            in if files = [] then Inl (NoTomlFiles dir)
               else
                 sum_bind (traverse (\<lambda>_. parse_file (os_read_file fs) unmarshal) 0 (sort files)) (\<lambda>results.
                 sum_bind (merge_results rng results) (\<lambda>cfg.
                 Inr (resolve_paths (fs_cwd fs) cfg dir))))"

section \<open>The best match\<close>

lemma better_matches:
  fixes best_score :: nat
  assumes "fold (better_match target) xs (best, best_score) = (best', s')"
  shows "best_score \<le> s' \<and>
    (\<forall>name \<in> fst ` set xs. similarity target name \<ge> 3 \<longrightarrow> similarity target name \<le> s') \<and>
    ((best' = best \<and> s' = best_score) \<or>
     (best' \<in> fst ` set xs \<and> similarity target best' = s' \<and> 3 \<le> s'))"
  using assms
proof (induction xs arbitrary: best best_score)
  case Nil
  then show ?case by simp
next
  case (Cons x xs)
  obtain name src where x: "x = (name, src)" by (cases x) auto
  show ?case
  proof (cases "similarity target name > best_score \<and> similarity target name \<ge> 3")
    case True
    with Cons.prems x have "fold (better_match target) xs (name, similarity target name) = (best', s')"
      by (simp add: better_match_def)
    from Cons.IH [OF this] True x show ?thesis by auto
  next
    case False
    with Cons.prems x have "fold (better_match target) xs (best, best_score) = (best', s')"
      by (auto simp: better_match_def)
    from Cons.IH [OF this] False x show ?thesis by auto
  qed
qed

section \<open>The merged configuration\<close>

definition all_menus :: "file_result list \<Rightarrow> menu_entry list" where
  "all_menus rs = concat (map fr_menus rs)"

definition all_clients :: "file_result list \<Rightarrow> client list" where
  "all_clients rs = concat (map fr_clients rs)"

definition last_section :: "('r \<Rightarrow> 'a option) \<Rightarrow> 'a \<Rightarrow> 'r list \<Rightarrow> 'a" where
  "last_section f d rs = fold (\<lambda>r. assign (f r)) rs d"

definition server_count :: "file_result list \<Rightarrow> nat" where
  "server_count rs = length (filter (\<lambda>r. fr_server r \<noteq> None) rs)"

definition merged :: "file_result list \<Rightarrow> full_config" where
  "merged rs =
     \<lparr>fc_server = last_section fr_server (fc_server empty_full_config) rs,
      fc_dhcp_proxy = last_section fr_dhcp_proxy (fc_dhcp_proxy empty_full_config) rs,
      fc_tftp = last_section fr_tftp (fc_tftp empty_full_config) rs,
      fc_http = last_section fr_http (fc_http empty_full_config) rs,
      fc_health = last_section fr_health (fc_health empty_full_config) rs,
      fc_bootloader = last_section fr_bootloader (fc_bootloader empty_full_config) rs,
      fc_menus = all_menus rs, fc_clients = all_clients rs\<rparr>"

abbreviation plain_clients :: "client list \<Rightarrow> client list" where
  "plain_clients cs \<equiv> filter (\<lambda>c. \<not> client_is_wildcard c) cs"

abbreviation mac_key :: "client \<Rightarrow> string" where
  "mac_key c \<equiv> mac_string (cl_mac c)"

definition mergeable :: "file_result list \<Rightarrow> bool" where
  "mergeable rs \<longleftrightarrow> server_count rs \<le> 1 \<and> distinct (map me_name (all_menus rs)) \<and>
     distinct (map mac_key (plain_clients (all_clients rs))) \<and>
     length (filter client_is_wildcard (all_clients rs)) \<le> 1"

lemma merged_simps [simp]:
  "all_menus [] = []" "all_menus (rs @ [r]) = all_menus rs @ fr_menus r"
  "all_clients [] = []" "all_clients (rs @ [r]) = all_clients rs @ fr_clients r"
  "last_section f d [] = d" "last_section f d (rs @ [r]) = assign (f r) (last_section f d rs)"
  "server_count [] = 0"
  "server_count (rs @ [r]) = server_count rs + (if fr_server r = None then 0 else 1)"
  by (simp_all add: all_menus_def all_clients_def last_section_def server_count_def)

lemma merge_menus_iff:
  "fold_err (merge_menu fn) ms st = Inr st' \<longleftrightarrow>
     distinct (map me_name ms) \<and> (\<forall>m \<in> set ms. map_of (mg_seen_menus st) (me_name m) = None) \<and>
     st' = st\<lparr>mg_seen_menus := fold (\<lambda>m. AList.update (me_name m) fn) ms (mg_seen_menus st),
              mg_cfg := (mg_cfg st)\<lparr>fc_menus := fc_menus (mg_cfg st) @ ms\<rparr>\<rparr>"
proof (induction ms arbitrary: st)
  case Nil
  then show ?case by auto
next
  case (Cons m ms)
  show ?case
  proof (cases "map_of (mg_seen_menus st) (me_name m)")
    case None
    then have step: "merge_menu fn m st =
        Inr (st\<lparr>mg_seen_menus := AList.update (me_name m) fn (mg_seen_menus st),
          mg_cfg := (mg_cfg st)\<lparr>fc_menus := fc_menus (mg_cfg st) @ [m]\<rparr>\<rparr>)"
      by (simp add: merge_menu_def)
    have "(\<forall>x \<in> set ms. map_of (AList.update (me_name m) fn (mg_seen_menus st)) (me_name x) = None) \<longleftrightarrow>
        me_name m \<notin> me_name ` set ms \<and> (\<forall>x \<in> set ms. map_of (mg_seen_menus st) (me_name x) = None)"
      by auto (metis image_eqI)+
    with None show ?thesis by (simp add: step Cons.IH del: map_of_put) blast
  next
    case (Some x)
    then show ?thesis by (auto simp: merge_menu_def)
  qed
qed

lemma merge_clients_iff:
  assumes "0 \<le> mg_wildcard_count st"
  shows "fold_err (merge_client fn) cs st = Inr st' \<longleftrightarrow>
     distinct (map mac_key (plain_clients cs)) \<and>
     (\<forall>c \<in> set (plain_clients cs). map_of (mg_seen_macs st) (mac_key c) = None) \<and>
     (filter client_is_wildcard cs = [] \<or>
        mg_wildcard_count st + int (length (filter client_is_wildcard cs)) \<le> 1) \<and>
     st' = st\<lparr>mg_seen_macs := fold (\<lambda>c. AList.update (mac_key c) fn) (plain_clients cs) (mg_seen_macs st),
              mg_wildcard_count := mg_wildcard_count st + int (length (filter client_is_wildcard cs)),
              mg_wildcard_source := (if filter client_is_wildcard cs = [] then mg_wildcard_source st else fn),
              mg_cfg := (mg_cfg st)\<lparr>fc_clients := fc_clients (mg_cfg st) @ cs\<rparr>\<rparr>"
  using assms
proof (induction cs arbitrary: st)
  case Nil
  then show ?case by auto
next
  case (Cons c cs)
  show ?case
  proof (cases "client_is_wildcard c")
    case True
    show ?thesis
    proof (cases "mg_wildcard_count st = 0")
      case zero: True
      then show ?thesis using True Cons.IH by (auto simp: merge_client_def Let_def)
    next
      case False
      with Cons.prems have "1 < mg_wildcard_count st + 1" by linarith
      with True Cons.prems False show ?thesis by (simp add: merge_client_def Let_def)
    qed
  next
    case False
    show ?thesis
    proof (cases "map_of (mg_seen_macs st) (mac_key c)")
      case None
      with False have step: "merge_client fn c st =
          Inr (st\<lparr>mg_seen_macs := AList.update (mac_key c) fn (mg_seen_macs st),
            mg_cfg := (mg_cfg st)\<lparr>fc_clients := fc_clients (mg_cfg st) @ [c]\<rparr>\<rparr>)"
        by (simp add: merge_client_def)
      have "(\<forall>x \<in> set (plain_clients cs).
            map_of (AList.update (mac_key c) fn (mg_seen_macs st)) (mac_key x) = None) \<longleftrightarrow>
          mac_key c \<notin> mac_key ` set (plain_clients cs) \<and>
          (\<forall>x \<in> set (plain_clients cs). map_of (mg_seen_macs st) (mac_key x) = None)"
        unfolding map_of_put by (metis (no_types, lifting) image_iff option.distinct(1))
      with None False Cons.prems show ?thesis
        by (simp add: step Cons.IH del: map_of_put set_filter) blast
    next
      case (Some x)
      then show ?thesis using False by (auto simp: merge_client_def)
    qed
  qed
qed

lemma map_of_fold_put: "map_of (fold (\<lambda>x. AList.update (f x) v) xs m) k = None \<longleftrightarrow>
    map_of m k = None \<and> k \<notin> f ` set xs"
  by (induction xs arbitrary: m) auto

definition merge_inv :: "file_result list \<Rightarrow> merge_state \<Rightarrow> bool" where
  "merge_inv rs st \<longleftrightarrow>
     mg_cfg st = merged rs \<and> (mg_server_source st = [] \<longleftrightarrow> server_count rs = 0) \<and>
     (\<forall>k. map_of (mg_seen_menus st) k = None \<longleftrightarrow> k \<notin> me_name ` set (all_menus rs)) \<and>
     (\<forall>k. map_of (mg_seen_macs st) k = None \<longleftrightarrow> k \<notin> mac_key ` set (plain_clients (all_clients rs))) \<and>
     mg_wildcard_count st = int (length (filter client_is_wildcard (all_clients rs)))"

lemma merge_inv_start: "merge_inv [] merge_start"
  by (simp add: merge_inv_def merge_start_def merged_def empty_full_config_def)

lemma merge_server_Inr:
  "merge_server r st = Inr st' \<longleftrightarrow>
     (fr_server r = None \<or> mg_server_source st = []) \<and>
     st' = st\<lparr>mg_cfg := (mg_cfg st)\<lparr>fc_server := assign (fr_server r) (fc_server (mg_cfg st))\<rparr>,
              mg_server_source := (if fr_server r = None then mg_server_source st else fr_filename r)\<rparr>"
  by (auto simp: merge_server_def assign_def split: option.splits)

lemma merge_file_step:
  assumes inv: "merge_inv rs st" and ok: "mergeable rs" and name: "fr_filename r \<noteq> []"
  shows "(\<exists>st'. merge_file r st = Inr st') \<longleftrightarrow> mergeable (rs @ [r])"
    and "merge_file r st = Inr st' \<Longrightarrow> merge_inv (rs @ [r]) st'"
proof -
  define st1 where "st1 = st\<lparr>mg_cfg := (mg_cfg st)\<lparr>fc_server := assign (fr_server r) (fc_server (mg_cfg st))\<rparr>,
      mg_server_source := (if fr_server r = None then mg_server_source st else fr_filename r)\<rparr>"
  define st2 where "st2 = merge_services r st1"
  define st3 where "st3 = st2\<lparr>mg_seen_menus :=
        fold (\<lambda>m. AList.update (me_name m) (fr_filename r)) (fr_menus r) (mg_seen_menus st),
      mg_cfg := (mg_cfg st2)\<lparr>fc_menus := fc_menus (mg_cfg st) @ fr_menus r\<rparr>\<rparr>"
  define cs where "cs = fr_clients r"
  define st4 where "st4 = st3\<lparr>mg_seen_macs :=
        fold (\<lambda>c. AList.update (mac_key c) (fr_filename r)) (plain_clients cs) (mg_seen_macs st),
      mg_wildcard_count := mg_wildcard_count st + int (length (filter client_is_wildcard cs)),
      mg_wildcard_source := (if filter client_is_wildcard cs = [] then mg_wildcard_source st else fr_filename r),
      mg_cfg := (mg_cfg st3)\<lparr>fc_clients := fc_clients (mg_cfg st) @ cs\<rparr>\<rparr>"
  have frame: "mg_seen_menus st2 = mg_seen_menus st" "fc_menus (mg_cfg st2) = fc_menus (mg_cfg st)"
    "mg_seen_macs st3 = mg_seen_macs st" "fc_clients (mg_cfg st3) = fc_clients (mg_cfg st)"
    "mg_wildcard_count st3 = mg_wildcard_count st" "mg_wildcard_source st3 = mg_wildcard_source st"
    by (simp_all add: st3_def st2_def st1_def merge_services_def)
  have count: "0 \<le> mg_wildcard_count st3" using inv by (simp add: frame merge_inv_def)
  have iff: "merge_file r st = Inr st' \<longleftrightarrow>
      (fr_server r = None \<or> mg_server_source st = []) \<and>
      distinct (map me_name (fr_menus r)) \<and> (\<forall>m \<in> set (fr_menus r). map_of (mg_seen_menus st) (me_name m) = None) \<and>
      distinct (map mac_key (plain_clients cs)) \<and>
      (\<forall>c \<in> set (plain_clients cs). map_of (mg_seen_macs st) (mac_key c) = None) \<and>
      (filter client_is_wildcard cs = [] \<or>
         mg_wildcard_count st + int (length (filter client_is_wildcard cs)) \<le> 1) \<and> st' = st4" for st'
  proof -
    have "merge_file r st = Inr st' \<longleftrightarrow> (fr_server r = None \<or> mg_server_source st = []) \<and>
        (\<exists>b. fold_err (merge_menu (fr_filename r)) (fr_menus r) st2 = Inr b \<and>
             fold_err (merge_client (fr_filename r)) cs b = Inr st')"
      unfolding merge_file_def sum_bind_Inr_iff merge_server_Inr st1_def [symmetric] st2_def cs_def
      by blast
    also have "\<dots> \<longleftrightarrow> (fr_server r = None \<or> mg_server_source st = []) \<and>
        distinct (map me_name (fr_menus r)) \<and> (\<forall>m \<in> set (fr_menus r). map_of (mg_seen_menus st) (me_name m) = None) \<and>
        fold_err (merge_client (fr_filename r)) cs st3 = Inr st'"
      unfolding merge_menus_iff frame st3_def [symmetric] by blast
    finally show ?thesis
      unfolding merge_clients_iff [OF count] frame st4_def [symmetric] .
  qed
  have seen: "(\<forall>m \<in> set (fr_menus r). map_of (mg_seen_menus st) (me_name m) = None) \<longleftrightarrow>
      me_name ` set (all_menus rs) \<inter> me_name ` set (fr_menus r) = {}"
    "(\<forall>c \<in> set (plain_clients cs). map_of (mg_seen_macs st) (mac_key c) = None) \<longleftrightarrow>
      mac_key ` set (plain_clients (all_clients rs)) \<inter> mac_key ` set (plain_clients cs) = {}"
  proof -
    have menus: "map_of (mg_seen_menus st) k = None \<longleftrightarrow> k \<notin> me_name ` set (all_menus rs)"
      and macs: "map_of (mg_seen_macs st) k = None \<longleftrightarrow> k \<notin> mac_key ` set (plain_clients (all_clients rs))" for k
      using inv by (simp_all add: merge_inv_def)
    have disjoint: "(\<forall>x \<in> X. f x \<notin> N) \<longleftrightarrow> N \<inter> f ` X = {}" for f :: "'z \<Rightarrow> string" and X N by blast
    show "(\<forall>m \<in> set (fr_menus r). map_of (mg_seen_menus st) (me_name m) = None) \<longleftrightarrow>
        me_name ` set (all_menus rs) \<inter> me_name ` set (fr_menus r) = {}"
      unfolding menus by (rule disjoint)
    show "(\<forall>c \<in> set (plain_clients cs). map_of (mg_seen_macs st) (mac_key c) = None) \<longleftrightarrow>
        mac_key ` set (plain_clients (all_clients rs)) \<inter> mac_key ` set (plain_clients cs) = {}"
      unfolding macs by (rule disjoint)
  qed
  have wild: "(filter client_is_wildcard cs = [] \<or>
         mg_wildcard_count st + int (length (filter client_is_wildcard cs)) \<le> 1) \<longleftrightarrow>
      length (filter client_is_wildcard (all_clients (rs @ [r]))) \<le> 1"
    using inv ok by (auto simp: merge_inv_def mergeable_def cs_def)
  have server: "fr_server r = None \<or> mg_server_source st = [] \<longleftrightarrow> server_count (rs @ [r]) \<le> 1"
    using inv ok by (auto simp: merge_inv_def mergeable_def)
  have "mergeable (rs @ [r]) \<longleftrightarrow>
      (fr_server r = None \<or> mg_server_source st = []) \<and>
      distinct (map me_name (fr_menus r)) \<and> (\<forall>m \<in> set (fr_menus r). map_of (mg_seen_menus st) (me_name m) = None) \<and>
      distinct (map mac_key (plain_clients cs)) \<and>
      (\<forall>c \<in> set (plain_clients cs). map_of (mg_seen_macs st) (mac_key c) = None) \<and>
      (filter client_is_wildcard cs = [] \<or>
         mg_wildcard_count st + int (length (filter client_is_wildcard cs)) \<le> 1)"
    unfolding seen server wild using ok
    by (simp add: mergeable_def cs_def del: set_filter)
  with iff show "(\<exists>st'. merge_file r st = Inr st') \<longleftrightarrow> mergeable (rs @ [r])" by auto
  have "merge_inv (rs @ [r]) st4"
    using inv name unfolding merge_inv_def
    by (auto simp: st4_def st3_def st2_def st1_def merge_services_def cs_def merged_def map_of_fold_put)
  moreover have "st' = st4" if "merge_file r st = Inr st'" using that iff [of st'] by simp
  ultimately show "merge_file r st = Inr st' \<Longrightarrow> merge_inv (rs @ [r]) st'" by simp
qed

lemma merge_files_iff:
  assumes "\<forall>r \<in> set rs. fr_filename r \<noteq> []"
  shows "case fold_err merge_file rs merge_start of
      Inl _ \<Rightarrow> \<not> mergeable rs | Inr st \<Rightarrow> mergeable rs \<and> merge_inv rs st"
  using assms
proof (induction rs rule: rev_induct)
  case Nil
  then show ?case by (simp add: merge_inv_start mergeable_def)
next
  case (snoc r rs)
  have mono: "mergeable (rs @ [r]) \<Longrightarrow> mergeable rs" by (auto simp: mergeable_def split: if_splits)
  show ?case
  proof (cases "fold_err merge_file rs merge_start")
    case (Inl e)
    with snoc mono show ?thesis by (auto simp: fold_err_append)
  next
    case (Inr st)
    with snoc have inv: "mergeable rs" "merge_inv rs st" "fr_filename r \<noteq> []" by simp_all
    from merge_file_step [OF inv(2,1,3)] Inr show ?thesis
      by (auto simp: fold_err_append sum_bind_Inr_iff split: sum.splits)
  qed
qed

lemma check_entries_None:
  "first_error (\<lambda>c. first_error (check_entry rng seen c) (mc_entries (cl_menu c))) cs = None \<longleftrightarrow>
     (\<forall>c \<in> set cs. \<forall>e \<in> set (mc_entries (cl_menu c)). map_of seen e \<noteq> None)"
  by (simp add: check_entry_def)

definition used_entries :: "client list \<Rightarrow> string set" where
  "used_entries cs = set (concat (map (\<lambda>c. mc_entries (cl_menu c)) cs))"

lemma merge_results_iff:
  assumes "[] \<notin> set (map fr_filename rs)"
  shows "merge_results rng rs = Inr cfg \<longleftrightarrow>
    mergeable rs \<and> server_count rs = 1 \<and>
    used_entries (all_clients rs) \<subseteq> set (map me_name (all_menus rs)) \<and> cfg = merged rs"
proof -
  have names: "\<forall>r \<in> set rs. fr_filename r \<noteq> []" using assms by (metis image_eqI set_map)
  show ?thesis
  proof (cases "fold_err merge_file rs merge_start")
    case (Inl e)
    with merge_files_iff [OF names] show ?thesis
      by (auto simp: merge_results_def)
  next
    case (Inr st)
    with merge_files_iff [OF names] have ok: "mergeable rs" and inv: "merge_inv rs st" by auto
    have server: "mg_server_source st = [] \<longleftrightarrow> server_count rs \<noteq> 1"
      using ok inv by (auto simp: mergeable_def merge_inv_def)
    have cfg: "mg_cfg st = merged rs" and seen: "\<And>k. map_of (mg_seen_menus st) k = None \<longleftrightarrow> k \<notin> me_name ` set (all_menus rs)"
      using inv by (simp_all add: merge_inv_def)
    have entries: "first_error (\<lambda>c. first_error (check_entry rng (mg_seen_menus st) c) (mc_entries (cl_menu c)))
        (fc_clients (mg_cfg st)) = None \<longleftrightarrow> used_entries (all_clients rs) \<subseteq> set (map me_name (all_menus rs))"
      unfolding check_entries_None cfg seen by (auto simp: merged_def used_entries_def)
    show ?thesis
      using entries unfolding merge_results_def Inr sum_bind_simps server cfg
      by (cases "first_error (\<lambda>c. first_error (check_entry rng (mg_seen_menus st) c) (mc_entries (cl_menu c)))
            (fc_clients (merged rs))")
         (auto simp: ok simp del: first_error_None_iff)
  qed
qed

section \<open>A loaded configuration\<close>

text \<open>What holds across the files: the references are resolved and the keys are unique.\<close>

definition consistent :: "full_config \<Rightarrow> bool" where
  "consistent cfg \<longleftrightarrow>
     distinct (map me_name (fc_menus cfg)) \<and>
     distinct (map mac_key (plain_clients (fc_clients cfg))) \<and>
     length (filter client_is_wildcard (fc_clients cfg)) \<le> 1 \<and>
     used_entries (fc_clients cfg) \<subseteq> set (map me_name (fc_menus cfg)) \<and>
     (\<forall>c \<in> set (fc_clients cfg). \<exists>bs. cl_mac c = Some bs \<and> mac_len_ok (length bs))"

lemma path_join_name_ne: "name \<noteq> [] \<Longrightarrow> path_join [dir, name] \<noteq> []"
  by (auto simp: path_join_def split: list.split)

lemma has_suffix_ne: "has_suffix s p \<Longrightarrow> p \<noteq> [] \<Longrightarrow> s \<noteq> []"
  by (auto simp: has_suffix_iff)

lemma toml_files_ne: "f \<in> set (toml_files dir entries) \<Longrightarrow> f \<noteq> []"
  by (auto simp: toml_files_def path_join_name_ne dest!: has_suffix_ne)

lemma load_dir_Inr:
  assumes "load_dir rng unmarshal fs dir = Inr cfg"
  obtains entries rs where "os_read_dir fs dir = Some entries"
    and "traverse (\<lambda>_. parse_file (os_read_file fs) unmarshal) 0 (sort (toml_files dir entries)) = Inr rs"
    and "[] \<notin> set (map fr_filename rs)"
    and "mergeable rs" "server_count rs = 1"
    and "used_entries (all_clients rs) \<subseteq> set (map me_name (all_menus rs))"
    and "cfg = resolve_paths (fs_cwd fs) (merged rs) dir"
proof -
  obtain entries rs c where *: "os_read_dir fs dir = Some entries"
    "traverse (\<lambda>_. parse_file (os_read_file fs) unmarshal) 0 (sort (toml_files dir entries)) = Inr rs"
    "merge_results rng rs = Inr c" "cfg = resolve_paths (fs_cwd fs) c dir"
    using assms by (auto simp: load_dir_def Let_def sum_bind_Inr_iff
        split: option.splits fs_node.splits if_splits)
  have "fr_filename r \<noteq> []" if "r \<in> set rs" for r
  proof -
    from that obtain k where k: "k < length rs" "rs ! k = r" by (auto simp: in_set_conv_nth)
    with traverse_Inr [OF *(2)] have "parse_file (os_read_file fs) unmarshal (sort (toml_files dir entries) ! k) = Inr r"
      "k < length (sort (toml_files dir entries))" by auto
    then show ?thesis using toml_files_ne parse_file_filename by (metis nth_mem set_sort)
  qed
  then have ne: "[] \<notin> set (map fr_filename rs)" by (metis imageE set_map)
  have "mergeable rs" "server_count rs = 1" "used_entries (all_clients rs) \<subseteq> set (map me_name (all_menus rs))"
    "c = merged rs"
    using merge_results_iff [OF ne, of rng c] *(3) by simp_all
  with *(1,2,4) ne show ?thesis by (intro that [of entries rs]) simp_all
qed

lemma resolve_paths_frame [simp]:
  "fc_menus (resolve_paths cwd cfg dir) = fc_menus cfg" "fc_clients (resolve_paths cwd cfg dir) = fc_clients cfg"
  by (simp_all add: resolve_paths_def Let_def)

lemma load_dir_consistent:
  assumes "load_dir rng unmarshal fs dir = Inr cfg"
  shows "consistent cfg"
proof -
  obtain entries rs where *: 
    "traverse (\<lambda>_. parse_file (os_read_file fs) unmarshal) 0 (sort (toml_files dir entries)) = Inr rs"
    "mergeable rs" "used_entries (all_clients rs) \<subseteq> set (map me_name (all_menus rs))"
    "cfg = resolve_paths (fs_cwd fs) (merged rs) dir"
    using load_dir_Inr [OF assms] by metis
  have "\<exists>bs. cl_mac c = Some bs \<and> mac_len_ok (length bs)" if c: "c \<in> set (all_clients rs)" for c
  proof -
    from c obtain r where "r \<in> set rs" "c \<in> set (fr_clients r)" by (auto simp: all_clients_def)
    with traverse_Inr [OF *(1)] show ?thesis
      by (auto simp: in_set_conv_nth) (metis nth_mem parse_file_clients_mac)
  qed
  with * show ?thesis
    by (simp add: consistent_def mergeable_def merged_def)
qed

lemma last_section_last: "last_section f d rs = last (d # List.map_filter f rs)"
  by (induction rs rule: rev_induct) (auto simp: last_section_def List.map_filter_def assign_def split: option.split)

text \<open>The server section of the directory, in the one file that has it.\<close>

lemma one_server:
  assumes "server_count rs = 1"
  obtains srv where "List.map_filter fr_server rs = [srv]" and "fc_server (merged rs) = srv"
proof -
  have "length (List.map_filter fr_server rs) = 1" using assms by (simp add: server_count_def List.map_filter_def)
  then obtain srv where "List.map_filter fr_server rs = [srv]" by (auto simp: length_Suc_conv)
  with that show ?thesis by (simp add: merged_def last_section_last)
qed

section \<open>Properties\<close>

text \<open>A directory with one file.\<close>

definition sample_raw :: raw_file where
  "sample_raw =
     \<lparr>rf_server = Some \<lparr>rs_interface = ''eth0'', rs_data_dir = ''data'',
        rs_logging = \<lparr>rl_level = ''info'', rl_format = []\<rparr>\<rparr>,
      rf_dhcp_proxy = None,
      rf_tftp = Some \<lparr>rt_enabled = None, rt_port = 69, rt_block_size = 512, rt_timeout = [], rt_retries = 0\<rparr>,
      rf_http = None, rf_health = None,
      rf_bootloader = Some \<lparr>rbl_dir = ''bootloader'', rbl_uefix64 = ''ipxe.efi'', rbl_uefix86 = [],
        rbl_bios = [], rbl_arm64 = [], rbl_chain_url = ''http://x/menu.ipxe''\<rparr>,
      rf_menu = [\<lparr>rm_name = ''rescue'', rm_label = ''Rescue'', rm_description = [], rm_type = ''live'',
        rm_http = None,
        rm_boot = Some \<lparr>rb_kernel = ''vmlinuz'', rb_initrd = [], rb_cmdline = [], rb_loader = [],
          rb_files = [], rb_binary = [], rb_image = [], rb_chain = []\<rparr>\<rparr>],
      rf_client = [\<lparr>rc_mac = ''*'', rc_name = ''default'', rc_enabled = None,
        rc_menu = \<lparr>rmc_entries = [''rescue''], rmc_default = [], rmc_timeout = 0\<rparr>,
        rc_bootloader = None, rc_vars = None\<rparr>]\<rparr>"

definition sample_unmarshal :: "string \<Rightarrow> string + raw_file" where
  "sample_unmarshal data = (if data = ''sample'' then Inr sample_raw else Inl ''unexpected'')"

definition sample_fs :: file_system where
  "sample_fs = \<lparr>fs_cwd = ''/srv'', fs_nodes = [(''/'', DirNode), (''/srv'', DirNode), (''/srv/etc'', DirNode),
     (''/srv/etc/b.toml'', FileNode ''sample''), (''/srv/etc/old'', DirNode), (''/srv/etc/notes'', FileNode [])]\<rparr>"

definition sample_result :: file_result where
  "sample_result =
     (case convert_file ''a.toml'' sample_raw of Inr r \<Rightarrow> r | Inl _ \<Rightarrow> undefined)"

text \<open>C7 (merge_spec). \<open>merge\<close> accepts the files exactly where together they have one server
  section, no menu name twice, no MAC address twice, at most one wildcard client and no
  client that names a missing menu entry. The result has the menus and the clients of all
  files in their order, and of every other section the one of the last file that has it.\<close>

theorem merge_spec:
  assumes "[] \<notin> set (map fr_filename rs)"
  shows "merge_results rng rs = Inr cfg \<longleftrightarrow>
    server_count rs = 1 \<and>
    distinct (map me_name (all_menus rs)) \<and>
    distinct (map (\<lambda>c. mac_string (cl_mac c)) (filter (\<lambda>c. \<not> client_is_wildcard c) (all_clients rs))) \<and>
    length (filter client_is_wildcard (all_clients rs)) \<le> 1 \<and>
    used_entries (all_clients rs) \<subseteq> set (map me_name (all_menus rs)) \<and>
    cfg = \<lparr>fc_server = last_section fr_server (fc_server empty_full_config) rs,
      fc_dhcp_proxy = last_section fr_dhcp_proxy (fc_dhcp_proxy empty_full_config) rs,
      fc_tftp = last_section fr_tftp (fc_tftp empty_full_config) rs,
      fc_http = last_section fr_http (fc_http empty_full_config) rs,
      fc_health = last_section fr_health (fc_health empty_full_config) rs,
      fc_bootloader = last_section fr_bootloader (fc_bootloader empty_full_config) rs,
      fc_menus = all_menus rs, fc_clients = all_clients rs\<rparr>"
  using merge_results_iff [OF assms] by (auto simp: mergeable_def merged_def)

theorem merge_spec_witness:
  "\<exists>cfg. merge_results (\<lambda>m. m) [sample_result] = Inr cfg \<and> fc_menus cfg = fr_menus sample_result"
proof -
  have "[] \<notin> set (map fr_filename [sample_result])" by code_simp
  note spec = merge_spec [OF this, of "\<lambda>m. m"]
  have "server_count [sample_result] = 1" by code_simp
  moreover have "distinct (map me_name (all_menus [sample_result]))" by code_simp
  moreover have "distinct (map (\<lambda>c. mac_string (cl_mac c))
      (filter (\<lambda>c. \<not> client_is_wildcard c) (all_clients [sample_result])))" by code_simp
  moreover have "length (filter client_is_wildcard (all_clients [sample_result])) \<le> 1" by code_simp
  moreover have "used_entries (all_clients [sample_result]) \<subseteq> set (map me_name (all_menus [sample_result]))"
    by code_simp
  moreover have "all_menus [sample_result] = fr_menus sample_result" by (simp add: all_menus_def)
  ultimately show ?thesis unfolding spec by simp
qed

text \<open>C26 (loaded_config_consistent). A configuration that \<open>LoadDir\<close> returns has unique menu
  names and MAC addresses, at most one wildcard client, only references to existing menu
  entries, and only MAC addresses of 6, 8 or 20 bytes. Its data directory is the one of the only server section
  in the files: as it was written where that is absolute or empty, and otherwise the path below the
  directory of the configuration, made absolute from the working directory and clean.\<close>

theorem loaded_config_consistent:
  assumes "load_dir rng unmarshal fs dir = Inr cfg" and "path_is_abs (fs_cwd fs)"
  shows "distinct (map me_name (fc_menus cfg)) \<and>
    distinct (map (\<lambda>c. mac_string (cl_mac c)) (filter (\<lambda>c. \<not> client_is_wildcard c) (fc_clients cfg))) \<and>
    length (filter client_is_wildcard (fc_clients cfg)) \<le> 1 \<and>
    used_entries (fc_clients cfg) \<subseteq> set (map me_name (fc_menus cfg)) \<and>
    list_all (\<lambda>c. \<exists>bs. cl_mac c = Some bs \<and> mac_len_ok (length bs)) (fc_clients cfg) \<and>
    (sc_data_dir (fc_server cfg) = [] \<or> path_is_abs (sc_data_dir (fc_server cfg))) \<and>
    (\<exists>entries rs srv. os_read_dir fs dir = Some entries \<and>
       traverse (\<lambda>_. parse_file (os_read_file fs) unmarshal) 0 (sort (toml_files dir entries)) = Inr rs \<and>
       List.map_filter fr_server rs = [srv] \<and>
       (if sc_data_dir srv = [] \<or> path_is_abs (sc_data_dir srv) then fc_server cfg = srv
        else \<exists>es. list_all elem_ok es \<and> abs_path es = path_abs (fs_cwd fs) (path_join [dir, sc_data_dir srv]) \<and>
          fc_server cfg = srv\<lparr>sc_data_dir := abs_path es\<rparr>))"
proof -
  obtain entries rs where load: "os_read_dir fs dir = Some entries"
    "traverse (\<lambda>_. parse_file (os_read_file fs) unmarshal) 0 (sort (toml_files dir entries)) = Inr rs"
    "server_count rs = 1" "cfg = resolve_paths (fs_cwd fs) (merged rs) dir"
    using load_dir_Inr [OF assms(1)] by metis
  obtain srv where srv: "List.map_filter fr_server rs = [srv]" "fc_server (merged rs) = srv"
    using load(3) by (rule one_server)
  obtain es where es: "path_abs (fs_cwd fs) (path_join [dir, sc_data_dir srv]) = abs_path es" "\<forall>e \<in> set es. elem_ok e"
    using path_abs_cases [OF assms(2)] by metis
  have server: "if sc_data_dir srv = [] \<or> path_is_abs (sc_data_dir srv) then fc_server cfg = srv
      else \<exists>es. list_all elem_ok es \<and> abs_path es = path_abs (fs_cwd fs) (path_join [dir, sc_data_dir srv]) \<and>
        fc_server cfg = srv\<lparr>sc_data_dir := abs_path es\<rparr>"
    using es by (auto simp: load(4) resolve_paths_def srv(2) list_all_iff)
  moreover have "path_is_abs (path_abs (fs_cwd fs) (path_join [dir, sc_data_dir srv]))" using es(1) by simp
  ultimately have "sc_data_dir (fc_server cfg) = [] \<or> path_is_abs (sc_data_dir (fc_server cfg))"
    by (auto split: if_splits)
  with load_dir_consistent [OF assms(1)] load(1,2) srv(1) server show ?thesis
    by (simp add: consistent_def list_all_iff)
qed

theorem loaded_config_consistent_witness:
  "\<exists>cfg entries rs srv es. load_dir (\<lambda>m. m) sample_unmarshal sample_fs ''etc'' = Inr cfg \<and>
     os_read_dir sample_fs ''etc'' = Some entries \<and>
     traverse (\<lambda>_. parse_file (os_read_file sample_fs) sample_unmarshal) 0 (sort (toml_files ''etc'' entries)) = Inr rs \<and>
     List.map_filter fr_server rs = [srv] \<and> sc_data_dir srv = ''data'' \<and>
     sc_data_dir (fc_server cfg) = ''/srv/etc/data''"
proof -
  have "case load_dir (\<lambda>m. m) sample_unmarshal sample_fs ''etc'' of Inl _ \<Rightarrow> False | Inr cfg \<Rightarrow> True" by code_simp
  then obtain cfg where cfg: "load_dir (\<lambda>m. m) sample_unmarshal sample_fs ''etc'' = Inr cfg" by (auto split: sum.splits)
  have cwd: "path_is_abs (fs_cwd sample_fs)" by code_simp
  have srv: "case os_read_dir sample_fs ''etc'' of None \<Rightarrow> False | Some entries \<Rightarrow>
      (case traverse (\<lambda>_. parse_file (os_read_file sample_fs) sample_unmarshal) 0 (sort (toml_files ''etc'' entries)) of
         Inl _ \<Rightarrow> False | Inr rs \<Rightarrow> list_all (\<lambda>srv. sc_data_dir srv = ''data'') (List.map_filter fr_server rs))"
    by code_simp
  have path: "path_abs (fs_cwd sample_fs) (path_join [''etc'', ''data'']) = ''/srv/etc/data''"
    "\<not> path_is_abs ''data''" by code_simp+
  from loaded_config_consistent [OF cfg cwd] obtain entries rs srv where
    *: "os_read_dir sample_fs ''etc'' = Some entries"
    "traverse (\<lambda>_. parse_file (os_read_file sample_fs) sample_unmarshal) 0 (sort (toml_files ''etc'' entries)) = Inr rs"
    "List.map_filter fr_server rs = [srv]"
    "if sc_data_dir srv = [] \<or> path_is_abs (sc_data_dir srv) then fc_server cfg = srv
     else \<exists>es. list_all elem_ok es \<and> abs_path es = path_abs (fs_cwd sample_fs) (path_join [''etc'', sc_data_dir srv]) \<and>
       fc_server cfg = srv\<lparr>sc_data_dir := abs_path es\<rparr>" by blast
  with srv have data: "sc_data_dir srv = ''data''" by simp
  with *(4) path have "sc_data_dir (fc_server cfg) = ''/srv/etc/data''" by auto
  with cfg *(1-3) data show ?thesis by blast
qed

text \<open>The suggestion for a missing menu entry is an existing name with
  the highest similarity where some name reaches the threshold 3, and empty otherwise; which
  of several names with the highest similarity it is depends on the order in which Go visits
  the map.\<close>

lemma find_similar_best:
  assumes "range_order rng"
  shows "let best = find_similar rng target names; score = similarity (to_lower target) in
    (if list_ex (\<lambda>(n, _). 3 \<le> score n) names
     then best \<in> set (map fst names) \<and> 3 \<le> score best \<and> list_all (\<lambda>(n, _). score n \<le> score best) names
     else best = [])"
proof -
  obtain best s where f: "fold (better_match (to_lower target)) (rng names) ([], 0) = (best, s)"
    by fastforce
  then have best: "find_similar rng target names = best" by (simp add: find_similar_def)
  show ?thesis
    using better_matches [OF f] unfolding best range_order_set [OF assms] Let_def
    by (auto simp: list_ex_iff list_all_iff)
qed

lemma find_similar_best_example:
  "find_similar (\<lambda>m. m) ''rescu'' [(''local'', ''a''), (''Rescue'', ''a'')] \<in> {''local'', ''Rescue''}"
proof -
  have "list_ex (\<lambda>(n, _). 3 \<le> similarity (to_lower ''rescu'') n) [(''local'', ''a''), (''Rescue'', ''a'')]"
    by code_simp
  with find_similar_best [OF range_order_id, of "''rescu''" "[(''local'', ''a''), (''Rescue'', ''a'')]"]
  show ?thesis by (simp add: Let_def)
qed

end
