(* ===== verification/TomlWriter.thy ===== *)
theory TomlWriter
  imports TomlLoader
begin

text \<open>
  The writer of the configuration, \<open>internal/infra/toml/writer.go\<close>: the conversion back to the
  raw structs, the relative data directory and the file. \<open>toml.Marshal\<close>, from a third-party
  module, is the argument \<open>marshal\<close>. The main fact: a valid and consistent configuration
  that is written is loaded again, up to the parts the writer leaves out, which the
  definition \<open>stored\<close> lists, and it is valid again.
\<close>

section \<open>Writing\<close>

definition make_relative :: "string \<Rightarrow> string \<Rightarrow> string \<Rightarrow> string" where
  "make_relative cwd path base_dir =
     (if path = [] \<or> \<not> path_is_abs path then path
      else case path_rel (path_abs cwd base_dir) path of
             None \<Rightarrow> path
           | Some rel \<Rightarrow> rel)"

definition raw_timeout :: "int \<Rightarrow> string" where
  "raw_timeout d = (if d > 0 then duration_string d else [])"

definition raw_of_dhcp_proxy :: "dhcp_proxy_config \<Rightarrow> raw_dhcp_proxy option" where
  "raw_of_dhcp_proxy c =
     (if dp_port c > 0 \<or> dp_enabled c
      then Some \<lparr>rd_enabled = Some (dp_enabled c), rd_port = dp_port c,
                 rd_proxy_port = dp_proxy_port c, rd_vendor_class = dp_vendor_class c\<rparr>
      else None)"

definition raw_of_tftp :: "tftp_config \<Rightarrow> raw_tftp option" where
  "raw_of_tftp c =
     (if tc_port c > 0 \<or> tc_enabled c
      then Some \<lparr>rt_enabled = Some (tc_enabled c), rt_port = tc_port c, rt_block_size = tc_block_size c,
                 rt_timeout = raw_timeout (tc_timeout c), rt_retries = tc_retries c\<rparr>
      else None)"

definition raw_of_http :: "http_config \<Rightarrow> raw_http option" where
  "raw_of_http c =
     (if hc_port c > 0 \<or> hc_enabled c
      then Some \<lparr>rh_enabled = Some (hc_enabled c), rh_port = hc_port c,
                 rh_read_timeout = raw_timeout (hc_read_timeout c),
                 rh_tls = (if tls_enabled (hc_tls c)
                    then Some \<lparr>rtls_enabled = tls_enabled (hc_tls c), rtls_cert = tls_cert (hc_tls c),
                               rtls_key = tls_key (hc_tls c)\<rparr>
                    else None)\<rparr>
      else None)"

definition raw_of_health :: "health_config \<Rightarrow> raw_health option" where
  "raw_of_health c =
     (if he_enabled c \<or> he_interval c > 0
      then Some \<lparr>rhe_enabled = Some (he_enabled c), rhe_interval = raw_timeout (he_interval c),
                 rhe_startup_check = Some (he_startup_check c)\<rparr>
      else None)"

definition empty_raw_boot :: raw_boot where
  "empty_raw_boot = \<lparr>rb_kernel = [], rb_initrd = [], rb_cmdline = [], rb_loader = [], rb_files = [],
     rb_binary = [], rb_image = [], rb_chain = []\<rparr>"

definition raw_of_menu :: "menu_entry \<Rightarrow> raw_menu" where
  "raw_of_menu m =
     \<lparr>rm_name = me_name m, rm_label = me_label m, rm_description = me_description m,
      rm_type = menu_type_string (me_type m),
      rm_http = (let h = me_http m in
         if mh_path h \<noteq> [] \<or> mh_files h \<noteq> [] \<or> mh_upstream h \<noteq> []
         then Some \<lparr>rhs_files = mh_files h, rhs_path = mh_path h, rhs_upstream = mh_upstream h\<rparr>
         else None),
      rm_boot = (let b = me_boot m in case me_type m of
           MenuExit \<Rightarrow> None
         | MenuChain \<Rightarrow> Some (empty_raw_boot\<lparr>rb_chain := bp_chain b\<rparr>)
         | _ \<Rightarrow> Some (empty_raw_boot\<lparr>rb_kernel := bp_kernel b, rb_initrd := bp_initrd b,
                rb_cmdline := bp_cmdline b, rb_loader := bp_loader b, rb_files := bp_files b,
                rb_binary := bp_binary b, rb_image := bp_image b\<rparr>))\<rparr>"

definition raw_of_client :: "client \<Rightarrow> raw_client" where
  "raw_of_client c =
     \<lparr>rc_mac = (if client_is_wildcard c then ''*'' else mac_string (cl_mac c)),
      rc_name = cl_name c, rc_enabled = Some (cl_enabled c),
      rc_menu = \<lparr>rmc_entries = mc_entries (cl_menu c), rmc_default = mc_default (cl_menu c),
                 rmc_timeout = mc_timeout (cl_menu c)\<rparr>,
      rc_bootloader = None, rc_vars = cl_vars c\<rparr>"

definition config_to_raw :: "full_config \<Rightarrow> raw_file" where
  "config_to_raw cfg =
     \<lparr>rf_server = Some \<lparr>rs_interface = sc_interface (fc_server cfg), rs_data_dir = sc_data_dir (fc_server cfg),
        rs_logging = \<lparr>rl_level = lc_level (sc_logging (fc_server cfg)),
                      rl_format = lc_format (sc_logging (fc_server cfg))\<rparr>\<rparr>,
      rf_dhcp_proxy = raw_of_dhcp_proxy (fc_dhcp_proxy cfg),
      rf_tftp = raw_of_tftp (fc_tftp cfg),
      rf_http = raw_of_http (fc_http cfg),
      rf_health = raw_of_health (fc_health cfg),
      rf_bootloader = (let b = fc_bootloader cfg in
         Some \<lparr>rbl_dir = bl_dir b, rbl_uefix64 = bl_uefix64 b, rbl_uefix86 = bl_uefix86 b,
               rbl_bios = bl_bios b, rbl_arm64 = bl_arm64 b, rbl_chain_url = bl_chain_url b\<rparr>),
      rf_menu = map raw_of_menu (fc_menus cfg),
      rf_client = map raw_of_client (fc_clients cfg)\<rparr>"

datatype write_error = MarshalError string | WritingFile string

definition config_path :: "string \<Rightarrow> string" where
  "config_path dir = path_join [dir, ''bootforge.toml'']"

definition write_config ::
  "(raw_file \<Rightarrow> string + string) \<Rightarrow> full_config \<Rightarrow> string \<Rightarrow> file_system \<Rightarrow> write_error + file_system" where
  "write_config marshal cfg dir fs =
     (let d = make_relative (fs_cwd fs) (sc_data_dir (fc_server cfg)) dir;
          write_cfg = cfg\<lparr>fc_server := (fc_server cfg)\<lparr>sc_data_dir := d\<rparr>\<rparr>
      in sum_bind (wrap_error MarshalError (marshal (config_to_raw write_cfg))) (\<lambda>data.
         case os_write_file (config_path dir) data fs of
           None \<Rightarrow> Inl (WritingFile (config_path dir))
         | Some fs' \<Rightarrow> Inr fs'))"

section \<open>What is read back\<close>

text \<open>The configuration without the parts the writer leaves out.\<close>

definition stored_dhcp_proxy :: "dhcp_proxy_config \<Rightarrow> dhcp_proxy_config" where
  "stored_dhcp_proxy c =
     (if dp_port c > 0 \<or> dp_enabled c then c else fc_dhcp_proxy empty_full_config)"

definition stored_tftp :: "tftp_config \<Rightarrow> tftp_config" where
  "stored_tftp c =
     (if tc_port c > 0 \<or> tc_enabled c then c\<lparr>tc_timeout := max 0 (tc_timeout c)\<rparr>
      else fc_tftp empty_full_config)"

definition stored_http :: "http_config \<Rightarrow> http_config" where
  "stored_http c =
     (if hc_port c > 0 \<or> hc_enabled c
      then c\<lparr>hc_read_timeout := max 0 (hc_read_timeout c),
             hc_tls := (if tls_enabled (hc_tls c) then hc_tls c else hc_tls (fc_http empty_full_config))\<rparr>
      else fc_http empty_full_config)"

definition stored_health :: "health_config \<Rightarrow> health_config" where
  "stored_health c =
     (if he_enabled c \<or> he_interval c > 0 then c\<lparr>he_interval := max 0 (he_interval c)\<rparr>
      else fc_health empty_full_config)"

definition stored_menu :: "string \<Rightarrow> menu_entry \<Rightarrow> menu_entry" where
  "stored_menu path m =
     m\<lparr>me_source := path,
       me_boot := (case me_type m of
           MenuExit \<Rightarrow> empty_boot_params
         | MenuChain \<Rightarrow> empty_boot_params\<lparr>bp_chain := bp_chain (me_boot m)\<rparr>
         | _ \<Rightarrow> (me_boot m)\<lparr>bp_chain := []\<rparr>)\<rparr>"

definition stored_client :: "string \<Rightarrow> client \<Rightarrow> client" where
  "stored_client path c = c\<lparr>cl_source := path, cl_bootloader := None\<rparr>"

definition stored :: "string \<Rightarrow> full_config \<Rightarrow> full_config" where
  "stored path cfg =
     \<lparr>fc_server = fc_server cfg,
      fc_dhcp_proxy = stored_dhcp_proxy (fc_dhcp_proxy cfg), fc_tftp = stored_tftp (fc_tftp cfg),
      fc_http = stored_http (fc_http cfg), fc_health = stored_health (fc_health cfg),
      fc_bootloader = fc_bootloader cfg,
      fc_menus = map (stored_menu path) (fc_menus cfg),
      fc_clients = map (stored_client path) (fc_clients cfg)\<rparr>"

text \<open>Durations are 64-bit numbers.\<close>

definition durations_ok :: "full_config \<Rightarrow> bool" where
  "durations_ok cfg \<longleftrightarrow>
     tc_timeout (fc_tftp cfg) < 2 ^ 63 \<and> hc_read_timeout (fc_http cfg) < 2 ^ 63 \<and>
     he_interval (fc_health cfg) < 2 ^ 63"

lemma parse_raw_timeout:
  assumes "d < 2 ^ 63"
  shows "parse_timeout field (raw_timeout d) = Inr (max 0 d)"
proof (cases "d > 0")
  case True
  obtain n t where "magnitude_string (nat d) = dec_of_nat n @ t" using magnitude_shape by blast
  with True have "duration_string d \<noteq> []" by (simp add: duration_string_def)
  with True ParseDuration_duration_string [of d] assms show ?thesis
    by (simp add: parse_timeout_def raw_timeout_def)
next
  case False
  then show ?thesis by (simp add: parse_timeout_def raw_timeout_def)
qed

lemma convert_raw_sections:
  "map_option convert_dhcp_proxy (raw_of_dhcp_proxy dp) =
     (if dp_port dp > 0 \<or> dp_enabled dp then Some (stored_dhcp_proxy dp) else None)"
  "tc_timeout tc < 2 ^ 63 \<Longrightarrow> convert_section path convert_tftp (raw_of_tftp tc) =
     Inr (if tc_port tc > 0 \<or> tc_enabled tc then Some (stored_tftp tc) else None)"
  "hc_read_timeout hc < 2 ^ 63 \<Longrightarrow> convert_section path convert_http (raw_of_http hc) =
     Inr (if hc_port hc > 0 \<or> hc_enabled hc then Some (stored_http hc) else None)"
  "he_interval he < 2 ^ 63 \<Longrightarrow> convert_section path convert_health (raw_of_health he) =
     Inr (if he_enabled he \<or> he_interval he > 0 then Some (stored_health he) else None)"
  by (simp_all add: raw_of_dhcp_proxy_def convert_dhcp_proxy_def stored_dhcp_proxy_def bool_default_def
      raw_of_tftp_def convert_section_def convert_tftp_def parse_raw_timeout stored_tftp_def
      raw_of_http_def convert_http_def stored_http_def empty_full_config_def
      raw_of_health_def convert_health_def stored_health_def)

lemma convert_raw_menu:
  assumes "\<And>i. me_type m \<noteq> MenuTypeOther i"
  shows "convert_menu (raw_of_menu m) path = Inr (stored_menu path m)"
proof -
  have "menu_type_string (me_type m) \<noteq> []" by (cases "me_type m") simp_all
  moreover have "ParseMenuType (menu_type_string (me_type m)) = Inr (me_type m)"
    using assms by (cases "me_type m") (auto simp del: menu_type_string.simps)
  moreover have "(case rm_http (raw_of_menu m) of None \<Rightarrow> empty_menu_http
      | Some h \<Rightarrow> \<lparr>mh_files = rhs_files h, mh_path = rhs_path h, mh_upstream = rhs_upstream h\<rparr>) = me_http m"
    by (cases "me_http m") (simp add: raw_of_menu_def Let_def empty_menu_http_def)
  moreover have "(case rm_boot (raw_of_menu m) of None \<Rightarrow> empty_boot_params
      | Some b \<Rightarrow> \<lparr>bp_kernel = rb_kernel b, bp_initrd = rb_initrd b, bp_cmdline = rb_cmdline b,
          bp_loader = rb_loader b, bp_files = rb_files b, bp_binary = rb_binary b,
          bp_image = rb_image b, bp_chain = rb_chain b\<rparr>) = me_boot (stored_menu path m)"
    by (cases "me_type m"; cases "me_boot m")
       (simp_all add: raw_of_menu_def stored_menu_def Let_def empty_raw_boot_def empty_boot_params_def)
  moreover have "rm_name (raw_of_menu m) = me_name m" "rm_label (raw_of_menu m) = me_label m"
    "rm_description (raw_of_menu m) = me_description m" "rm_type (raw_of_menu m) = menu_type_string (me_type m)"
    by (simp_all add: raw_of_menu_def)
  ultimately show ?thesis
    unfolding convert_menu_def by (cases m) (simp add: stored_menu_def)
qed

lemma convert_raw_client:
  assumes "cl_mac c = Some bs" and "mac_len_ok (length bs)"
  shows "convert_client (raw_of_client c) path = Inr (stored_client path c)"
proof -
  have "ParseMAC (if client_is_wildcard c then ''*'' else mac_string (cl_mac c)) = Inr (cl_mac c)"
  proof (cases "client_is_wildcard c")
    case True
    have "ParseMAC ''*'' = Inr WildcardMAC" by code_simp
    with True show ?thesis by (simp add: client_is_wildcard_iff)
  next
    case False
    with assms show ?thesis by (simp add: ParseMAC_bytes_string)
  qed
  then show ?thesis
    by (simp add: convert_client_def raw_of_client_def stored_client_def bool_default_def)
qed

lemma convert_stored:
  assumes "full_config_validate cfg = None" and "consistent cfg" and "durations_ok cfg"
  shows "\<exists>r. convert_file path (config_to_raw cfg) = Inr r \<and> fr_filename r = path \<and>
    server_count [r] = 1 \<and> merged [r] = stored path cfg \<and>
    all_menus [r] = map (stored_menu path) (fc_menus cfg) \<and>
    all_clients [r] = map (stored_client path) (fc_clients cfg)"
proof -
  have menus: "traverse (\<lambda>i rm. wrap_error (InMenu path i) (convert_menu rm path)) 0 (map raw_of_menu (fc_menus cfg)) =
      Inr (map (stored_menu path) (fc_menus cfg))"
  proof -
    have "convert_menu (raw_of_menu m) path = Inr (stored_menu path m)" if "m \<in> set (fc_menus cfg)" for m
      using that assms(1) by (intro convert_raw_menu) (auto simp: full_config_validate_None menu_entry_validate_None bootable_def)
    then show ?thesis by (intro traverse_map) simp
  qed
  have clients: "traverse (\<lambda>i rc. wrap_error (InClient path i) (convert_client rc path)) 0 (map raw_of_client (fc_clients cfg)) =
      Inr (map (stored_client path) (fc_clients cfg))"
  proof -
    have "convert_client (raw_of_client c) path = Inr (stored_client path c)" if "c \<in> set (fc_clients cfg)" for c
      using that assms(2) convert_raw_client by (fastforce simp: consistent_def)
    then show ?thesis by (intro traverse_map) simp
  qed
  show ?thesis
    using assms(3) menus clients convert_raw_sections(2-4)
    unfolding convert_file_def config_to_raw_def durations_ok_def
    by (simp add: convert_raw_sections(1) server_count_def merged_def last_section_def all_menus_def all_clients_def
        assign_def stored_def convert_server_def convert_bootloader_def Let_def
        stored_dhcp_proxy_def stored_tftp_def stored_http_def stored_health_def)
qed

lemma stored_client_simps [simp]:
  "client_is_wildcard (stored_client path c) = client_is_wildcard c"
  "cl_mac (stored_client path c) = cl_mac c" "cl_menu (stored_client path c) = cl_menu c"
  "me_name (stored_menu path m) = me_name m"
  by (simp_all add: client_is_wildcard_def stored_client_def stored_menu_def)

lemma stored_consistent: "consistent cfg \<Longrightarrow> consistent (stored path cfg)"
  by (simp add: consistent_def stored_def used_entries_def filter_map o_def)

lemma stored_valid:
  assumes "full_config_validate cfg = None"
  shows "full_config_validate (stored path cfg) = None"
  using assms
  by (auto simp: validates stored_def stored_dhcp_proxy_def stored_tftp_def stored_http_def
      stored_menu_def stored_client_def bootable_def empty_full_config_def split: menu_type.splits)

section \<open>The file written\<close>

definition fs_ok :: "file_system \<Rightarrow> bool" where
  "fs_ok fs \<longleftrightarrow> map_wf (fs_nodes fs) \<and> path_is_abs (fs_cwd fs) \<and>
     list_all (\<lambda>(p, _). p = abs_path (path_elems p) \<and> list_all elem_ok (path_elems p)) (fs_nodes fs)"

lemma distinct_singleton: "distinct xs \<Longrightarrow> set xs = {x} \<Longrightarrow> xs = [x]"
  by (metis distinct.simps(2) distinct_length_2_or_more empty_iff empty_set insert_iff list.exhaust
      list.set_intros(1) list.simps(15))

definition toml_node :: "string list \<Rightarrow> string \<times> fs_node \<Rightarrow> bool" where
  "toml_node base = (\<lambda>(p, n). path_elems p \<noteq> [] \<and> butlast (path_elems p) = base \<and> n \<noteq> DirNode \<and>
     has_suffix (last (path_elems p)) ''.toml'')"

lemma toml_files_eq:
  assumes "os_read_dir fs dir = Some entries"
  shows "mset (toml_files dir entries) =
    mset (map (\<lambda>(p, _). path_join [dir, last (path_elems p)])
      (filter (toml_node (path_elems (path_abs (fs_cwd fs) dir))) (fs_nodes fs)))"
proof -
  let ?B = "\<lambda>(p, _). path_elems p \<noteq> [] \<and> butlast (path_elems p) = path_elems (path_abs (fs_cwd fs) dir)"
  let ?g = "\<lambda>(p, n). (last (path_elems p), n = DirNode)"
  have entries: "entries = sort_key fst (map ?g (filter ?B (fs_nodes fs)))"
    using assms by (auto simp: os_read_dir_def Let_def split: option.splits fs_node.splits)
  have node: "toml_node (path_elems (path_abs (fs_cwd fs) dir)) =
      (\<lambda>x. ?B x \<and> (\<not> snd (?g x) \<and> has_suffix (fst (?g x)) ''.toml''))"
    by (auto simp: toml_node_def fun_eq_iff)
  show ?thesis
    unfolding toml_files_def entries node filter_filter [symmetric]
    by (simp add: mset_filter mset_map filter_mset_image_mset image_mset.compositionality o_def case_prod_beta'
        filter_filter_mset conj_assoc)
qed

lemma written_file:
  assumes fs: "fs_ok fs" and ds: "path_abs (fs_cwd fs) dir = abs_path ds" "\<forall>e \<in> set ds. elem_ok e"
    and ne: "dir \<noteq> []"
    and wr: "os_write_file (config_path dir) data fs = Some fs'"
  shows "fs_cwd fs' = fs_cwd fs" and "os_read_file fs' (config_path dir) = Some data"
    and "fs_lookup fs' dir = Some DirNode"
    and "fs_nodes fs' = AList.update (abs_path (ds @ [''bootforge.toml''])) (FileNode data) (fs_nodes fs)"
proof -
  have ok: "elem_ok ''bootforge.toml''" by (simp add: elem_ok_def slash_def)
  have cwd: "path_is_abs (fs_cwd fs)" using fs by (simp add: fs_ok_def)
  have key: "path_abs (fs_cwd fs) (config_path dir) = abs_path (ds @ [''bootforge.toml''])"
    unfolding config_path_def by (rule path_abs_child [OF cwd ds ne ok])
  have elems: "path_elems (abs_path (ds @ [''bootforge.toml''])) = ds @ [''bootforge.toml'']"
    using ds(2) ok by simp
  have ne_path: "config_path dir \<noteq> []" by (simp add: config_path_def path_join_name_ne)
  have fs': "fs' = fs\<lparr>fs_nodes := AList.update (abs_path (ds @ [''bootforge.toml''])) (FileNode data) (fs_nodes fs)\<rparr>"
    and dir: "map_of (fs_nodes fs) (abs_path ds) = Some DirNode"
    using wr unfolding os_write_file_def Let_def key elems by (auto split: if_splits)
  show "fs_cwd fs' = fs_cwd fs" "fs_nodes fs' = AList.update (abs_path (ds @ [''bootforge.toml''])) (FileNode data) (fs_nodes fs)"
    by (simp_all add: fs')
  show "os_read_file fs' (config_path dir) = Some data"
    by (simp add: os_read_file_def fs_lookup_def ne_path fs' key)
  have "abs_path ds \<noteq> abs_path (ds @ [''bootforge.toml''])"
    using ds(2) elems by (metis append_self_conv list.discI path_elems_abs_path)
  then show "fs_lookup fs' dir = Some DirNode"
    using dir by (simp add: fs_lookup_def ne fs' ds(1))
qed

lemma only_toml_file:
  assumes fs: "fs_ok fs" and ds: "path_abs (fs_cwd fs) dir = abs_path ds" "\<forall>e \<in> set ds. elem_ok e"
    and ne: "dir \<noteq> []"
    and wr: "os_write_file (config_path dir) data fs = Some fs'"
    and old: "os_read_dir fs dir = Some entries" "set (toml_files dir entries) \<subseteq> {config_path dir}"
  shows "\<exists>entries'. os_read_dir fs' dir = Some entries' \<and> toml_files dir entries' = [config_path dir]"
proof -
  note w = written_file [OF fs ds ne wr]
  let ?key = "abs_path (ds @ [''bootforge.toml''])"
  have ok: "elem_ok ''bootforge.toml''" by (simp add: elem_ok_def slash_def)
  have cwd: "path_is_abs (fs_cwd fs)" using fs by (simp add: fs_ok_def)
  have base: "path_elems (path_abs (fs_cwd fs) dir) = ds" using ds by simp
  obtain entries' where e': "os_read_dir fs' dir = Some entries'"
    using w(3) by (simp add: os_read_dir_def)
  have key_elems: "path_elems ?key = ds @ [''bootforge.toml'']" using ds(2) ok by simp
  have key_node: "toml_node ds (?key, FileNode data)"
    by (simp add: toml_node_def key_elems has_suffix_def has_prefix_def)
  have other: "p = ?key" if pn: "(p, n) \<in> set (fs_nodes fs)" "toml_node ds (p, n)" for p n
  proof -
    from pn(1) fs have p: "p = abs_path (path_elems p)" "list_all elem_ok (path_elems p)"
      by (auto simp: fs_ok_def list_all_iff)
    from pn(2) have elems: "path_elems p = ds @ [last (path_elems p)]"
      by (auto simp: toml_node_def)
    with p(2) have name: "elem_ok (last (path_elems p))"
      by (metis append_is_Nil_conv last_in_set list.discI list_all_iff)
    have "path_join [dir, last (path_elems p)] \<in> set (toml_files dir entries)"
      using toml_files_eq [OF old(1)] pn unfolding base
      by (subst set_mset_mset [symmetric], subst toml_files_eq [OF old(1)]) (force simp: base)
    with old(2) have "path_join [dir, last (path_elems p)] = config_path dir" by blast
    then have "path_abs (fs_cwd fs) (path_join [dir, last (path_elems p)]) = ?key"
      unfolding config_path_def using path_abs_child [OF cwd ds ne ok] by simp
    with path_abs_child [OF cwd ds ne name] elems p(1) show ?thesis by simp
  qed
  have wf: "map_wf (fs_nodes fs')" using fs w(4) by (simp add: fs_ok_def)
  have "filter (toml_node ds) (fs_nodes fs') = [(?key, FileNode data)]"
  proof (rule distinct_singleton)
    show "distinct (filter (toml_node ds) (fs_nodes fs'))"
      using wf by (simp add: map_wf_def distinct_map)
    show "set (filter (toml_node ds) (fs_nodes fs')) = {(?key, FileNode data)}"
    proof (intro equalityI subsetI)
      fix x
      assume x: "x \<in> set (filter (toml_node ds) (fs_nodes fs'))"
      obtain p n where pn: "x = (p, n)" by (cases x)
      with x wf have "map_of (fs_nodes fs') p = Some n" by (auto simp: map_wf_set)
      with w(4) have "(p = ?key \<and> n = FileNode data) \<or> map_of (fs_nodes fs) p = Some n"
        by (auto split: if_splits)
      then consider "p = ?key" "n = FileNode data" | "(p, n) \<in> set (fs_nodes fs)" "toml_node ds (p, n)"
        using x pn by (auto dest: map_of_SomeD)
      then show "x \<in> {(?key, FileNode data)}"
      proof cases
        case 1
        then show ?thesis by (simp add: pn)
      next
        case 2
        then have "p = ?key" by (rule other)
        with \<open>map_of (fs_nodes fs') p = Some n\<close> w(4) show ?thesis by (simp add: pn)
      qed
    next
      fix x
      assume "x \<in> {(?key, FileNode data)}"
      then show "x \<in> set (filter (toml_node ds) (fs_nodes fs'))"
        using wf key_node w(4) by (auto simp: map_wf_set)
    qed
  qed
  then have "mset (toml_files dir entries') = mset [path_join [dir, ''bootforge.toml'']]"
    using toml_files_eq [OF e'] w(1) base key_elems by simp
  then show ?thesis using e' by (simp add: config_path_def)
qed

section \<open>Writing and loading\<close>

text \<open>The data directory a configuration has after it was loaded.\<close>

definition loaded_data_dir :: "string \<Rightarrow> string \<Rightarrow> string \<Rightarrow> string" where
  "loaded_data_dir cwd dir d = path_abs cwd (if path_is_abs d then d else path_join [dir, d])"

definition with_data_dir :: "full_config \<Rightarrow> string \<Rightarrow> full_config" where
  "with_data_dir cfg d = cfg\<lparr>fc_server := (fc_server cfg)\<lparr>sc_data_dir := d\<rparr>\<rparr>"

lemma with_data_dir_simps [simp]:
  "fc_menus (with_data_dir cfg d) = fc_menus cfg" "fc_clients (with_data_dir cfg d) = fc_clients cfg"
  "fc_dhcp_proxy (with_data_dir cfg d) = fc_dhcp_proxy cfg" "fc_tftp (with_data_dir cfg d) = fc_tftp cfg"
  "fc_http (with_data_dir cfg d) = fc_http cfg" "fc_health (with_data_dir cfg d) = fc_health cfg"
  "fc_bootloader (with_data_dir cfg d) = fc_bootloader cfg"
  "fc_server (with_data_dir cfg d) = (fc_server cfg)\<lparr>sc_data_dir := d\<rparr>"
  "stored path (with_data_dir cfg d) = with_data_dir (stored path cfg) d"
  "with_data_dir (with_data_dir cfg d) d' = with_data_dir cfg d'"
  "consistent (with_data_dir cfg d) = consistent cfg" "durations_ok (with_data_dir cfg d) = durations_ok cfg"
  by (simp_all add: with_data_dir_def stored_def consistent_def durations_ok_def)

lemma with_data_dir_valid:
  "full_config_validate cfg = None \<Longrightarrow> d \<noteq> [] \<Longrightarrow> full_config_validate (with_data_dir cfg d) = None"
  by (simp add: validates)

lemma make_relative_resolves:
  assumes "path_is_abs cwd" and "dir \<noteq> []" and "sc_data_dir (fc_server cfg) \<noteq> []"
  defines "d \<equiv> make_relative cwd (sc_data_dir (fc_server cfg)) dir"
  shows "d \<noteq> []" and "resolve_paths cwd (with_data_dir c d) dir =
    with_data_dir c (loaded_data_dir cwd dir (sc_data_dir (fc_server cfg)))"
proof -
  let ?p = "sc_data_dir (fc_server cfg)"
  have "d \<noteq> [] \<and> \<not> path_is_abs d \<and> path_abs cwd (path_join [dir, d]) = loaded_data_dir cwd dir ?p"
  proof (cases "path_is_abs ?p")
    case True
    from path_rel_join [OF assms(1,2) True] obtain r where
      "path_rel (path_abs cwd dir) ?p = Some r" "\<not> path_is_abs r" "r \<noteq> []"
      "path_abs cwd (path_join [dir, r]) = path_clean ?p" .
    with True assms(3) show ?thesis
      by (simp add: d_def make_relative_def loaded_data_dir_def path_abs_def [of cwd ?p])
  next
    case False
    with assms(3) show ?thesis by (simp add: d_def make_relative_def loaded_data_dir_def)
  qed
  then show "d \<noteq> []" and "resolve_paths cwd (with_data_dir c d) dir = with_data_dir c (loaded_data_dir cwd dir ?p)"
    by (simp_all add: resolve_paths_def Let_def with_data_dir_def)
qed

text \<open>C6 (write_load_roundtrip). A valid and consistent configuration that \<open>WriteConfig\<close> writes
  into a directory without other TOML files is what \<open>LoadDir\<close> reads there afterwards, valid
  and consistent again, except for what the writer leaves out: the boot loader overrides of
  the clients, boot parameters the type of an entry does not use, negative timeouts, and
  sections and TLS settings that are disabled. The data directory, which is written relative to the
  configuration, is the same absolute directory again. This relies on the TOML library
  reading what it wrote.\<close>

theorem write_load_roundtrip:
  assumes "full_config_validate cfg = None" and "consistent cfg" and "durations_ok cfg"
    and "fs_ok fs" and "dir \<noteq> []"
    and "os_read_dir fs dir = Some entries" and "set (toml_files dir entries) \<subseteq> {config_path dir}"
    and library: "\<And>raw data. marshal raw = Inr data \<Longrightarrow> unmarshal data = Inr raw"
    and written: "write_config marshal cfg dir fs = Inr fs'"
  defines "result \<equiv> with_data_dir (stored (config_path dir) cfg)
      (loaded_data_dir (fs_cwd fs) dir (sc_data_dir (fc_server cfg)))"
  shows "load_dir rng unmarshal fs' dir = Inr result \<and>
    full_config_validate result = None \<and> consistent result"
proof -
  let ?path = "config_path dir"
  define d where "d = make_relative (fs_cwd fs) (sc_data_dir (fc_server cfg)) dir"
  have cwd: "path_is_abs (fs_cwd fs)" using assms(4) by (simp add: fs_ok_def)
  obtain ds where ds: "path_abs (fs_cwd fs) dir = abs_path ds" "\<forall>e \<in> set ds. elem_ok e"
    using path_abs_cases [OF cwd] .
  have data_dir: "sc_data_dir (fc_server cfg) \<noteq> []" using assms(1) by (simp add: validates)
  note rel = make_relative_resolves [OF cwd assms(5) data_dir, folded d_def]
  from written obtain data where data: "marshal (config_to_raw (with_data_dir cfg d)) = Inr data"
    and wr: "os_write_file ?path data fs = Some fs'"
    by (auto simp: write_config_def Let_def d_def with_data_dir_def sum_bind_Inr_iff split: option.splits)
  note node = written_file [OF assms(4) ds assms(5) wr]
  obtain entries' where entries': "os_read_dir fs' dir = Some entries'" "toml_files dir entries' = [?path]"
    using only_toml_file [OF assms(4) ds assms(5) wr assms(6,7)] by blast
  obtain r where r: "convert_file ?path (config_to_raw (with_data_dir cfg d)) = Inr r"
    "fr_filename r = ?path" "server_count [r] = 1" "merged [r] = with_data_dir (stored ?path cfg) d"
    "all_menus [r] = map (stored_menu ?path) (fc_menus cfg)"
    "all_clients [r] = map (stored_client ?path) (fc_clients cfg)"
    using convert_stored [of "with_data_dir cfg d" ?path] assms(1-3) rel(1) by (auto simp: with_data_dir_valid)
  have parse: "parse_file (os_read_file fs') unmarshal ?path = Inr r"
    using node(2) library [OF data] r(1) by (simp add: parse_file_def)
  have cons: "consistent (stored ?path cfg)" using assms(2) by (rule stored_consistent)
  have "merge_results rng [r] = Inr (merged [r])"
  proof -
    have "[] \<notin> set (map fr_filename [r])" by (simp add: r(2) config_path_def path_join_name_ne [symmetric])
    moreover have "mergeable [r]"
      using cons unfolding mergeable_def r(3,5,6) by (simp add: consistent_def stored_def)
    moreover have "used_entries (all_clients [r]) \<subseteq> set (map me_name (all_menus [r]))"
      using cons unfolding r(5,6) by (simp add: consistent_def stored_def)
    ultimately show ?thesis using merge_results_iff [of "[r]" rng "merged [r]"] r(3) by blast
  qed
  then have "load_dir rng unmarshal fs' dir = Inr result"
    using node(1,3) entries' parse rel(2)
    by (simp add: load_dir_def r(4) result_def)
  moreover have "loaded_data_dir (fs_cwd fs) dir (sc_data_dir (fc_server cfg)) \<noteq> []"
    unfolding loaded_data_dir_def using path_abs_cases [OF cwd]
    by (metis abs_path_def list.distinct(1))
  ultimately show ?thesis
    using stored_valid [OF assms(1)] cons by (simp add: result_def with_data_dir_valid)
qed

text \<open>A configuration and a file system without files.\<close>

definition sample_full_config :: full_config where
  "sample_full_config =
     empty_full_config
       \<lparr>fc_server := \<lparr>sc_interface = ''eth0'', sc_data_dir = ''/data'', sc_logging = \<lparr>lc_level = [], lc_format = []\<rparr>\<rparr>,
        fc_tftp := \<lparr>tc_enabled = True, tc_port = 69, tc_block_size = 512, tc_timeout = 5000000000, tc_retries = 0\<rparr>,
        fc_bootloader := \<lparr>bl_dir = ''bootloader'', bl_uefix64 = ''ipxe.efi'', bl_uefix86 = [], bl_bios = [],
          bl_arm64 = [], bl_chain_url = ''http://x''\<rparr>,
        fc_menus := [\<lparr>me_name = ''local'', me_label = ''Local'', me_description = [], me_type = MenuExit,
          me_http = empty_menu_http, me_boot = empty_boot_params, me_source = []\<rparr>],
        fc_clients := [\<lparr>cl_mac = WildcardMAC, cl_name = ''default'',
          cl_menu = \<lparr>mc_entries = [''local''], mc_default = [], mc_timeout = 0\<rparr>,
          cl_bootloader = None, cl_vars = None, cl_enabled = True, cl_source = []\<rparr>]\<rparr>"

definition empty_fs :: file_system where
  "empty_fs = \<lparr>fs_cwd = ''/srv'', fs_nodes = [(''/'', DirNode), (''/srv'', DirNode), (''/srv/etc'', DirNode)]\<rparr>"

theorem write_load_roundtrip_witness:
  "\<exists>marshal unmarshal fs' cfg. write_config marshal sample_full_config ''etc'' empty_fs = Inr fs' \<and>
     load_dir (\<lambda>m. m) unmarshal fs' ''etc'' = Inr cfg \<and> fc_tftp cfg = fc_tftp sample_full_config"
proof -
  define raw where "raw = config_to_raw (sample_full_config\<lparr>fc_server := (fc_server sample_full_config)
      \<lparr>sc_data_dir := make_relative (fs_cwd empty_fs) (sc_data_dir (fc_server sample_full_config)) ''etc''\<rparr>\<rparr>)"
  define marshal where "marshal r = (if r = raw then Inr ''doc'' else Inl ([] :: string))" for r :: raw_file
  define unmarshal where "unmarshal s = (if s = ''doc'' then Inr raw else Inl ([] :: string))" for s :: string
  have library: "unmarshal data = Inr r" if "marshal r = Inr data" for r data
    using that by (auto simp: marshal_def unmarshal_def split: if_splits)
  have valid: "full_config_validate sample_full_config = None" by code_simp
  have cons: "consistent sample_full_config"
    by (simp add: consistent_def sample_full_config_def empty_full_config_def used_entries_def
        client_is_wildcard_iff WildcardMAC_def mac_len_ok_def)
  have durations: "durations_ok sample_full_config"
    by (simp add: durations_ok_def sample_full_config_def empty_full_config_def)
  have fs: "fs_ok empty_fs" by code_simp
  have entries: "os_read_dir empty_fs ''etc'' = Some []" by code_simp
  have files: "set (toml_files ''etc'' []) \<subseteq> {config_path ''etc''}" by (simp add: toml_files_def)
  obtain fs' where fs': "write_config marshal sample_full_config ''etc'' empty_fs = Inr fs'"
  proof -
    have "os_write_file (config_path ''etc'') ''doc'' empty_fs \<noteq> None" by code_simp
    then show ?thesis
      using that by (auto simp: write_config_def Let_def marshal_def raw_def)
  qed
  have "load_dir (\<lambda>m. m) unmarshal fs' ''etc'' =
      Inr (with_data_dir (stored (config_path ''etc'') sample_full_config)
        (loaded_data_dir (fs_cwd empty_fs) ''etc'' (sc_data_dir (fc_server sample_full_config))))"
    using write_load_roundtrip [OF valid cons durations fs _ entries files library fs', of "\<lambda>m. m"] by simp
  moreover have "fc_tftp (stored (config_path ''etc'') sample_full_config) = fc_tftp sample_full_config"
    by (simp add: stored_def stored_tftp_def sample_full_config_def empty_full_config_def)
  ultimately show ?thesis using fs' by (metis with_data_dir_simps(4))
qed

end
