(* ===== verification/ServerCore.thy ===== *)
theory ServerCore
  imports Registry TomlWriter
begin

text \<open>
  The server's core: the configuration manager (\<open>internal/server/config.go\<close>), and the server
  with its services and its reload (\<open>internal/server/server.go\<close>). The loader is a function
  argument, as in the code; since the files can change, each call takes its own. A service
  is a pair of functions on a state \<open>'w\<close>, which stands for everything services do. Logging
  is left out. \<open>Load\<close> and \<open>Reload\<close> of the manager are modelled as atomic: the code reads the
  directory and writes the configuration in two critical sections.
\<close>

section \<open>The configuration manager\<close>

record config_manager =
  cm_config :: "full_config option"
  cm_dir :: string

definition NewConfigManager :: config_manager where
  "NewConfigManager = \<lparr>cm_config = None, cm_dir = []\<rparr>"

datatype manager_failure =
  LoadingConfig string load_error
| ValidatingConfig config_error
| NotLoadedYet
| ReloadingConfig string load_error
| ValidatingReloaded config_error

type_synonym loader = "string \<Rightarrow> load_error + full_config"

definition cm_load :: "loader \<Rightarrow> string \<Rightarrow> config_manager \<Rightarrow> config_manager \<times> manager_failure option" where
  "cm_load loader dir m =
     (case loader dir of
        Inl err \<Rightarrow> (m, Some (LoadingConfig dir err))
      | Inr cfg \<Rightarrow>
          (case full_config_validate cfg of
             Some err \<Rightarrow> (m, Some (ValidatingConfig err))
           | None \<Rightarrow> (m\<lparr>cm_config := Some cfg, cm_dir := dir\<rparr>, None)))"

definition cm_reload :: "loader \<Rightarrow> config_manager \<Rightarrow> config_manager \<times> (manager_failure + full_config)" where
  "cm_reload loader m =
     (let dir = cm_dir m in
      if dir = [] then (m, Inl NotLoadedYet)
      else case loader dir of
        Inl err \<Rightarrow> (m, Inl (ReloadingConfig dir err))
      | Inr cfg \<Rightarrow>
          (case full_config_validate cfg of
             Some err \<Rightarrow> (m, Inl (ValidatingReloaded err))
           | None \<Rightarrow> (m\<lparr>cm_config := Some cfg\<rparr>, Inr cfg)))"

section \<open>The server\<close>

record 'w service =
  sv_name :: string
  sv_start :: "'w \<Rightarrow> 'w \<times> string option"
  sv_stop :: "'w \<Rightarrow> 'w \<times> string option"

record 'w server =
  sr_config :: config_manager
  sr_registry :: registry
  sr_menus :: menu_resolver
  sr_services :: "'w service list"

definition server_New :: "config_manager \<Rightarrow> string + 'w server" where
  "server_New m =
     (case cm_config m of
        None \<Rightarrow> Inl ''config not loaded''
      | Some cfg \<Rightarrow> Inr \<lparr>sr_config = m, sr_registry = NewRegistry (fc_clients cfg),
                        sr_menus = NewMenuResolver (fc_menus cfg), sr_services = []\<rparr>)"

definition RegisterService :: "'w service \<Rightarrow> 'w server \<Rightarrow> 'w server" where
  "RegisterService svc s = s\<lparr>sr_services := sr_services s @ [svc]\<rparr>"

fun start_loop :: "'w service list \<Rightarrow> 'w \<Rightarrow> 'w \<times> (string \<times> string) option" where
  "start_loop [] w = (w, None)"
| "start_loop (svc # svcs) w =
     (let (w', err) = sv_start svc w
      in case err of Some e \<Rightarrow> (w', Some (sv_name svc, e)) | None \<Rightarrow> start_loop svcs w')"

definition server_Start :: "'w server \<Rightarrow> 'w \<Rightarrow> 'w \<times> (string \<times> string) option" where
  "server_Start s w = start_loop (sr_services s) w"

fun stop_loop :: "'w service list \<Rightarrow> nat \<Rightarrow> string option \<Rightarrow> 'w \<Rightarrow> 'w \<times> string option" where
  "stop_loop svcs 0 first_err w = (w, first_err)"
| "stop_loop svcs (Suc i) first_err w =
     (let (w', err) = sv_stop (svcs ! i) w
      in stop_loop svcs i (case err of None \<Rightarrow> first_err
           | Some e \<Rightarrow> if first_err = None then Some e else first_err) w')"

definition server_Stop :: "'w server \<Rightarrow> 'w \<Rightarrow> 'w \<times> string option" where
  "server_Stop s w = stop_loop (sr_services s) (length (sr_services s)) None w"

definition server_Reload :: "loader \<Rightarrow> 'w server \<Rightarrow> 'w server \<times> manager_failure option" where
  "server_Reload loader s =
     (let (m, r) = cm_reload loader (sr_config s)
      in case r of
           Inl err \<Rightarrow> (s\<lparr>sr_config := m\<rparr>, Some err)
         | Inr cfg \<Rightarrow>
             (s\<lparr>sr_config := m, sr_registry := registry_reload (fc_clients cfg) (sr_registry s),
                sr_menus := menus_reload (fc_menus cfg) (sr_menus s)\<rparr>, None))"

section \<open>What is served is the configuration\<close>

text \<open>
  The calls a server serves after it was built. The tables always are those of the current
  configuration, which is valid; pending overrides survive.
\<close>

datatype 'w server_call =
  CallReload loader
| CallRegister "'w service"
| CallOverride hwaddr string
| CallConsume hwaddr

fun call_server :: "'w server_call \<Rightarrow> 'w server \<Rightarrow> 'w server" where
  "call_server (CallReload loader) s = fst (server_Reload loader s)"
| "call_server (CallRegister svc) s = RegisterService svc s"
| "call_server (CallOverride mac name) s = s\<lparr>sr_registry := set_boot_override mac name (sr_registry s)\<rparr>"
| "call_server (CallConsume mac) s = s\<lparr>sr_registry := fst (consume_boot_override mac (sr_registry s))\<rparr>"

definition tables_of :: "full_config \<Rightarrow> registry \<Rightarrow> menu_resolver \<Rightarrow> bool" where
  "tables_of cfg r m \<longleftrightarrow>
     find_client r = find_client (NewRegistry (fc_clients cfg)) \<and> m = NewMenuResolver (fc_menus cfg)"

definition server_ok :: "'w server \<Rightarrow> bool" where
  "server_ok s \<longleftrightarrow>
     (\<exists>cfg. cm_config (sr_config s) = Some cfg \<and> full_config_validate cfg = None \<and>
        tables_of cfg (sr_registry s) (sr_menus s))"

definition manager_valid :: "config_manager \<Rightarrow> bool" where
  "manager_valid m \<longleftrightarrow> (\<forall>cfg. cm_config m = Some cfg \<longrightarrow> full_config_validate cfg = None)"

lemma cm_load_valid: "manager_valid m \<Longrightarrow> manager_valid (fst (cm_load loader dir m))"
  by (auto simp: manager_valid_def cm_load_def split: sum.splits option.splits)

lemma cm_reload_valid: "manager_valid m \<Longrightarrow> manager_valid (fst (cm_reload loader m))"
  by (auto simp: manager_valid_def cm_reload_def Let_def split: sum.splits option.splits)

lemma cm_reload_cases:
  obtains err where "cm_reload loader m = (m, Inl err)"
  | cfg where "cm_reload loader m = (m\<lparr>cm_config := Some cfg\<rparr>, Inr cfg)"
      "full_config_validate cfg = None" "loader (cm_dir m) = Inr cfg"
proof (cases "cm_dir m = []")
  case True
  then show ?thesis using that(1) [of NotLoadedYet] by (simp add: cm_reload_def)
next
  case dir: False
  show ?thesis
  proof (cases "loader (cm_dir m)")
    case (Inl err)
    then show ?thesis using dir that(1) [of "ReloadingConfig (cm_dir m) err"] by (simp add: cm_reload_def)
  next
    case (Inr cfg)
    then show ?thesis
      using dir that(1) [of "ValidatingReloaded (the (full_config_validate cfg))"] that(2) [of cfg]
      by (cases "full_config_validate cfg") (simp_all add: cm_reload_def)
  qed
qed

lemma find_client_reload: "find_client (registry_reload cs r) = find_client (NewRegistry cs)"
  by (rule ext) (simp add: NewRegistry_def registry_reload_def find_client_load)

lemma menus_reload_eq: "menus_reload ms r = NewMenuResolver ms"
  by (simp add: menus_reload_def NewMenuResolver_def)

lemma server_New_ok:
  assumes "manager_valid m" and "server_New m = Inr s"
  shows "server_ok s"
  using assms by (auto simp: server_New_def server_ok_def tables_of_def manager_valid_def split: option.splits)

lemma server_call_ok: "server_ok s \<Longrightarrow> server_ok (call_server c s)"
proof (induction c s rule: call_server.induct)
  case (1 loader s)
  show ?case
  proof (cases rule: cm_reload_cases [of loader "sr_config s"])
    case (1 err)
    with \<open>server_ok s\<close> show ?thesis by (simp add: server_Reload_def server_ok_def)
  next
    case (2 cfg)
    then show ?thesis
      by (simp add: server_Reload_def server_ok_def tables_of_def find_client_reload menus_reload_eq)
  qed
qed (auto simp: server_ok_def tables_of_def RegisterService_def fun_eq_iff)

lemma server_calls_ok: "server_ok s \<Longrightarrow> server_ok (fold call_server cs s)"
  by (induction cs arbitrary: s) (simp_all add: server_call_ok)

lemma failed_reload_same: "snd (server_Reload loader s) = Some err \<Longrightarrow> fst (server_Reload loader s) = s"
  by (cases rule: cm_reload_cases [of loader "sr_config s"]) (simp_all add: server_Reload_def)

section \<open>Starting and stopping\<close>

text \<open>The stop calls as a list, in the order they are made, with the error each returns.\<close>

fun stop_errors :: "'w service list \<Rightarrow> 'w \<Rightarrow> string option list" where
  "stop_errors [] w = []"
| "stop_errors (svc # svcs) w = snd (sv_stop svc w) # stop_errors svcs (fst (sv_stop svc w))"

definition stop_all :: "'w service list \<Rightarrow> 'w \<Rightarrow> 'w" where
  "stop_all svcs w = fold (\<lambda>svc w. fst (sv_stop svc w)) svcs w"

definition first_some :: "'a option list \<Rightarrow> 'a option" where
  "first_some xs = (case find (\<lambda>x. x \<noteq> None) xs of None \<Rightarrow> None | Some x \<Rightarrow> x)"

lemma first_some_Cons: "first_some (x # xs) = (case x of None \<Rightarrow> first_some xs | Some y \<Rightarrow> Some y)"
  by (cases x) (simp_all add: first_some_def)

lemma stop_loop_eq:
  "n \<le> length svcs \<Longrightarrow>
   stop_loop svcs n e w =
     (stop_all (rev (take n svcs)) w,
      case e of Some x \<Rightarrow> Some x | None \<Rightarrow> first_some (stop_errors (rev (take n svcs)) w))"
proof (induction n arbitrary: e w)
  case 0
  then show ?case by (simp add: stop_all_def first_some_def split: option.split)
next
  case (Suc n)
  then have rev: "rev (take (Suc n) svcs) = svcs ! n # rev (take n svcs)"
    by (simp add: take_Suc_conv_app_nth)
  obtain w' err where stop: "sv_stop (svcs ! n) w = (w', err)" by fastforce
  with Suc rev show ?case
    by (cases err; cases e) (simp_all add: stop_all_def first_some_Cons)
qed

text \<open>The services all start without an error, each in the world the one before it leaves.\<close>

fun starts_well_to :: "'w service list \<Rightarrow> 'w \<Rightarrow> 'w \<Rightarrow> bool" where
  "starts_well_to [] w w' \<longleftrightarrow> w' = w"
| "starts_well_to (svc # svcs) w w' \<longleftrightarrow> (\<exists>w1. sv_start svc w = (w1, None) \<and> starts_well_to svcs w1 w')"

lemma start_loop_None: "start_loop svcs w = (w', None) \<longleftrightarrow> starts_well_to svcs w w'"
  by (induction svcs arbitrary: w) (auto split: prod.splits option.splits)

lemma start_loop_Some:
  "start_loop svcs w = (w', Some (name, e)) \<longleftrightarrow>
     (\<exists>ys svc zs w1. svcs = ys @ svc # zs \<and> starts_well_to ys w w1 \<and> sv_name svc = name \<and> sv_start svc w1 = (w', Some e))"
  (is "_ \<longleftrightarrow> ?split svcs w")
proof (induction svcs arbitrary: w)
  case Nil
  then show ?case by simp
next
  case (Cons svc svcs)
  obtain w1 r where s: "sv_start svc w = (w1, r)" by fastforce
  have "?split (svc # svcs) w \<longleftrightarrow>
      sv_name svc = name \<and> sv_start svc w = (w', Some e) \<or> (\<exists>w1. sv_start svc w = (w1, None) \<and> ?split svcs w1)"
  proof
    assume "?split (svc # svcs) w"
    then obtain ys sv zs w1 where *: "svc # svcs = ys @ sv # zs" "starts_well_to ys w w1" "sv_name sv = name"
      "sv_start sv w1 = (w', Some e)" by blast
    then show "sv_name svc = name \<and> sv_start svc w = (w', Some e) \<or> (\<exists>w1. sv_start svc w = (w1, None) \<and> ?split svcs w1)"
      by (cases ys) auto
  next
    assume "sv_name svc = name \<and> sv_start svc w = (w', Some e) \<or> (\<exists>w1. sv_start svc w = (w1, None) \<and> ?split svcs w1)"
    then show "?split (svc # svcs) w"
    proof (elim disjE exE conjE)
      assume "sv_name svc = name" "sv_start svc w = (w', Some e)"
      then show ?thesis by (intro exI [of _ "[]"] exI [of _ svc] exI [of _ svcs] exI [of _ w]) simp
    next
      fix w1 ys sv zs w2
      assume "sv_start svc w = (w1, None)" "svcs = ys @ sv # zs" "starts_well_to ys w1 w2" "sv_name sv = name"
        "sv_start sv w2 = (w', Some e)"
      then show ?thesis by (intro exI [of _ "svc # ys"] exI [of _ sv] exI [of _ zs] exI [of _ w2]) auto
    qed
  qed
  with Cons.IH s show ?case by (cases r) auto
qed

section \<open>Properties\<close>

text \<open>C29 (server_serves_valid_config). A server built from a manager that has only loaded and
  reloaded serves, after any sequence of reloads, registrations and override calls, exactly the
  clients and menus of the manager's current configuration, and this is valid; a reload that fails,
  because the files cannot be loaded or are not valid, leaves everything as it was.\<close>

theorem server_serves_valid_config:
  fixes s :: "'w server" and calls :: "'w server_call list"
  assumes "server_New (fst (cm_load loader dir NewConfigManager)) = Inr s"
  defines "t \<equiv> fold call_server calls s"
  shows "(\<exists>cfg. cm_config (sr_config t) = Some cfg \<and> full_config_validate cfg = None \<and>
      find_client (sr_registry t) = find_client (NewRegistry (fc_clients cfg)) \<and>
      sr_menus t = NewMenuResolver (fc_menus cfg)) \<and>
    (snd (server_Reload loader' t) \<noteq> None \<longrightarrow> fst (server_Reload loader' t) = t)"
proof
  have "manager_valid (fst (cm_load loader dir NewConfigManager))"
    by (intro cm_load_valid) (simp add: manager_valid_def NewConfigManager_def)
  then have "server_ok s" using assms(1) by (rule server_New_ok)
  then have "server_ok t" unfolding t_def by (rule server_calls_ok)
  then show "\<exists>cfg. cm_config (sr_config t) = Some cfg \<and> full_config_validate cfg = None \<and>
      find_client (sr_registry t) = find_client (NewRegistry (fc_clients cfg)) \<and>
      sr_menus t = NewMenuResolver (fc_menus cfg)"
    by (auto simp: server_ok_def tables_of_def)
  show "snd (server_Reload loader' t) \<noteq> None \<longrightarrow> fst (server_Reload loader' t) = t"
    using failed_reload_same by blast
qed

theorem server_serves_valid_config_witness:
  "\<exists>s. server_New (fst (cm_load (\<lambda>_. Inr sample_full_config) ''etc'' NewConfigManager)) = Inr (s :: unit server) \<and>
     fst (server_Reload (\<lambda>_. Inl NoServerSection) (call_server (CallOverride WildcardMAC ''local'') s)) =
       call_server (CallOverride WildcardMAC ''local'') s"
proof -
  have "full_config_validate sample_full_config = None" by code_simp
  then obtain s :: "unit server" where
    s: "server_New (fst (cm_load (\<lambda>_. Inr sample_full_config) ''etc'' NewConfigManager)) = Inr s"
    and dir: "cm_dir (sr_config s) = ''etc''"
    by (simp add: cm_load_def server_New_def)
  have "snd (server_Reload (\<lambda>_. Inl NoServerSection) (call_server (CallOverride WildcardMAC ''local'') s)) \<noteq> None"
    using dir by (simp add: server_Reload_def cm_reload_def)
  with server_serves_valid_config [OF s, of "[CallOverride WildcardMAC ''local'']" "\<lambda>_. Inl NoServerSection"] s
  show ?thesis by auto
qed

text \<open>C30 (server_stop_spec). \<open>Stop\<close> stops every service once, the last registered one first, and goes on
  after errors; it returns the first error that occurs. \<open>Start\<close> starts the services in the order of
  their registration. It succeeds exactly if each of them starts without an error in the world the one before it
  leaves; otherwise it ends at the first one that fails, with its name and its error, and the services after
  that are not started.\<close>

theorem server_stop_spec:
  "server_Stop s w = (stop_all (rev (sr_services s)) w, first_some (stop_errors (rev (sr_services s)) w)) \<and>
   (server_Start s w = (w', None) \<longleftrightarrow> starts_well_to (sr_services s) w w') \<and>
   (server_Start s w = (w', Some (name, e)) \<longleftrightarrow>
      (\<exists>ys svc zs w1. sr_services s = ys @ svc # zs \<and> starts_well_to ys w w1 \<and>
         sv_name svc = name \<and> sv_start svc w1 = (w', Some e)))"
  by (simp add: server_Stop_def stop_loop_eq server_Start_def start_loop_None start_loop_Some)

end
