(* ===== verification/BootService.thy ===== *)
theory BootService
  imports BootHandler ServerCore
begin

text \<open>
  The boot service as a whole: the handler of boot scripts on the tables of a configuration
  that was loaded and validated, with requests, boot overrides and reloads in any order. The
  reload is the one of \<open>internal/ui/cli/serve.go\<close> (\<open>ReloadFn\<close>) and \<open>Server.Reload\<close>, which
  replace the clients and then the menus; a request can come in between. The registry
  replaces the clients under its lock. The menu resolver has no lock: its \<open>Reload\<close> publishes an empty map and
  then fills it, so that a request can also meet a part of the menus. \<open>SwapMenus\<close> is this
  \<open>Reload\<close> with nothing in between, \<open>menu_steps\<close> are its single steps. A request that reads the map in the
  very moment of a write, for which the Go runtime can end the process, is outside the model.
\<close>

section \<open>Events\<close>

datatype service_event =
  Request string
| SetOverride hwaddr string
| SwapClients full_config
| SwapMenus full_config
| ClearMenus
| PutMenu menu_entry

fun service_step :: "var_order \<Rightarrow> service_event \<Rightarrow> handler \<Rightarrow> handler \<times> http_response list" where
  "service_step rng (Request m) h = (let (h', r) = serve_http rng h m in (h', [r]))"
| "service_step rng (SetOverride mac name) h =
     (h\<lparr>hd_registry := set_boot_override mac name (hd_registry h)\<rparr>, [])"
| "service_step rng (SwapClients cfg) h =
     (h\<lparr>hd_registry := registry_reload (fc_clients cfg) (hd_registry h)\<rparr>, [])"
| "service_step rng (SwapMenus cfg) h = (h\<lparr>hd_menus := menus_reload (fc_menus cfg) (hd_menus h)\<rparr>, [])"
| "service_step rng ClearMenus h = (h\<lparr>hd_menus := \<lparr>mr_menus = []\<rparr>\<rparr>, [])"
| "service_step rng (PutMenu m) h =
     (h\<lparr>hd_menus := \<lparr>mr_menus = AList.update (me_name m) m (mr_menus (hd_menus h))\<rparr>\<rparr>, [])"

fun service_run :: "var_order \<Rightarrow> service_event list \<Rightarrow> handler \<Rightarrow> handler \<times> http_response list" where
  "service_run rng [] h = (h, [])"
| "service_run rng (e # es) h =
     (let (h1, rs) = service_step rng e h; (h2, rs') = service_run rng es h1 in (h2, rs @ rs'))"

text \<open>The steps of \<open>MenuResolver.Reload\<close>.\<close>

definition menu_steps :: "menu_entry list \<Rightarrow> service_event list" where
  "menu_steps ms = ClearMenus # map PutMenu ms"

text \<open>The reload, given the outcome of loading and validating the files.\<close>

definition reload_events :: "load_error + full_config \<Rightarrow> service_event list" where
  "reload_events loaded =
     (case loaded of
        Inl err \<Rightarrow> []
      | Inr cfg \<Rightarrow> (case full_config_validate cfg of
          Some err \<Rightarrow> [] | None \<Rightarrow> [SwapClients cfg, SwapMenus cfg]))"

section \<open>Handlers in step with a configuration\<close>

definition in_step :: "full_config \<Rightarrow> handler \<Rightarrow> bool" where
  "in_step cfg h \<longleftrightarrow> consistent cfg \<and> full_config_validate cfg = None \<and>
     tables_of cfg (hd_registry h) (hd_menus h)"

lemma in_step_client:
  assumes "in_step cfg h" and "request_client h m = Some (mac, c)"
  shows "c \<in> set (fc_clients cfg)"
  using assms request_clientD [OF assms(2)]
  by (auto simp: in_step_def tables_of_def NewRegistry_def dest: find_client_load_mem)

lemma in_step_entries:
  assumes step: "in_step cfg h" and c: "c \<in> set (fc_clients cfg)"
  obtains entries where "menus_resolve (hd_menus h) (mc_entries (cl_menu c)) = Inr entries"
    and "map me_name entries = mc_entries (cl_menu c)" and "set entries \<subseteq> set (fc_menus cfg)"
proof -
  let ?names = "mc_entries (cl_menu c)" and ?entry = "\<lambda>n. the (map_of (mr_menus (hd_menus h)) n)"
  have menus: "hd_menus h = menus_reload (fc_menus cfg) \<lparr>mr_menus = []\<rparr>"
    using step by (simp add: in_step_def tables_of_def NewMenuResolver_reload)
  from step c have ne: "?names \<noteq> []" by (auto simp: in_step_def validates)
  have found: "\<exists>e. map_of (mr_menus (hd_menus h)) n = Some e \<and> e \<in> set (fc_menus cfg) \<and> me_name e = n"
    if "n \<in> set ?names" for n
  proof -
    from that c have "n \<in> used_entries (fc_clients cfg)" by (auto simp: used_entries_def)
    with step have "n \<in> me_name ` set (fc_menus cfg)" by (auto simp: in_step_def consistent_def)
    then have "map_of (mr_menus (hd_menus h)) n \<noteq> None" unfolding menus by (auto simp: menus.find_complete)
    then show ?thesis unfolding menus by (auto dest: menus.find_sound)
  qed
  have "menus_resolve (hd_menus h) ?names = Inr (map ?entry ?names)"
    using found ne by (intro menus_resolve_ok) auto
  moreover have "map me_name (map ?entry ?names) = ?names"
    unfolding map_map by (rule map_idI) (use found in fastforce)
  moreover have "set (map ?entry ?names) \<subseteq> set (fc_menus cfg)"
  proof
    fix e
    assume "e \<in> set (map ?entry ?names)"
    then obtain n where "n \<in> set ?names" "e = ?entry n" unfolding set_map by (rule imageE)
    with found [of n] show "e \<in> set (fc_menus cfg)" by auto
  qed
  ultimately show ?thesis by (rule that)
qed

definition no_server_error :: "http_response \<Rightarrow> bool" where
  "no_server_error r \<longleftrightarrow> hr_status r \<in> {200, 400, 403, 404}"

lemma in_step_served:
  assumes "in_step cfg h"
  shows "no_server_error (snd (serve_http rng h m))"
proof (cases "request_client h m")
  case None
  then show ?thesis
    by (auto simp: serve_http_refused refusal_def no_server_error_def http_error_def split: option.splits sum.splits)
next
  case (Some mc)
  then obtain mac c where mc: "request_client h m = Some (mac, c)" by (cases mc) auto
  obtain entries where "menus_resolve (hd_menus h) (mc_entries (cl_menu c)) = Inr entries"
    using in_step_entries [OF assms in_step_client [OF assms mc]] by metis
  then show ?thesis
    by (auto simp: serve_http_accepted [OF mc] serve_menu_def serve_script_def no_server_error_def split: option.splits)
qed

lemma request_keeps_step: "in_step cfg h \<Longrightarrow> in_step cfg (fst (serve_http rng h m))"
proof (cases "request_client h m")
  case None
  then show "in_step cfg h \<Longrightarrow> ?thesis" by (simp add: serve_http_refused)
next
  case (Some mc)
  then obtain mac c where mc: "request_client h m = Some (mac, c)" by (cases mc) auto
  then show "in_step cfg h \<Longrightarrow> ?thesis"
    by (simp add: serve_http_accepted [OF mc] in_step_def tables_of_def fun_eq_iff)
qed

text \<open>What arrives at the service, a reload with the outcome of loading the files.\<close>

datatype service_call =
  BootRequest string
| BootOverride hwaddr string
| ReloadConfig "load_error + full_config"

fun call_events :: "service_call \<Rightarrow> service_event list" where
  "call_events (BootRequest m) = [Request m]"
| "call_events (BootOverride mac name) = [SetOverride mac name]"
| "call_events (ReloadConfig loaded) = reload_events loaded"

definition reloads_consistent :: "service_call \<Rightarrow> bool" where
  "reloads_consistent c = (case c of ReloadConfig (Inr cfg) \<Rightarrow> consistent cfg | _ \<Rightarrow> True)"

lemma service_run_append:
  "service_run rng (es @ es') h =
     (let (h1, rs) = service_run rng es h; (h2, rs') = service_run rng es' h1 in (h2, rs @ rs'))"
  by (induction es arbitrary: h) (simp_all add: case_prod_beta' Let_def)

lemma call_keeps_step:
  assumes "in_step cfg h" and "reloads_consistent c"
  shows "(\<exists>cfg'. in_step cfg' (fst (service_run rng (call_events c) h))) \<and>
    list_all no_server_error (snd (service_run rng (call_events c) h))"
proof (cases c)
  case (BootRequest m)
  then show ?thesis
    using in_step_served [OF assms(1)] request_keeps_step [OF assms(1)]
    by (intro conjI exI [of _ cfg]) (simp_all add: case_prod_beta' Let_def)
next
  case (BootOverride mac name)
  then show ?thesis
    using assms(1) by (intro conjI exI [of _ cfg]) (simp_all add: in_step_def tables_of_def fun_eq_iff)
next
  case (ReloadConfig loaded)
  show ?thesis
  proof (cases "reload_events loaded = []")
    case True
    with ReloadConfig assms(1) show ?thesis by auto
  next
    case False
    then obtain cfg' where cfg': "loaded = Inr cfg'" "full_config_validate cfg' = None"
      by (auto simp: reload_events_def split: sum.splits option.splits)
    with ReloadConfig assms(2) have "in_step cfg' (fst (service_run rng (call_events c) h))"
      by (simp add: reload_events_def reloads_consistent_def in_step_def tables_of_def
          find_client_reload menus_reload_eq)
    with cfg' ReloadConfig show ?thesis by (auto simp: reload_events_def)
  qed
qed

lemma calls_keep_step:
  assumes "in_step cfg h" and "list_all reloads_consistent cs"
  shows "list_all no_server_error (snd (service_run rng (concat (map call_events cs)) h))"
  using assms
proof (induction cs arbitrary: cfg h)
  case Nil
  then show ?case by simp
next
  case (Cons c cs)
  then have "reloads_consistent c" "list_all reloads_consistent cs" by simp_all
  from call_keeps_step [OF Cons.prems(1) this(1), of rng] obtain cfg' where
    "in_step cfg' (fst (service_run rng (call_events c) h))"
    "list_all no_server_error (snd (service_run rng (call_events c) h))" by blast
  with Cons.IH [OF this(1) \<open>list_all reloads_consistent cs\<close>] show ?case
    by (simp add: service_run_append case_prod_beta' Let_def)
qed

text \<open>The steps of a reload of the menus, one after the other, are the reload.\<close>

lemma put_menus_run:
  "service_run rng (map PutMenu ms) h =
     (h\<lparr>hd_menus := \<lparr>mr_menus = fold (\<lambda>m. AList.update (me_name m) m) ms (mr_menus (hd_menus h))\<rparr>\<rparr>, [])"
  by (induction ms arbitrary: h) simp_all

lemma map_of_fold_put_entry: "n \<notin> set (map me_name ms) \<Longrightarrow> map_of (fold (\<lambda>m. AList.update (me_name m) m) ms xs) n = map_of xs n"
  by (induction ms arbitrary: xs) (auto simp: update_conv')

lemma menu_steps_run:
  "service_run rng (menu_steps (fc_menus cfg)) h = service_run rng [SwapMenus cfg] h"
  by (cases "hd_menus h") (simp add: menu_steps_def put_menus_run menus_reload_def load_menus_def case_prod_beta')

section \<open>Properties\<close>

definition serving :: "ipxe_vars \<Rightarrow> full_config \<Rightarrow> handler" where
  "serving vars cfg = \<lparr>hd_registry = NewRegistry (fc_clients cfg), hd_menus = NewMenuResolver (fc_menus cfg), hd_vars = vars\<rparr>"

lemma serving_in_step:
  "load_dir rng unmarshal fs dir = Inr cfg \<Longrightarrow> full_config_validate cfg = None \<Longrightarrow> in_step cfg (serving vars cfg)"
  by (simp add: in_step_def tables_of_def serving_def load_dir_consistent)

text \<open>The sample directory, as the configuration a service starts with.\<close>

definition starts_well :: "(full_config \<Rightarrow> bool) \<Rightarrow> bool" where
  "starts_well P \<longleftrightarrow> (case load_dir (\<lambda>m. m) sample_unmarshal sample_fs ''etc'' of
      Inl _ \<Rightarrow> False | Inr cfg \<Rightarrow> full_config_validate cfg = None \<and> P cfg)"

lemma starts_well_obtain:
  assumes "starts_well P"
  obtains cfg where "load_dir (\<lambda>m. m) sample_unmarshal sample_fs ''etc'' = Inr cfg"
    "full_config_validate cfg = None" "P cfg"
  using assms by (auto simp: starts_well_def split: sum.splits)

text \<open>C15 (loaded_config_boots). With a configuration that was loaded from files and is valid, every
  request of an enabled client without a pending override is answered with the script for exactly the
  menu entries the configuration lists for this client, in their order, all of which exist and
  have what their type needs to boot.\<close>

theorem loaded_config_boots:
  assumes "load_dir rng unmarshal fs dir = Inr cfg" and "full_config_validate cfg = None"
    and "request_client (serving vars cfg) m = Some (mac, c)"
  shows "\<exists>entries. map me_name entries = mc_entries (cl_menu c) \<and> set entries \<subseteq> set (fc_menus cfg) \<and>
    c \<in> set (fc_clients cfg) \<and> list_all bootable entries \<and>
    snd (serve_http rng' (serving vars cfg) m) =
      serve_script (generate rng' entries (cl_menu c) (snd (request_vars (serving vars cfg) mac c)))"
proof -
  note step = serving_in_step [OF assms(1,2), of vars]
  note c = in_step_client [OF step assms(3)]
  obtain entries where entries: "menus_resolve (hd_menus (serving vars cfg)) (mc_entries (cl_menu c)) = Inr entries"
    "map me_name entries = mc_entries (cl_menu c)" "set entries \<subseteq> set (fc_menus cfg)"
    using in_step_entries [OF step c] .
  have "list_all bootable entries"
    using entries(3) assms(2) by (auto simp: list_all_iff validates)
  moreover have "consume_boot_override mac (hd_registry (serving vars cfg)) = (hd_registry (serving vars cfg), [])"
    by (simp add: serving_def NewRegistry_def consume_boot_override_def)
  ultimately show ?thesis
    using entries c by (intro exI [of _ entries])
      (simp add: serve_http_accepted [OF assms(3)] serve_menu_def split: option.split)
qed

theorem loaded_config_boots_witness:
  "\<exists>cfg mac c. load_dir (\<lambda>m. m) sample_unmarshal sample_fs ''etc'' = Inr cfg \<and>
     request_client (serving sample_vars cfg) ''01:02:03:04:05:06'' = Some (mac, c) \<and>
     mc_entries (cl_menu c) = [''rescue''] \<and>
     (\<exists>entries. map me_name entries = [''rescue''] \<and>
        snd (serve_http (\<lambda>_ m. m) (serving sample_vars cfg) ''01:02:03:04:05:06'') =
          serve_script (generate (\<lambda>_ m. m) entries (cl_menu c) (snd (request_vars (serving sample_vars cfg) mac c))))"
proof -
  have "starts_well (\<lambda>cfg. case request_client (serving sample_vars cfg) ''01:02:03:04:05:06'' of
      None \<Rightarrow> False | Some (mac, c) \<Rightarrow> mc_entries (cl_menu c) = [''rescue''])"
    by code_simp
  then obtain cfg where cfg: "load_dir (\<lambda>m. m) sample_unmarshal sample_fs ''etc'' = Inr cfg" "full_config_validate cfg = None"
    and client: "case request_client (serving sample_vars cfg) ''01:02:03:04:05:06'' of
      None \<Rightarrow> False | Some (mac, c) \<Rightarrow> mc_entries (cl_menu c) = [''rescue'']"
    by (rule starts_well_obtain)
  then obtain mac c where "request_client (serving sample_vars cfg) ''01:02:03:04:05:06'' = Some (mac, c)"
    "mc_entries (cl_menu c) = [''rescue'']"
    by (auto split: option.splits)
  note client = this
  from loaded_config_boots [OF cfg client(1), of "\<lambda>_ m. m"] client(2) have "\<exists>entries. map me_name entries = [''rescue''] \<and>
      snd (serve_http (\<lambda>_ m. m) (serving sample_vars cfg) ''01:02:03:04:05:06'') =
        serve_script (generate (\<lambda>_ m. m) entries (cl_menu c) (snd (request_vars (serving sample_vars cfg) mac c)))"
    unfolding client(2) by (elim exE conjE) (intro exI conjI)
  with cfg(1) client show ?thesis by (intro exI [of _ cfg] exI [of _ mac] exI [of _ c] conjI)
qed

text \<open>A service started with a configuration that was loaded and is valid never
  answers a boot request with a server error, in any sequence of requests, boot overrides (also
  of names that do not exist) and reloads, successful or not, where no request falls between the two
  parts of a reload.\<close>

lemma service_never_fails:
  assumes "load_dir rng unmarshal fs dir = Inr cfg" and "full_config_validate cfg = None"
    and "list_all reloads_consistent calls"
  shows "list_all no_server_error
    (snd (service_run rng' (concat (map call_events calls)) (serving vars cfg)))"
  using calls_keep_step [OF serving_in_step [OF assms(1,2)] assms(3)] .

lemma service_never_fails_example:
  "\<exists>cfg. load_dir (\<lambda>m. m) sample_unmarshal sample_fs ''etc'' = Inr cfg \<and>
     list_all no_server_error (snd (service_run (\<lambda>_ m. m)
       (concat (map call_events
         [BootOverride WildcardMAC ''missing'', BootRequest ''01:02:03:04:05:06'', ReloadConfig (Inl NoServerSection),
          ReloadConfig (Inr cfg), BootRequest ''nonsense'']))
       (serving sample_vars cfg)))"
proof -
  have "starts_well (\<lambda>_. True)" by code_simp
  then obtain cfg where cfg: "load_dir (\<lambda>m. m) sample_unmarshal sample_fs ''etc'' = Inr cfg" "full_config_validate cfg = None"
    by (rule starts_well_obtain)
  have "list_all reloads_consistent
      [BootOverride WildcardMAC ''missing'', BootRequest ''01:02:03:04:05:06'', ReloadConfig (Inl NoServerSection),
       ReloadConfig (Inr cfg), BootRequest ''nonsense'']"
    using load_dir_consistent [OF cfg(1)] by (simp add: reloads_consistent_def)
  from service_never_fails [OF cfg this] cfg(1) show ?thesis by blast
qed

text \<open>C31 (reload_window_fails). A reload replaces the clients before the menus. Where the new configuration gives
  a client an entry the old one does not have, a request of the client that falls in between is
  answered with a server error, although both configurations are complete; after the reload the same
  request is served.\<close>

theorem reload_window_fails:
  assumes "consistent new" and "full_config_validate new = None"
    and "request_client (serving vars new) m = Some (mac, c)"
    and "n \<in> set (mc_entries (cl_menu c))" and "n \<notin> set (map me_name (fc_menus old))"
  shows "reload_events (Inr new) = [SwapClients new, SwapMenus new] \<and>
    map hr_status (snd (service_run rng [SwapClients new, Request m, SwapMenus new, Request m]
      (serving vars old))) = [500, 200]"
proof
  show "reload_events (Inr new) = [SwapClients new, SwapMenus new]"
    using assms(2) by (simp add: reload_events_def)
  let ?h1 = "(serving vars old)\<lparr>hd_registry := registry_reload (fc_clients new) (NewRegistry (fc_clients old))\<rparr>"
  let ?h2 = "fst (serve_http rng ?h1 m)"
  let ?h3 = "?h2\<lparr>hd_menus := menus_reload (fc_menus new) (hd_menus ?h2)\<rparr>"
  have same: "request_client h m = Some (mac, c)"
    if "find_client (hd_registry h) = find_client (NewRegistry (fc_clients new))" for h
    using assms(3) that by (simp add: request_client_def serving_def cong: option.case_cong)
  have c1: "request_client ?h1 m = Some (mac, c)" by (rule same) (simp add: find_client_reload)
  have ov: "consume_boot_override mac (registry_reload (fc_clients new) (NewRegistry (fc_clients old))) =
      (registry_reload (fc_clients new) (NewRegistry (fc_clients old)), [])"
    by (simp add: NewRegistry_def registry_reload_def consume_boot_override_def)
  have "map_of (mr_menus (NewMenuResolver (fc_menus old))) n = None"
    using assms(5) by (simp add: NewMenuResolver_reload menus.find_load last_match_None image_iff) metis
  with assms(4) have "find (\<lambda>n. map_of (mr_menus (NewMenuResolver (fc_menus old))) n = None) (mc_entries (cl_menu c)) \<noteq> None"
    by (auto simp: find_None_iff)
  then obtain y where "find (\<lambda>n. map_of (mr_menus (NewMenuResolver (fc_menus old))) n = None) (mc_entries (cl_menu c)) = Some y"
    by blast
  moreover have "mc_entries (cl_menu c) \<noteq> []" using assms(4) by auto
  ultimately have "menus_resolve (hd_menus (serving vars old)) (mc_entries (cl_menu c)) = Inl (MenuEntryNotFound y)"
    by (simp add: menus_resolve_def resolve_loop_eq serving_def)
  then have first: "hr_status (snd (serve_http rng ?h1 m)) = 500"
    by (simp add: serve_http_accepted [OF c1] ov serve_menu_def http_error_def split: option.split)
  have h2: "hd_registry ?h2 = hd_registry ?h1"
    by (simp add: serve_http_accepted [OF c1] ov)
  have step: "in_step new ?h3"
    using assms(1,2) h2 by (simp add: in_step_def tables_of_def find_client_reload menus_reload_eq)
  have c3: "request_client ?h3 m = Some (mac, c)" by (rule same) (simp add: h2 find_client_reload)
  obtain entries where "menus_resolve (hd_menus ?h3) (mc_entries (cl_menu c)) = Inr entries"
    using in_step_entries [OF step in_step_client [OF step c3]] by metis
  then have "hr_status (snd (serve_http rng ?h3 m)) = 200"
    by (simp add: serve_http_accepted [OF c3] serve_menu_def serve_script_def split: option.split)
  with first show "map hr_status (snd (service_run rng [SwapClients new, Request m, SwapMenus new, Request m]
      (serving vars old))) = [500, 200]"
    by (simp add: case_prod_beta' Let_def serving_def)
qed

theorem reload_window_fails_witness:
  "map hr_status (snd (service_run (\<lambda>_ m. m)
     [SwapClients sample_full_config, Request ''01:02:03:04:05:06'', SwapMenus sample_full_config,
      Request ''01:02:03:04:05:06''] (serving sample_vars empty_full_config))) = [500, 200]"
proof -
  have valid: "full_config_validate sample_full_config = None" by code_simp
  have cons: "consistent sample_full_config"
    by (simp add: consistent_def sample_full_config_def empty_full_config_def used_entries_def
        client_is_wildcard_iff WildcardMAC_def mac_len_ok_def)
  have "case request_client (serving sample_vars sample_full_config) ''01:02:03:04:05:06'' of
      None \<Rightarrow> False | Some (mac, c) \<Rightarrow> mc_entries (cl_menu c) = [''local'']"
    by code_simp
  then obtain mac c where
    "request_client (serving sample_vars sample_full_config) ''01:02:03:04:05:06'' = Some (mac, c)"
    "''local'' \<in> set (mc_entries (cl_menu c))"
    by (auto split: option.splits)
  from reload_window_fails [OF cons valid this, of empty_full_config "\<lambda>_ m. m"] show ?thesis
    by (simp add: empty_full_config_def)
qed

text \<open>A reload of the menus that changes nothing fails requests as well: between the empty map and its last
  entry, a request of an enabled client is answered with a server error as long as one of its entries
  has not been put back.\<close>

lemma menu_reload_gap:
  assumes "request_client (serving vars cfg) m = Some (mac, c)" and "fc_menus cfg = ms @ ms'"
    and "n \<in> set (mc_entries (cl_menu c))" and "n \<notin> set (map me_name ms)"
  shows "menu_steps (fc_menus cfg) = (ClearMenus # map PutMenu ms) @ map PutMenu ms' \<and>
    map hr_status (snd (service_run rng ((ClearMenus # map PutMenu ms) @ [Request m]) (serving vars cfg))) = [500]"
proof
  show "menu_steps (fc_menus cfg) = (ClearMenus # map PutMenu ms) @ map PutMenu ms'"
    by (simp add: menu_steps_def assms(2))
  define h where "h = (serving vars cfg)\<lparr>hd_menus := \<lparr>mr_menus = fold (\<lambda>m. AList.update (me_name m) m) ms []\<rparr>\<rparr>"
  have run: "service_run rng (ClearMenus # map PutMenu ms) (serving vars cfg) = (h, [])"
    by (simp add: put_menus_run h_def)
  have c: "request_client h m = Some (mac, c)"
    using assms(1) by (simp add: request_client_def h_def serving_def cong: option.case_cong)
  have ov: "consume_boot_override mac (hd_registry h) = (hd_registry h, [])"
    by (simp add: h_def serving_def NewRegistry_def consume_boot_override_def)
  have "map_of (mr_menus (hd_menus h)) n = None"
    using assms(4) map_of_fold_put_entry [of n ms] by (simp add: h_def)
  with assms(3) obtain y where "find (\<lambda>n. map_of (mr_menus (hd_menus h)) n = None) (mc_entries (cl_menu c)) = Some y"
    by (metis (mono_tags, lifting) find_None_iff not_None_eq)
  moreover have "mc_entries (cl_menu c) \<noteq> []" using assms(3) by auto
  ultimately have "menus_resolve (hd_menus h) (mc_entries (cl_menu c)) = Inl (MenuEntryNotFound y)"
    by (simp add: menus_resolve_def resolve_loop_eq)
  then have "hr_status (snd (serve_http rng h m)) = 500"
    by (simp add: serve_http_accepted [OF c] ov serve_menu_def http_error_def split: option.split)
  then show "map hr_status (snd (service_run rng ((ClearMenus # map PutMenu ms) @ [Request m]) (serving vars cfg))) = [500]"
    unfolding service_run_append run by (simp add: case_prod_beta' Let_def)
qed

lemma menu_reload_gap_example:
  "map hr_status (snd (service_run (\<lambda>_ m. m) [ClearMenus, Request ''01:02:03:04:05:06''] (serving sample_vars sample_full_config))) = [500]"
proof -
  have "case request_client (serving sample_vars sample_full_config) ''01:02:03:04:05:06'' of
      None \<Rightarrow> False | Some (mac, c) \<Rightarrow> mc_entries (cl_menu c) = [''local'']"
    by code_simp
  then obtain mac c where "request_client (serving sample_vars sample_full_config) ''01:02:03:04:05:06'' = Some (mac, c)"
    "''local'' \<in> set (mc_entries (cl_menu c))"
    by (auto split: option.splits)
  from menu_reload_gap [OF this(1) _ this(2), of "[]"] show ?thesis by simp
qed

end
