(* ===== verification/NetIP.thy ===== *)
theory NetIP
  imports HwAddr
begin

text \<open>
  IP addresses of the standard library, as far as the program uses them: \<open>net.IP\<close> is a slice
  of bytes, of length 4 or 16 for an address, with \<open>To4\<close>, \<open>Equal\<close> and \<open>String\<close>; byte slices
  made of strings.
\<close>

type_synonym ip = "byte list"

definition string_bytes :: "string \<Rightarrow> byte list" where
  "string_bytes s = map of_char s"

definition bytes_text :: "byte list \<Rightarrow> string" where
  "bytes_text bs = map (\<lambda>b. char_of (unat b)) bs"

lemma bytes_text_string_bytes [simp]: "bytes_text (string_bytes s) = s"
proof -
  have "unat (of_char c :: byte) = of_char c" for c
    using of_nat_of_char [of c, where ?'a = byte, symmetric] by (simp add: unat_of_nat)
  then show ?thesis by (simp add: bytes_text_def string_bytes_def comp_def)
qed

definition v4_prefix :: "byte list" where
  "v4_prefix = [0, 0, 0, 0, 0, 0, 0, 0, 0, 0, 0xFF, 0xFF]"

text \<open>\<open>To4\<close>; the result \<open>nil\<close> is \<^const>\<open>None\<close>.\<close>

definition ip_to4 :: "ip \<Rightarrow> ip option" where
  "ip_to4 ip =
     (if length ip = 4 then Some ip
      else if length ip = 16 \<and> take 12 ip = v4_prefix then Some (drop 12 ip)
      else None)"

definition ip_equal :: "ip \<Rightarrow> ip \<Rightarrow> bool" where
  "ip_equal a b =
     (if length a = length b then a = b
      else if length a = 4 \<and> length b = 16 then take 12 b = v4_prefix \<and> a = drop 12 b
      else if length a = 16 \<and> length b = 4 then take 12 a = v4_prefix \<and> drop 12 a = b
      else False)"

definition ipv4 :: "byte \<Rightarrow> byte \<Rightarrow> byte \<Rightarrow> byte \<Rightarrow> ip" where
  "ipv4 a b c d = v4_prefix @ [a, b, c, d]"

section \<open>Printing\<close>

definition hex_string :: "byte list \<Rightarrow> string" where
  "hex_string bs = concat (map hex_byte bs)"

fun joined :: "string \<Rightarrow> string list \<Rightarrow> string" where
  "joined sep [] = []"
| "joined sep [s] = s"
| "joined sep (s # t # ss) = s @ sep @ joined sep (t # ss)"

text \<open>The fields of an IPv6 address, without leading zeros; the first longest run of at least
  two zero fields is left out.\<close>

definition hex_field :: "nat \<Rightarrow> string" where
  "hex_field n =
     (let ds = dropWhile (\<lambda>d. d = 0) [n div 4096 mod 16, n div 256 mod 16, n div 16 mod 16]
      in map hex_char ds @ [hex_char (n mod 16)])"

fun ip_fields :: "byte list \<Rightarrow> nat list" where
  "ip_fields (a # b # bs) = (256 * unat a + unat b) # ip_fields bs"
| "ip_fields bs = []"

definition zero_run :: "nat list \<Rightarrow> nat \<Rightarrow> nat" where
  "zero_run fs i = length (takeWhile (\<lambda>f. f = 0) (drop i fs))"

definition longest_zeros :: "nat list \<Rightarrow> nat \<times> nat" where
  "longest_zeros fs =
     fold (\<lambda>i (at, n). if 2 \<le> zero_run fs i \<and> n < zero_run fs i then (i, zero_run fs i) else (at, n))
       [0..<length fs] (length fs, 0)"

definition ipv6_string :: "ip \<Rightarrow> string" where
  "ipv6_string ip =
     (let fs = ip_fields ip; (at, n) = longest_zeros fs
      in if n = 0 then joined '':'' (map hex_field fs)
         else joined '':'' (map hex_field (take at fs)) @ ''::'' @
              joined '':'' (map hex_field (drop (at + n) fs)))"

definition ip_string :: "ip \<Rightarrow> string" where
  "ip_string ip =
     (if ip = [] then ''<nil>''
      else case ip_to4 ip of
        Some bs \<Rightarrow> joined ''.'' (map (\<lambda>b. dec_of_nat (unat b)) bs)
      | None \<Rightarrow> if length ip = 16 then ipv6_string ip else CHR ''?'' # hex_string ip)"

lemma ip_to4_length: "ip_to4 ip = Some bs \<Longrightarrow> length bs = 4"
  by (auto simp: ip_to4_def split: if_splits)

lemma ip_to4_ipv4 [simp]: "ip_to4 (ipv4 a b c d) = Some [a, b, c, d]"
  by (simp add: ip_to4_def ipv4_def v4_prefix_def)

lemma ip_equal_to4: "ip_to4 a = Some x \<Longrightarrow> ip_to4 b = Some y \<Longrightarrow> ip_equal a b \<longleftrightarrow> x = y"
  by (auto simp: ip_to4_def ip_equal_def split: if_splits) (metis append_take_drop_id)+

lemma ip_equal_ipv4: "ip_equal ip (ipv4 a b c d) \<longleftrightarrow> ip_to4 ip = Some [a, b, c, d]"
proof (cases "ip_to4 ip")
  case None
  moreover have "take 12 (ipv4 a b c d) = v4_prefix" "length (ipv4 a b c d) = 16" by (simp_all add: ipv4_def v4_prefix_def)
  ultimately show ?thesis by (auto simp: ip_to4_def ip_equal_def split: if_splits)
next
  case (Some x)
  with ip_equal_to4 [OF Some ip_to4_ipv4] show ?thesis by simp
qed

lemma joined_chars: "set (joined sep ss) \<subseteq> set sep \<union> \<Union> (set ` set ss)"
  by (induction sep ss rule: joined.induct) auto

lemma ip_string_ipv4: "ip_to4 ip = Some bs \<Longrightarrow> ip_string ip = joined ''.'' (map (\<lambda>b. dec_of_nat (unat b)) bs)"
  by (auto simp: ip_string_def ip_to4_def)

lemma ip_string_ipv4_chars: "ip_to4 ip = Some bs \<Longrightarrow> set (ip_string ip) \<subseteq> insert (CHR ''.'') (set dec_digits)"
  using joined_chars [of "''.''" "map (\<lambda>b. dec_of_nat (unat b)) bs"] dec_of_nat_digits
  by (auto simp: ip_string_ipv4)

end
