(* ===== verification/EventBus.thy ===== *)
theory EventBus
  imports HwAddr
begin

text \<open>
  The event bus: \<open>internal/domain/event.go\<close> and \<open>internal/server/eventbus.go\<close>. Channels are
  objects on a heap, a list of channels; the bus holds their addresses. Sending on a closed
  channel and closing it again panic, which is the result \<^const>\<open>None\<close>. The lock is
  modelled by the step relation: \<open>Publish\<close> holds it for reading and sends to one subscriber
  per step, with other publishers and receivers in between; \<open>Subscribe\<close> and the
  end of a subscription hold it for writing and are one step, possible while nobody publishes.
  The time of an event is \<^const>\<open>None\<close> for the zero time.
\<close>

section \<open>Events and channels\<close>

datatype event_type =
  EventBoot | EventDHCP | EventTFTP | EventHTTP | EventHealth | EventConfig | EventOther int

fun event_type_string :: "event_type \<Rightarrow> string" where
  "event_type_string EventBoot = ''boot''"
| "event_type_string EventDHCP = ''dhcp''"
| "event_type_string EventTFTP = ''tftp''"
| "event_type_string EventHTTP = ''http''"
| "event_type_string EventHealth = ''health''"
| "event_type_string EventConfig = ''config''"
| "event_type_string (EventOther i) = ''EventType('' @ dec_of_int i @ '')''"

record 'd event =
  ev_type :: event_type
  ev_at :: "int option"
  ev_mac :: hwaddr
  ev_message :: string
  ev_data :: "(string, 'd) gomap option"

record 'e channel =
  ch_cap :: nat
  ch_buf :: "'e list"
  ch_closed :: bool

definition make_chan :: "nat \<Rightarrow> 'e channel" where
  "make_chan n = \<lparr>ch_cap = n, ch_buf = [], ch_closed = False\<rparr>"

text \<open>A send in a \<open>select\<close> with a \<open>default\<close> branch; the flag tells whether the event was sent.\<close>

definition try_send :: "'e \<Rightarrow> 'e channel \<Rightarrow> ('e channel \<times> bool) option" where
  "try_send e ch =
     (if ch_closed ch then None
      else if length (ch_buf ch) < ch_cap ch then Some (ch\<lparr>ch_buf := ch_buf ch @ [e]\<rparr>, True)
      else Some (ch, False))"

definition close_chan :: "'e channel \<Rightarrow> 'e channel option" where
  "close_chan ch = (if ch_closed ch then None else Some (ch\<lparr>ch_closed := True\<rparr>))"

section \<open>The bus\<close>

record event_bus =
  eb_subscribers :: "nat list"
  eb_buffer_size :: int

definition NewEventBus :: "int \<Rightarrow> event_bus" where
  "NewEventBus n = \<lparr>eb_subscribers = [], eb_buffer_size = (if n < 1 then 64 else n)\<rparr>"

fun publish_loop :: "'e \<Rightarrow> nat list \<Rightarrow> 'e channel list \<Rightarrow> 'e channel list option" where
  "publish_loop e [] chans = Some chans"
| "publish_loop e (k # ks) chans =
     (case try_send e (chans ! k) of
        None \<Rightarrow> None
      | Some (ch, _) \<Rightarrow> publish_loop e ks (chans[k := ch]))"

definition publish :: "'e \<Rightarrow> event_bus \<Rightarrow> 'e channel list \<Rightarrow> 'e channel list option" where
  "publish e bus chans = publish_loop e (eb_subscribers bus) chans"

definition subscribe :: "event_bus \<Rightarrow> 'e channel list \<Rightarrow> event_bus \<times> 'e channel list \<times> nat" where
  "subscribe bus chans =
     (let k = length chans
      in (bus\<lparr>eb_subscribers := eb_subscribers bus @ [k]\<rparr>,
          chans @ [make_chan (nat (eb_buffer_size bus))], k))"

fun drop_subscriber :: "nat \<Rightarrow> nat list \<Rightarrow> nat list" where
  "drop_subscriber k [] = []"
| "drop_subscriber k (j # js) = (if j = k then js else j # drop_subscriber k js)"

text \<open>What the goroutine of \<open>Subscribe\<close> does when the context ends.\<close>

definition unsubscribe :: "nat \<Rightarrow> event_bus \<Rightarrow> 'e channel list \<Rightarrow> (event_bus \<times> 'e channel list) option" where
  "unsubscribe k bus chans =
     (case close_chan (chans ! k) of
        None \<Rightarrow> None
      | Some ch \<Rightarrow>
          Some (bus\<lparr>eb_subscribers := drop_subscriber k (eb_subscribers bus)\<rparr>, chans[k := ch]))"

section \<open>Concurrent use\<close>

text \<open>
  The publishers are the calls of \<open>Publish\<close> in progress, each with its event and the subscribers
  still to be served; \<open>bs_waiting\<close> are the subscriptions whose context has not ended.
\<close>

record 'e bus_state =
  bs_bus :: event_bus
  bs_chans :: "'e channel list"
  bs_publishers :: "('e \<times> nat list) list"
  bs_waiting :: "nat list"

datatype 'e bus_label =
  PublishCall 'e
| SendTo nat nat 'e bool
| PublishReturn nat
| SubscribeCall nat
| ContextDone nat
| ReceiveFrom nat 'e
| SendPanics nat
| ClosePanics nat

definition bus_start :: "int \<Rightarrow> 'e bus_state" where
  "bus_start n = \<lparr>bs_bus = NewEventBus n, bs_chans = [], bs_publishers = [], bs_waiting = []\<rparr>"

inductive bus_step :: "'e bus_state \<Rightarrow> 'e bus_label \<Rightarrow> 'e bus_state \<Rightarrow> bool" where
  PublishCall: "bus_step s (PublishCall e)
    (s\<lparr>bs_publishers := bs_publishers s @ [(e, eb_subscribers (bs_bus s))]\<rparr>)"
| SendTo: "i < length (bs_publishers s) \<Longrightarrow> bs_publishers s ! i = (e, k # ks) \<Longrightarrow>
    try_send e (bs_chans s ! k) = Some (ch, sent) \<Longrightarrow>
    bus_step s (SendTo i k e sent)
      (s\<lparr>bs_chans := (bs_chans s)[k := ch], bs_publishers := (bs_publishers s)[i := (e, ks)]\<rparr>)"
| SendPanics: "i < length (bs_publishers s) \<Longrightarrow> bs_publishers s ! i = (e, k # ks) \<Longrightarrow>
    try_send e (bs_chans s ! k) = None \<Longrightarrow> bus_step s (SendPanics i) s"
| PublishReturn: "i < length (bs_publishers s) \<Longrightarrow> bs_publishers s ! i = (e, []) \<Longrightarrow>
    bus_step s (PublishReturn i)
      (s\<lparr>bs_publishers := take i (bs_publishers s) @ drop (Suc i) (bs_publishers s)\<rparr>)"
| SubscribeCall: "bs_publishers s = [] \<Longrightarrow> subscribe (bs_bus s) (bs_chans s) = (bus, chans, k) \<Longrightarrow>
    bus_step s (SubscribeCall k)
      (s\<lparr>bs_bus := bus, bs_chans := chans, bs_waiting := bs_waiting s @ [k]\<rparr>)"
| ContextDone: "bs_publishers s = [] \<Longrightarrow> k \<in> set (bs_waiting s) \<Longrightarrow>
    unsubscribe k (bs_bus s) (bs_chans s) = Some (bus, chans) \<Longrightarrow>
    bus_step s (ContextDone k)
      (s\<lparr>bs_bus := bus, bs_chans := chans, bs_waiting := remove1 k (bs_waiting s)\<rparr>)"
| ClosePanics: "bs_publishers s = [] \<Longrightarrow> k \<in> set (bs_waiting s) \<Longrightarrow>
    unsubscribe k (bs_bus s) (bs_chans s) = None \<Longrightarrow> bus_step s (ClosePanics k) s"
| ReceiveFrom: "k < length (bs_chans s) \<Longrightarrow> ch_buf (bs_chans s ! k) = e # es \<Longrightarrow>
    bus_step s (ReceiveFrom k e)
      (s\<lparr>bs_chans := (bs_chans s)[k := (bs_chans s ! k)\<lparr>ch_buf := es\<rparr>]\<rparr>)"

inductive bus_run :: "int \<Rightarrow> 'e bus_label list \<Rightarrow> 'e bus_state \<Rightarrow> bool" for n where
  start: "bus_run n [] (bus_start n)"
| step: "bus_run n ls s \<Longrightarrow> bus_step s l t \<Longrightarrow> bus_run n (ls @ [l]) t"

inductive_cases send_panics: "bus_step s (SendPanics i) t"
inductive_cases close_panics: "bus_step s (ClosePanics k) t"

section \<open>The invariant\<close>

definition chan_ok :: "event_bus \<Rightarrow> 'e channel \<Rightarrow> bool" where
  "chan_ok bus ch \<longleftrightarrow> ch_cap ch = nat (eb_buffer_size bus) \<and> length (ch_buf ch) \<le> ch_cap ch"

definition bus_inv :: "int \<Rightarrow> 'e bus_state \<Rightarrow> bool" where
  "bus_inv n s \<longleftrightarrow>
     distinct (eb_subscribers (bs_bus s)) \<and> bs_waiting s = eb_subscribers (bs_bus s) \<and>
     eb_buffer_size (bs_bus s) = eb_buffer_size (NewEventBus n) \<and>
     (\<forall>k \<in> set (eb_subscribers (bs_bus s)). k < length (bs_chans s) \<and> \<not> ch_closed (bs_chans s ! k)) \<and>
     (\<forall>(e, ks) \<in> set (bs_publishers s). set ks \<subseteq> set (eb_subscribers (bs_bus s))) \<and>
     (\<forall>ch \<in> set (bs_chans s). chan_ok (bs_bus s) ch)"

lemma drop_subscriber_eq: "drop_subscriber k ks = remove1 k ks"
  by (induction ks) auto

lemma all_set_update: "\<forall>x \<in> set xs. P x \<Longrightarrow> P y \<Longrightarrow> \<forall>x \<in> set (xs[k := y]). P x"
  using set_update_subset_insert [of xs k y] by auto

lemma nth_set_update: "j < length xs \<Longrightarrow> xs[k := y] ! j = (if j = k then y else xs ! j)"
  by auto

lemma try_send_open:
  "\<not> ch_closed ch \<Longrightarrow> try_send e ch =
     Some (if length (ch_buf ch) < ch_cap ch then (ch\<lparr>ch_buf := ch_buf ch @ [e]\<rparr>, True) else (ch, False))"
  by (simp add: try_send_def)

lemma bus_inv_start: "bus_inv n (bus_start n)"
  by (simp add: bus_inv_def bus_start_def NewEventBus_def)

lemma publisher_subscribed:
  assumes "bus_inv n s" and "i < length (bs_publishers s)" and "bs_publishers s ! i = (e, ks)"
  shows "set ks \<subseteq> set (eb_subscribers (bs_bus s))"
  using assms nth_mem [OF assms(2)] by (auto simp: bus_inv_def)

lemma subscriber_open:
  assumes "bus_inv n s" and "k \<in> set (eb_subscribers (bs_bus s))"
  shows "k < length (bs_chans s)" and "\<not> ch_closed (bs_chans s ! k)" and "chan_ok (bs_bus s) (bs_chans s ! k)"
  using assms by (auto simp: bus_inv_def)

lemma bus_inv_chan:
  assumes inv: "bus_inv n s" and ok: "chan_ok (bs_bus s) ch" and "ch_closed ch = ch_closed (bs_chans s ! k)"
  shows "bus_inv n (s\<lparr>bs_chans := (bs_chans s)[k := ch]\<rparr>)"
proof -
  have "\<forall>c \<in> set ((bs_chans s)[k := ch]). chan_ok (bs_bus s) c"
    using inv ok by (intro all_set_update) (simp_all add: bus_inv_def)
  with inv assms(3) show ?thesis by (auto simp: bus_inv_def nth_set_update)
qed

lemma bus_inv_publishers:
  "bus_inv n s \<Longrightarrow> \<forall>(e, ks) \<in> set ps. set ks \<subseteq> set (eb_subscribers (bs_bus s)) \<Longrightarrow>
   bus_inv n (s\<lparr>bs_publishers := ps\<rparr>)"
  by (simp add: bus_inv_def)

lemma bus_step_inv: "bus_step s l t \<Longrightarrow> bus_inv n s \<Longrightarrow> bus_inv n t"
proof (induction rule: bus_step.induct)
  case (PublishCall s e)
  then show ?case by (intro bus_inv_publishers) (auto simp: bus_inv_def)
next
  case (SendTo i s e k ks ch sent)
  note sub = publisher_subscribed [OF SendTo.prems SendTo.hyps(1,2)]
  then have k: "k \<in> set (eb_subscribers (bs_bus s))" by simp
  note ch = subscriber_open [OF SendTo.prems k]
  have "bus_inv n (s\<lparr>bs_chans := (bs_chans s)[k := ch]\<rparr>)"
    using SendTo.hyps(3) ch by (intro bus_inv_chan [OF SendTo.prems])
      (auto simp: try_send_def chan_ok_def split: if_splits)
  then have "bus_inv n (s\<lparr>bs_chans := (bs_chans s)[k := ch], bs_publishers := (bs_publishers s)[i := (e, ks)]\<rparr>)"
  proof -
    assume "bus_inv n (s\<lparr>bs_chans := (bs_chans s)[k := ch]\<rparr>)"
    moreover have "\<forall>(e, ks) \<in> set ((bs_publishers s)[i := (e, ks)]). set ks \<subseteq> set (eb_subscribers (bs_bus s))"
      using sub SendTo.prems by (intro all_set_update) (simp_all add: bus_inv_def)
    ultimately show ?thesis by (simp add: bus_inv_def)
  qed
  then show ?case .
next
  case (PublishReturn i s e)
  have "set (take i (bs_publishers s) @ drop (Suc i) (bs_publishers s)) \<subseteq> set (bs_publishers s)"
    by (auto dest: in_set_takeD in_set_dropD)
  moreover have "\<forall>(e, ks) \<in> set (bs_publishers s). set ks \<subseteq> set (eb_subscribers (bs_bus s))"
    using PublishReturn.prems by (simp add: bus_inv_def)
  ultimately show ?case by (intro bus_inv_publishers [OF PublishReturn.prems]) blast
next
  case (SubscribeCall s bus chans k)
  then show ?case
    by (auto simp: bus_inv_def subscribe_def make_chan_def nth_append chan_ok_def Let_def less_Suc_eq)
next
  case (ContextDone s k bus chans)
  then have k: "k \<in> set (eb_subscribers (bs_bus s))" by (simp add: bus_inv_def)
  note ch = subscriber_open [OF ContextDone.prems k]
  have result: "chans = (bs_chans s)[k := (bs_chans s ! k)\<lparr>ch_closed := True\<rparr>]"
      "bus = (bs_bus s)\<lparr>eb_subscribers := remove1 k (eb_subscribers (bs_bus s))\<rparr>"
    using ContextDone.hyps(3) ch(2) by (simp_all add: unsubscribe_def close_chan_def drop_subscriber_eq)
  have "\<forall>c \<in> set chans. chan_ok (bs_bus s) c"
    unfolding result(1)
  proof (rule all_set_update)
    show "\<forall>c \<in> set (bs_chans s). chan_ok (bs_bus s) c" using ContextDone.prems by (simp add: bus_inv_def)
    show "chan_ok (bs_bus s) ((bs_chans s ! k)\<lparr>ch_closed := True\<rparr>)" using ch(3) by (simp add: chan_ok_def)
  qed
  with ContextDone.prems ContextDone.hyps(1) show ?case
    by (auto simp: bus_inv_def result nth_set_update chan_ok_def)
next
  case (ReceiveFrom k s e es)
  then have "chan_ok (bs_bus s) (bs_chans s ! k)" by (auto simp: bus_inv_def)
  with ReceiveFrom show ?case by (intro bus_inv_chan) (auto simp: chan_ok_def)
qed simp_all

lemma bus_run_inv: "bus_run n ls s \<Longrightarrow> bus_inv n s"
  by (induction rule: bus_run.induct) (auto intro: bus_inv_start bus_step_inv)

section \<open>A publisher on its own\<close>

lemma publish_loop_nth:
  assumes "distinct ks" and "\<forall>k \<in> set ks. k < length chans \<and> \<not> ch_closed (chans ! k)"
  shows "\<exists>chans'. publish_loop e ks chans = Some chans' \<and> length chans' = length chans \<and>
    (\<forall>j < length chans. chans' ! j =
       (if j \<in> set ks \<and> length (ch_buf (chans ! j)) < ch_cap (chans ! j)
        then (chans ! j)\<lparr>ch_buf := ch_buf (chans ! j) @ [e]\<rparr> else chans ! j))"
  using assms
proof (induction ks arbitrary: chans)
  case Nil
  then show ?case by simp
next
  case (Cons k ks)
  let ?ch = "fst (the (try_send e (chans ! k)))"
  from Cons.prems have k: "k < length chans" "\<not> ch_closed (chans ! k)" "k \<notin> set ks" by simp_all
  then have send: "try_send e (chans ! k) = Some (?ch, length (ch_buf (chans ! k)) < ch_cap (chans ! k))"
    by (simp add: try_send_open)
  have "\<forall>j \<in> set ks. j < length (chans[k := ?ch]) \<and> \<not> ch_closed (chans[k := ?ch] ! j)"
    using Cons.prems by (auto simp: nth_set_update)
  with Cons.IH [of "chans[k := ?ch]"] Cons.prems(1) obtain chans' where
    chans': "publish_loop e ks (chans[k := ?ch]) = Some chans'" "length chans' = length chans"
    "\<forall>j < length chans. chans' ! j =
       (if j \<in> set ks \<and> length (ch_buf (chans[k := ?ch] ! j)) < ch_cap (chans[k := ?ch] ! j)
        then (chans[k := ?ch] ! j)\<lparr>ch_buf := ch_buf (chans[k := ?ch] ! j) @ [e]\<rparr> else chans[k := ?ch] ! j)"
    by auto
  have "\<forall>j < length chans. chans' ! j =
       (if j \<in> set (k # ks) \<and> length (ch_buf (chans ! j)) < ch_cap (chans ! j)
        then (chans ! j)\<lparr>ch_buf := ch_buf (chans ! j) @ [e]\<rparr> else chans ! j)"
    using chans'(3) k by (auto simp: nth_set_update try_send_open)
  moreover have "publish_loop e (k # ks) chans = Some chans'"
    by (subst publish_loop.simps, subst send) (simp add: chans'(1))
  ultimately show ?case using chans'(2) by blast
qed

fun send_labels :: "nat \<Rightarrow> 'e \<Rightarrow> nat list \<Rightarrow> 'e channel list \<Rightarrow> 'e bus_label list" where
  "send_labels i e [] chans = []"
| "send_labels i e (k # ks) chans =
     (case try_send e (chans ! k) of
        None \<Rightarrow> []
      | Some (ch, sent) \<Rightarrow> SendTo i k e sent # send_labels i e ks (chans[k := ch]))"

lemma lone_publisher_run:
  "bus_run n ls s \<Longrightarrow> bs_publishers s = [(e, ks)] \<Longrightarrow> publish_loop e ks (bs_chans s) = Some chans' \<Longrightarrow>
   bus_run n (ls @ send_labels 0 e ks (bs_chans s) @ [PublishReturn 0])
     (s\<lparr>bs_chans := chans', bs_publishers := []\<rparr>)"
proof (induction ks arbitrary: ls s)
  case Nil
  from bus_step.PublishReturn [of 0 s e] Nil.prems have "bus_step s (PublishReturn 0) (s\<lparr>bs_publishers := []\<rparr>)"
    by simp
  moreover have "s\<lparr>bs_publishers := []\<rparr> = s\<lparr>bs_chans := chans', bs_publishers := []\<rparr>"
    using Nil.prems(3) by simp
  ultimately show ?case using bus_run.step [OF Nil.prems(1)] by simp
next
  case (Cons k ks)
  from Cons.prems(3) obtain ch sent where send: "try_send e (bs_chans s ! k) = Some (ch, sent)"
    and rest: "publish_loop e ks ((bs_chans s)[k := ch]) = Some chans'"
    by (auto split: option.splits)
  let ?s = "s\<lparr>bs_chans := (bs_chans s)[k := ch], bs_publishers := [(e, ks)]\<rparr>"
  have "bus_step s (SendTo 0 k e sent) ?s"
    using bus_step.SendTo [of 0 s e k ks ch sent] Cons.prems(2) send by simp
  from Cons.IH [OF bus_run.step [OF Cons.prems(1) this]] rest send show ?case by simp
qed

section \<open>Properties\<close>

text \<open>C9 (event_bus_safe). However publishers, receivers, new subscriptions and ending contexts
  interleave, no event is ever sent on a closed channel, no channel is closed twice, no buffer
  exceeds the size of the bus, and every publisher can always take its next step, whatever the
  subscribers do: \<open>Publish\<close> never blocks and returns after one step per subscriber.\<close>

theorem event_bus_safe:
  assumes "bus_run n ls s"
  shows "\<not> bus_step s (SendPanics i) t \<and> \<not> bus_step s (ClosePanics k) t \<and>
    list_all (\<lambda>ch. length (ch_buf ch) \<le> nat (if n < 1 then 64 else n)) (bs_chans s) \<and>
    (i < length (bs_publishers s) \<longrightarrow>
      (case bs_publishers s ! i of
         (e, []) \<Rightarrow> \<exists>t. bus_step s (PublishReturn i) t
       | (e, k # ks) \<Rightarrow> \<exists>sent t. bus_step s (SendTo i k e sent) t \<and> bs_publishers t ! i = (e, ks)))"
proof -
  note inv = bus_run_inv [OF assms]
  have open_sub: "\<not> ch_closed (bs_chans s ! k)"
    if "i < length (bs_publishers s)" "bs_publishers s ! i = (e, k # ks)" for i e k ks
    using publisher_subscribed [OF inv that] subscriber_open(2) [OF inv] by simp
  have "\<not> bus_step s (SendPanics i) t"
    by (auto elim!: send_panics simp: try_send_open dest!: open_sub)
  moreover have "\<not> bus_step s (ClosePanics k) t"
  proof
    assume "bus_step s (ClosePanics k) t"
    then have "k \<in> set (bs_waiting s)" "unsubscribe k (bs_bus s) (bs_chans s) = None"
      by (auto elim: close_panics)
    then show False
      using inv subscriber_open(2) [OF inv] by (auto simp: bus_inv_def unsubscribe_def close_chan_def)
  qed
  moreover have "list_all (\<lambda>ch. length (ch_buf ch) \<le> nat (if n < 1 then 64 else n)) (bs_chans s)"
    using inv by (auto simp: bus_inv_def chan_ok_def list_all_iff NewEventBus_def)
  moreover have "case bs_publishers s ! i of
         (e, []) \<Rightarrow> \<exists>t. bus_step s (PublishReturn i) t
       | (e, k # ks) \<Rightarrow> \<exists>sent t. bus_step s (SendTo i k e sent) t \<and> bs_publishers t ! i = (e, ks)"
    if i: "i < length (bs_publishers s)"
  proof (cases "bs_publishers s ! i")
    case (Pair e ks)
    show ?thesis
    proof (cases ks)
      case Nil
      with Pair show ?thesis by (auto intro: bus_step.PublishReturn [OF i])
    next
      case (Cons k ks')
      with Pair i open_sub obtain ch sent where "try_send e (bs_chans s ! k) = Some (ch, sent)"
        by (metis try_send_open surj_pair)
      from bus_step.SendTo [OF i Pair [unfolded Cons] this] show ?thesis
        using Pair Cons i by fastforce
    qed
  qed
  ultimately show ?thesis by blast
qed

text \<open>\<open>Publish\<close> without interference, in any reachable state: every current subscriber whose buffer
  has room gets the event at the end of its buffer, no other channel changes, and this is what the
  steps of the publisher do.\<close>

lemma publish_delivers:
  assumes "bus_run n ls s" and "bs_publishers s = []"
  shows "\<exists>chans'. publish e (bs_bus s) (bs_chans s) = Some chans' \<and> length chans' = length (bs_chans s) \<and>
    (\<forall>k < length chans'. chans' ! k =
       (let ch = bs_chans s ! k in
        if k \<in> set (eb_subscribers (bs_bus s)) \<and> length (ch_buf ch) < nat (if n < 1 then 64 else n)
        then ch\<lparr>ch_buf := ch_buf ch @ [e]\<rparr> else ch)) \<and>
    bus_run n (ls @ [PublishCall e] @ send_labels 0 e (eb_subscribers (bs_bus s)) (bs_chans s) @ [PublishReturn 0])
      (s\<lparr>bs_chans := chans'\<rparr>)"
proof -
  note inv = bus_run_inv [OF assms(1)]
  have cap: "ch_cap (bs_chans s ! k) = nat (if n < 1 then 64 else n)" if "k < length (bs_chans s)" for k
    using inv nth_mem [OF that] by (auto simp: bus_inv_def chan_ok_def NewEventBus_def)
  obtain chans' where chans': "publish e (bs_bus s) (bs_chans s) = Some chans'" "length chans' = length (bs_chans s)"
    "\<forall>j < length (bs_chans s). chans' ! j =
       (if j \<in> set (eb_subscribers (bs_bus s)) \<and> length (ch_buf (bs_chans s ! j)) < ch_cap (bs_chans s ! j)
        then (bs_chans s ! j)\<lparr>ch_buf := ch_buf (bs_chans s ! j) @ [e]\<rparr> else bs_chans s ! j)"
    using publish_loop_nth [of "eb_subscribers (bs_bus s)" "bs_chans s" e] inv
    by (auto simp: bus_inv_def publish_def)
  let ?s = "s\<lparr>bs_publishers := [(e, eb_subscribers (bs_bus s))]\<rparr>"
  have "bus_step s (PublishCall e) ?s"
    using bus_step.PublishCall [of s e] assms(2) by simp
  from lone_publisher_run [OF bus_run.step [OF assms(1) this]] chans'(1)
  have "bus_run n (ls @ [PublishCall e] @ send_labels 0 e (eb_subscribers (bs_bus s)) (bs_chans s) @ [PublishReturn 0])
      (?s\<lparr>bs_chans := chans', bs_publishers := []\<rparr>)"
    by (simp add: publish_def)
  moreover have "?s\<lparr>bs_chans := chans', bs_publishers := []\<rparr> = s\<lparr>bs_chans := chans'\<rparr>"
    using assms(2) by simp
  ultimately show ?thesis
    using chans' cap by (intro exI [of _ chans']) (simp add: Let_def)
qed

definition one_subscriber :: "string bus_state" where
  "one_subscriber = \<lparr>bs_bus = \<lparr>eb_subscribers = [0], eb_buffer_size = 2\<rparr>, bs_chans = [make_chan 2],
     bs_publishers = [], bs_waiting = [0]\<rparr>"

lemma one_subscriber_run: "bus_run 2 [SubscribeCall 0] one_subscriber"
proof -
  have "bus_step (bus_start 2) (SubscribeCall 0) one_subscriber"
    using bus_step.SubscribeCall [of "bus_start 2" "bs_bus one_subscriber" "bs_chans one_subscriber" 0]
    by (simp add: bus_start_def NewEventBus_def subscribe_def one_subscriber_def)
  from bus_run.step [OF bus_run.start this] show ?thesis by simp
qed

theorem event_bus_safe_witness: "\<not> bus_step one_subscriber (ClosePanics 0) one_subscriber"
  using event_bus_safe [OF one_subscriber_run] by blast

lemma publish_delivers_example:
  "\<exists>chans. publish ''boot'' (bs_bus one_subscriber) (bs_chans one_subscriber) = Some chans \<and>
     chans ! 0 = (make_chan 2)\<lparr>ch_buf := [''boot'']\<rparr>"
  using publish_delivers [OF one_subscriber_run, of "''boot''"]
  by (auto simp: one_subscriber_def make_chan_def)

end
