(* ===== verification/Dhcp.thy ===== *)
theory Dhcp
  imports NetIP EventBus Registry Ipxe
begin

text \<open>
  The DHCP proxy: \<open>internal/service/dhcp/proxy.go\<close> and \<open>internal/service/dhcp/offer.go\<close>. The package
  \<open>dhcpv4\<close> is not part of the repository: its packets are a type \<open>'m\<close> and what the code calls is the
  record \<open>dhcp_lib\<close>, an argument of the definitions; \<open>dhcp_lib_ok\<close> is what its documentation
  says of the getters and setters. A packet is handled in one go, without the sockets:
  the result is why it is dropped, or the reply, its destination and the event
  that is published. Logging is left out.
\<close>

section \<open>The packet library\<close>

datatype dhcp_option =
  OptionClassIdentifier | OptionClientSystemArchitectureType | OptionUserClassInformation
| OptionTFTPServerName | OptionBootfileName | OptionVendorSpecificInformation | OptionServerIdentifier

datatype message_type =
  MessageTypeDiscover | MessageTypeOffer | MessageTypeRequest | MessageTypeAck | MessageTypeOther nat

record 'm dhcp_lib =
  dl_option :: "'m \<Rightarrow> dhcp_option \<Rightarrow> byte list option"
  dl_message_type :: "'m \<Rightarrow> message_type"
  dl_hwaddr :: "'m \<Rightarrow> hwaddr"
  dl_server_ip :: "'m \<Rightarrow> ip"
  dl_bootfile :: "'m \<Rightarrow> string"
  dl_new_reply :: "'m \<Rightarrow> message_type \<Rightarrow> ip \<Rightarrow> string + 'm"
  dl_update :: "dhcp_option \<Rightarrow> byte list option \<Rightarrow> 'm \<Rightarrow> 'm"
  dl_set_type :: "message_type \<Rightarrow> 'm \<Rightarrow> 'm"
  dl_set_server_ip :: "ip \<Rightarrow> 'm \<Rightarrow> 'm"
  dl_set_bootfile :: "string \<Rightarrow> 'm \<Rightarrow> 'm"
  dl_type_name :: "message_type \<Rightarrow> string"

section \<open>Offers\<close>

datatype option93_error = NoOption93 | Option93TooShort nat | UnknownOption93 arch_error

definition ArchFromOption93 :: "'m dhcp_lib \<Rightarrow> 'm \<Rightarrow> option93_error + client_arch" where
  "ArchFromOption93 lib msg =
     (case dl_option lib msg OptionClientSystemArchitectureType of
        None \<Rightarrow> Inl NoOption93
      | Some opt \<Rightarrow>
          if length opt < 2 then Inl (Option93TooShort (length opt))
          else
            let v = or (push_bit 8 (ucast (opt ! 0) :: 16 word)) (ucast (opt ! 1))
            in wrap_error UnknownOption93 (ParseArch v))"

definition is_ipxe :: "'m dhcp_lib \<Rightarrow> 'm \<Rightarrow> bool" where
  "is_ipxe lib msg =
     (case dl_option lib msg OptionUserClassInformation of
        None \<Rightarrow> False | Some user_class \<Rightarrow> contains_str (bytes_text user_class) ''iPXE'')"

definition go_bytes :: "byte list option \<Rightarrow> byte list" where
  "go_bytes b = (case b of None \<Rightarrow> [] | Some bs \<Rightarrow> bs)"

definition build_pxe_vendor_options :: "ip \<Rightarrow> byte list" where
  "build_pxe_vendor_options server_ip =
     (let disc_ctrl = [6, 1, 8];
          boot_servers = [8, 7, 0, 0, 1] @ go_bytes (ip_to4 server_ip);
          desc = string_bytes ''Bootforge PXE'';
          boot_menu = [9, of_nat (3 + length desc), 0, 0, of_nat (length desc)] @ desc;
          prompt = string_bytes ''Bootforge'';
          boot_prompt = [10, of_nat (1 + length prompt), 0] @ prompt
      in disc_ctrl @ boot_servers @ boot_menu @ boot_prompt @ [255])"

definition BuildProxyOffer :: "'m dhcp_lib \<Rightarrow> 'm \<Rightarrow> ip \<Rightarrow> string \<Rightarrow> bool \<Rightarrow> string + 'm" where
  "BuildProxyOffer lib discover server_ip bootfile ipxe_client =
     sum_bind (dl_new_reply lib discover MessageTypeOffer server_ip) (\<lambda>reply.
       let r1 = dl_set_server_ip lib server_ip reply;
           r2 = dl_update lib OptionTFTPServerName (Some (string_bytes (ip_string server_ip))) r1;
           r3 = dl_set_bootfile lib bootfile r2;
           r4 = dl_update lib OptionBootfileName (Some (string_bytes bootfile)) r3;
           r5 = (if \<not> ipxe_client
                 then dl_update lib OptionVendorSpecificInformation (Some (build_pxe_vendor_options server_ip)) r4
                 else r4);
           r6 = dl_update lib OptionServerIdentifier (ip_to4 server_ip) r5
       in Inr (dl_update lib OptionClassIdentifier (Some (string_bytes ''PXEClient'')) r6))"

section \<open>The proxy\<close>

text \<open>The server core, where there is one, with its registry.\<close>

record proxy_server =
  px_cfg :: dhcp_proxy_config
  px_bl :: bootloader_config
  px_ip :: ip
  px_iface :: string
  px_http_port :: int
  px_srv :: "registry option option"

definition bootfile_for_client :: "proxy_server \<Rightarrow> hwaddr \<Rightarrow> client_arch \<Rightarrow> string" where
  "bootfile_for_client p hw arch =
     (let global = bootloader_file_for_arch (px_bl p) arch in
      case px_srv p of
        Some (Some registry) \<Rightarrow>
          (case find_client registry hw of
             Inl _ \<Rightarrow> global
           | Inr client \<Rightarrow>
               (case cl_bootloader client of
                  None \<Rightarrow> global
                | Some bo \<Rightarrow> let f = override_file_for_arch bo arch in if f \<noteq> [] then f else global))
      | _ \<Rightarrow> global)"

definition resolve_chain_url :: "proxy_server \<Rightarrow> string \<Rightarrow> string" where
  "resolve_chain_url p mac =
     (let url = bl_chain_url (px_bl p);
          url = replace_all ''${server_ip}'' (ip_string (px_ip p)) url;
          url = replace_all ''${http_port}'' (dec_of_int (px_http_port p)) url
      in replace_all ''${mac}'' mac url)"

record udp_addr =
  ua_ip :: ip
  ua_port :: int

datatype drop_reason =
  NotDiscoverOrRequest
| NotPXEClient
| NoArchitecture option93_error
| NoChainURL
| NoBootloader client_arch
| OfferFailed string

datatype 'm proxy_outcome =
  Dropped drop_reason
| Answered 'm udp_addr "unit event"
| NilServer

definition proxy_event :: "'m dhcp_lib \<Rightarrow> 'm \<Rightarrow> 'm \<Rightarrow> client_arch \<Rightarrow> string \<Rightarrow> unit event" where
  "proxy_event lib msg reply arch bootfile =
     \<lparr>ev_type = EventDHCP, ev_at = None, ev_mac = dl_hwaddr lib msg,
      ev_message = ''PXE '' @ dl_type_name lib (dl_message_type lib msg) @
        [CHR '' '', CHR 0xE2, CHR 0x86, CHR 0x92, CHR '' ''] @
        dl_type_name lib (dl_message_type lib reply) @
        '' (arch='' @ arch_string arch @ '', file='' @ bootfile @ '')'',
      ev_data = None\<rparr>"

definition reply_dest :: "udp_addr option \<Rightarrow> udp_addr" where
  "reply_dest peer =
     (case peer of
        Some a \<Rightarrow> if \<not> ip_equal (ua_ip a) (ipv4 0 0 0 0) then a
                   else \<lparr>ua_ip = ipv4 255 255 255 255, ua_port = 68\<rparr>
      | None \<Rightarrow> \<lparr>ua_ip = ipv4 255 255 255 255, ua_port = 68\<rparr>)"

definition proxy_reply ::
  "'m dhcp_lib \<Rightarrow> proxy_server \<Rightarrow> udp_addr option \<Rightarrow> 'm \<Rightarrow> client_arch \<Rightarrow> string \<Rightarrow> bool \<Rightarrow> 'm proxy_outcome" where
  "proxy_reply lib p peer msg arch bootfile ipxe_client =
     (case BuildProxyOffer lib msg (px_ip p) bootfile ipxe_client of
        Inl err \<Rightarrow> Dropped (OfferFailed err)
      | Inr offer \<Rightarrow>
          let reply = (if dl_message_type lib msg = MessageTypeRequest
                       then dl_set_type lib MessageTypeAck offer else offer)
          in case px_srv p of
               None \<Rightarrow> NilServer
             | Some _ \<Rightarrow> Answered reply (reply_dest peer) (proxy_event lib msg reply arch bootfile))"

definition handle_message :: "'m dhcp_lib \<Rightarrow> proxy_server \<Rightarrow> udp_addr option \<Rightarrow> 'm \<Rightarrow> 'm proxy_outcome" where
  "handle_message lib p peer msg =
     (let msg_type = dl_message_type lib msg; hw = dl_hwaddr lib msg; mac = mac_string hw;
          class_id = dl_option lib msg OptionClassIdentifier in
      if msg_type \<noteq> MessageTypeDiscover \<and> msg_type \<noteq> MessageTypeRequest then Dropped NotDiscoverOrRequest
      else if class_id = None \<or> \<not> contains_str (bytes_text (go_bytes class_id)) ''PXEClient''
      then Dropped NotPXEClient
      else case ArchFromOption93 lib msg of
        Inl err \<Rightarrow> Dropped (NoArchitecture err)
      | Inr arch \<Rightarrow>
          if is_ipxe lib msg then
            let bootfile = resolve_chain_url p mac in
            if bootfile = [] then Dropped NoChainURL else proxy_reply lib p peer msg arch bootfile True
          else
            let bootfile = bootfile_for_client p hw arch in
            if bootfile = [] then Dropped (NoBootloader arch) else proxy_reply lib p peer msg arch bootfile False)"

section \<open>What the packet library promises\<close>

definition dhcp_lib_ok :: "'m dhcp_lib \<Rightarrow> bool" where
  "dhcp_lib_ok lib \<longleftrightarrow>
     (\<forall>m opt v opt'. dl_option lib (dl_update lib opt v m) opt' = (if opt' = opt then v else dl_option lib m opt')) \<and>
     (\<forall>m opt v. dl_message_type lib (dl_update lib opt v m) = dl_message_type lib m \<and>
        dl_bootfile lib (dl_update lib opt v m) = dl_bootfile lib m \<and>
        dl_server_ip lib (dl_update lib opt v m) = dl_server_ip lib m) \<and>
     (\<forall>m t opt. dl_message_type lib (dl_set_type lib t m) = t \<and>
        dl_option lib (dl_set_type lib t m) opt = dl_option lib m opt \<and>
        dl_bootfile lib (dl_set_type lib t m) = dl_bootfile lib m \<and>
        dl_server_ip lib (dl_set_type lib t m) = dl_server_ip lib m) \<and>
     (\<forall>m f opt. dl_bootfile lib (dl_set_bootfile lib f m) = f \<and>
        dl_message_type lib (dl_set_bootfile lib f m) = dl_message_type lib m \<and>
        dl_option lib (dl_set_bootfile lib f m) opt = dl_option lib m opt \<and>
        dl_server_ip lib (dl_set_bootfile lib f m) = dl_server_ip lib m) \<and>
     (\<forall>m ip opt. dl_server_ip lib (dl_set_server_ip lib ip m) = ip \<and>
        dl_message_type lib (dl_set_server_ip lib ip m) = dl_message_type lib m \<and>
        dl_option lib (dl_set_server_ip lib ip m) opt = dl_option lib m opt \<and>
        dl_bootfile lib (dl_set_server_ip lib ip m) = dl_bootfile lib m) \<and>
     (\<forall>m t ip r. dl_new_reply lib m t ip = Inr r \<longrightarrow> dl_message_type lib r = t)"

lemma dhcp_lib_laws:
  assumes "dhcp_lib_ok lib"
  shows "dl_option lib (dl_update lib opt v m) opt' = (if opt' = opt then v else dl_option lib m opt')"
    "dl_message_type lib (dl_update lib opt v m) = dl_message_type lib m"
    "dl_bootfile lib (dl_update lib opt v m) = dl_bootfile lib m"
    "dl_server_ip lib (dl_update lib opt v m) = dl_server_ip lib m"
    "dl_message_type lib (dl_set_type lib t m) = t"
    "dl_option lib (dl_set_type lib t m) opt = dl_option lib m opt"
    "dl_bootfile lib (dl_set_type lib t m) = dl_bootfile lib m"
    "dl_server_ip lib (dl_set_type lib t m) = dl_server_ip lib m"
    "dl_bootfile lib (dl_set_bootfile lib f m) = f"
    "dl_message_type lib (dl_set_bootfile lib f m) = dl_message_type lib m"
    "dl_option lib (dl_set_bootfile lib f m) opt = dl_option lib m opt"
    "dl_server_ip lib (dl_set_bootfile lib f m) = dl_server_ip lib m"
    "dl_server_ip lib (dl_set_server_ip lib ip m) = ip"
    "dl_message_type lib (dl_set_server_ip lib ip m) = dl_message_type lib m"
    "dl_option lib (dl_set_server_ip lib ip m) opt = dl_option lib m opt"
    "dl_bootfile lib (dl_set_server_ip lib ip m) = dl_bootfile lib m"
  using assms unfolding dhcp_lib_ok_def by simp_all

text \<open>The contents of an offer.\<close>

definition offer_fields :: "'m dhcp_lib \<Rightarrow> ip \<Rightarrow> string \<Rightarrow> bool \<Rightarrow> 'm \<Rightarrow> bool" where
  "offer_fields lib server_ip bootfile ipxe_client reply \<longleftrightarrow>
     dl_server_ip lib reply = server_ip \<and> dl_bootfile lib reply = bootfile \<and>
     dl_option lib reply OptionTFTPServerName = Some (string_bytes (ip_string server_ip)) \<and>
     dl_option lib reply OptionBootfileName = Some (string_bytes bootfile) \<and>
     dl_option lib reply OptionServerIdentifier = ip_to4 server_ip \<and>
     dl_option lib reply OptionClassIdentifier = Some (string_bytes ''PXEClient'') \<and>
     (ipxe_client \<or>
      dl_option lib reply OptionVendorSpecificInformation = Some (build_pxe_vendor_options server_ip))"

lemma BuildProxyOffer_fields:
  assumes ok: "dhcp_lib_ok lib" and offer: "BuildProxyOffer lib msg server_ip bootfile ipxe_client = Inr reply"
  shows "offer_fields lib server_ip bootfile ipxe_client reply \<and> dl_message_type lib reply = MessageTypeOffer"
proof -
  note laws = dhcp_lib_laws [OF ok]
  from offer obtain r where r: "dl_new_reply lib msg MessageTypeOffer server_ip = Inr r"
    by (auto simp: BuildProxyOffer_def sum_bind_Inr_iff)
  with ok have "dl_message_type lib r = MessageTypeOffer" by (auto simp: dhcp_lib_ok_def)
  with offer r show ?thesis
    by (cases ipxe_client) (auto simp: BuildProxyOffer_def offer_fields_def laws Let_def)
qed

lemma BuildProxyOffer_ok:
  "(\<exists>reply. BuildProxyOffer lib msg server_ip bootfile ipxe_client = Inr reply) \<longleftrightarrow>
   (\<exists>r. dl_new_reply lib msg MessageTypeOffer server_ip = Inr r)"
  by (cases "dl_new_reply lib msg MessageTypeOffer server_ip") (simp_all add: BuildProxyOffer_def Let_def)

text \<open>The boot file a client gets, and when it is a PXE request.\<close>

definition bootfile_for :: "'m dhcp_lib \<Rightarrow> proxy_server \<Rightarrow> 'm \<Rightarrow> client_arch \<Rightarrow> string" where
  "bootfile_for lib p msg arch =
     (if is_ipxe lib msg then resolve_chain_url p (mac_string (dl_hwaddr lib msg))
      else bootfile_for_client p (dl_hwaddr lib msg) arch)"

text \<open>The boot loader a client has of its own for an architecture, empty where it has none.\<close>

definition own_loader :: "proxy_server \<Rightarrow> hwaddr \<Rightarrow> client_arch \<Rightarrow> string" where
  "own_loader p hw arch =
     (case px_srv p of
        Some (Some registry) \<Rightarrow>
          (case find_client registry hw of
             Inr c \<Rightarrow> (case cl_bootloader c of Some bo \<Rightarrow> override_file_for_arch bo arch | None \<Rightarrow> [])
           | Inl _ \<Rightarrow> [])
      | _ \<Rightarrow> [])"

lemma bootfile_for_choice:
  "bootfile_for lib p msg arch =
     (if is_ipxe lib msg then resolve_chain_url p (mac_string (dl_hwaddr lib msg))
      else if own_loader p (dl_hwaddr lib msg) arch \<noteq> [] then own_loader p (dl_hwaddr lib msg) arch
      else bootloader_file_for_arch (px_bl p) arch)"
  by (auto simp: bootfile_for_def bootfile_for_client_def own_loader_def Let_def split: option.split sum.split)

definition pxe_request :: "'m dhcp_lib \<Rightarrow> 'm \<Rightarrow> bool" where
  "pxe_request lib msg \<longleftrightarrow>
     dl_message_type lib msg \<in> {MessageTypeDiscover, MessageTypeRequest} \<and>
     (case dl_option lib msg OptionClassIdentifier of
        None \<Rightarrow> False | Some class_id \<Rightarrow> contains_str (bytes_text class_id) ''PXEClient'')"

lemma handle_message_eq:
  "handle_message lib p peer msg =
     (if dl_message_type lib msg \<notin> {MessageTypeDiscover, MessageTypeRequest} then Dropped NotDiscoverOrRequest
      else if \<not> pxe_request lib msg then Dropped NotPXEClient
      else case ArchFromOption93 lib msg of
        Inl err \<Rightarrow> Dropped (NoArchitecture err)
      | Inr arch \<Rightarrow>
          if bootfile_for lib p msg arch = [] then Dropped (if is_ipxe lib msg then NoChainURL else NoBootloader arch)
          else proxy_reply lib p peer msg arch (bootfile_for lib p msg arch) (is_ipxe lib msg))"
  by (auto simp: handle_message_def pxe_request_def bootfile_for_def Let_def go_bytes_def
      split: option.splits sum.split)

lemma proxy_reply_answered:
  assumes "proxy_reply lib p peer msg arch bootfile ipxe_client = Answered reply dest ev"
  obtains offer where "BuildProxyOffer lib msg (px_ip p) bootfile ipxe_client = Inr offer"
    "reply = (if dl_message_type lib msg = MessageTypeRequest then dl_set_type lib MessageTypeAck offer else offer)"
    "dest = reply_dest peer" "ev = proxy_event lib msg reply arch bootfile"
  using assms by (auto simp: proxy_reply_def Let_def split: sum.splits option.splits)

lemma reply_dest_cases:
  "reply_dest peer =
     (case peer of
        Some a \<Rightarrow> if ip_to4 (ua_ip a) = Some [0, 0, 0, 0] then \<lparr>ua_ip = ipv4 255 255 255 255, ua_port = 68\<rparr> else a
      | None \<Rightarrow> \<lparr>ua_ip = ipv4 255 255 255 255, ua_port = 68\<rparr>)"
  by (auto simp: reply_dest_def ip_equal_ipv4 split: option.split)

lemma resolve_chain_url_template:
  assumes "bl_chain_url (px_bl p) = chain_template" and "CHR ''$'' \<notin> set (ip_string (px_ip p))"
  shows "resolve_chain_url p mac =
    ''http://'' @ ip_string (px_ip p) @ '':'' @ dec_of_int (px_http_port p) @ ''/boot/'' @ mac @ ''/menu.ipxe''"
  using chain_template_value [OF assms(2)] by (simp add: resolve_chain_url_def assms(1))

section \<open>The vendor options\<close>

text \<open>The sub-options of option 43: a type, a length and that many bytes each, up to the end
  marker 255.\<close>

function parse_tlv :: "byte list \<Rightarrow> (byte \<times> byte list) list option" where
  "parse_tlv [] = None"
| "parse_tlv [t] = (if t = 255 then Some [] else None)"
| "parse_tlv (t # l # bs) =
     (if t = 255 then None
      else if length bs < unat l then None
      else map_option (\<lambda>opts. (t, take (unat l) bs) # opts) (parse_tlv (drop (unat l) bs)))"
  by pat_completeness auto
termination by (relation "measure length") auto

lemma parse_tlv_option:
  "unat l = length v \<Longrightarrow> t \<noteq> 255 \<Longrightarrow> parse_tlv (t # l # v @ bs) = map_option (\<lambda>opts. (t, v) # opts) (parse_tlv bs)"
  by simp

section \<open>A packet library\<close>

text \<open>Packets as records, an instance of the parameter.\<close>

record sample_packet =
  sp_type :: message_type
  sp_hwaddr :: hwaddr
  sp_server_ip :: ip
  sp_bootfile :: string
  sp_options :: "dhcp_option \<Rightarrow> byte list option"

definition sample_lib :: "sample_packet dhcp_lib" where
  "sample_lib =
     \<lparr>dl_option = sp_options, dl_message_type = sp_type, dl_hwaddr = sp_hwaddr, dl_server_ip = sp_server_ip,
      dl_bootfile = sp_bootfile,
      dl_new_reply = (\<lambda>m t ip. Inr \<lparr>sp_type = t, sp_hwaddr = sp_hwaddr m, sp_server_ip = ip, sp_bootfile = [],
        sp_options = (\<lambda>_. None)\<rparr>),
      dl_update = (\<lambda>opt v m. m\<lparr>sp_options := (sp_options m)(opt := v)\<rparr>),
      dl_set_type = (\<lambda>t m. m\<lparr>sp_type := t\<rparr>), dl_set_server_ip = (\<lambda>ip m. m\<lparr>sp_server_ip := ip\<rparr>),
      dl_set_bootfile = (\<lambda>f m. m\<lparr>sp_bootfile := f\<rparr>), dl_type_name = (\<lambda>_. ''DISCOVER'')\<rparr>"

lemma sample_lib_ok: "dhcp_lib_ok sample_lib"
  by (simp add: dhcp_lib_ok_def sample_lib_def)

definition sample_discover :: "string \<Rightarrow> sample_packet" where
  "sample_discover user_class =
     \<lparr>sp_type = MessageTypeDiscover, sp_hwaddr = Some [2, 0, 0, 0, 0, 1], sp_server_ip = [], sp_bootfile = [],
      sp_options = (\<lambda>_. None)
        (OptionClassIdentifier := Some (string_bytes ''PXEClient:Arch:00007''),
         OptionClientSystemArchitectureType := Some [0, 7],
         OptionUserClassInformation := Some (string_bytes user_class))\<rparr>"

definition sample_proxy :: proxy_server where
  "sample_proxy =
     \<lparr>px_cfg = \<lparr>dp_enabled = True, dp_port = 67, dp_proxy_port = 4011, dp_vendor_class = ''PXEClient''\<rparr>,
      px_bl = \<lparr>bl_dir = ''bootloader'', bl_uefix64 = ''ipxe.efi'', bl_uefix86 = [], bl_bios = [], bl_arm64 = [],
        bl_chain_url = chain_template\<rparr>,
      px_ip = ipv4 10 0 0 1, px_iface = ''eth0'', px_http_port = 8080,
      px_srv = Some (Some (NewRegistry []))\<rparr>"

section \<open>Properties\<close>

text \<open>The vendor options the proxy sends are four well-formed sub-options (discovery
  control, the boot server with the address, the menu and the prompt), exactly where the
  server address has an IPv4 form; for any other address they cannot be parsed.\<close>

lemma vendor_options_tlv:
  "parse_tlv (build_pxe_vendor_options ip) =
     map_option (\<lambda>addr. [(6, [8]), (8, [0, 0, 1] @ addr), (9, [0, 0, 13] @ string_bytes ''Bootforge PXE''),
       (10, 0 # string_bytes ''Bootforge'')]) (ip_to4 ip)"
proof (cases "ip_to4 ip")
  case None
  then show ?thesis
    by (simp add: build_pxe_vendor_options_def go_bytes_def string_bytes_def Let_def)
next
  case (Some addr)
  then have "length addr = 4" by (rule ip_to4_length)
  then obtain a b c d where "addr = [a, b, c, d]"
    by (auto simp: length_Suc_conv numeral_eq_Suc)
  with Some show ?thesis
    by (simp add: build_pxe_vendor_options_def go_bytes_def string_bytes_def Let_def)
qed

text \<open>C10 (dhcp_answers_iff). A packet is answered exactly where it is a Discover or a Request whose
  class identifier contains \<open>PXEClient\<close>, its architecture option is present and known, there is
  a boot file for it (the chain URL for iPXE, the client's or the global boot loader of the
  architecture otherwise) and the library can build the reply.\<close>

theorem dhcp_answers_iff:
  assumes "px_srv p \<noteq> None"
  shows "(\<exists>reply dest ev. handle_message lib p peer msg = Answered reply dest ev) \<longleftrightarrow>
    pxe_request lib msg \<and>
    (\<exists>arch. ArchFromOption93 lib msg = Inr arch \<and> bootfile_for lib p msg arch \<noteq> []) \<and>
    (\<exists>r. dl_new_reply lib msg MessageTypeOffer (px_ip p) = Inr r)"
proof (cases "ArchFromOption93 lib msg")
  case (Inl err)
  then show ?thesis by (simp add: handle_message_eq)
next
  case (Inr arch)
  have "(\<exists>reply dest ev. proxy_reply lib p peer msg arch bf ipxe_client = Answered reply dest ev) \<longleftrightarrow>
      (\<exists>reply. BuildProxyOffer lib msg (px_ip p) bf ipxe_client = Inr reply)" for bf ipxe_client
    using assms by (auto simp: proxy_reply_def Let_def split: sum.splits)
  with Inr show ?thesis
    by (auto simp: handle_message_eq BuildProxyOffer_ok pxe_request_def split: if_splits)
qed

theorem dhcp_answers_iff_witness:
  "\<exists>reply dest ev. handle_message sample_lib sample_proxy None (sample_discover []) = Answered reply dest ev"
proof -
  have "px_srv sample_proxy \<noteq> None" by (simp add: sample_proxy_def)
  moreover have "pxe_request sample_lib (sample_discover [])"
    by (simp add: pxe_request_def sample_lib_def sample_discover_def)
  moreover have "ArchFromOption93 sample_lib (sample_discover []) = Inr ArchUEFIx64 \<and>
      bootfile_for sample_lib sample_proxy (sample_discover []) ArchUEFIx64 = ''ipxe.efi''"
    by code_simp
  moreover have "\<exists>r. dl_new_reply sample_lib (sample_discover []) MessageTypeOffer (px_ip sample_proxy) = Inr r"
    by (simp add: sample_lib_def)
  ultimately show ?thesis
    by (subst dhcp_answers_iff) auto
qed

text \<open>C32 (dhcp_reply_spec). Every reply offers one boot file on this server: to iPXE the chain URL for its
  address, to other firmware the boot loader the client has of its own for its architecture and
  otherwise the global one. The answer to a
  Discover is an offer, to a Request an acknowledgement; the boot file is in the header and
  in option 67, the server in the header and in options 66 and 54, the class identifier is
  \<open>PXEClient\<close>, and a client that is not iPXE gets the vendor options. It goes to the peer where that has an
  address other than 0.0.0.0, and otherwise to port 68 of the broadcast address; the
  event has the address of the client, both types, the architecture and the file.\<close>

theorem dhcp_reply_spec:
  assumes "dhcp_lib_ok lib" and "handle_message lib p peer msg = Answered reply dest ev"
  shows "\<exists>arch bootfile. ArchFromOption93 lib msg = Inr arch \<and>
    bootfile =
      (if is_ipxe lib msg then resolve_chain_url p (mac_string (dl_hwaddr lib msg))
       else if own_loader p (dl_hwaddr lib msg) arch \<noteq> [] then own_loader p (dl_hwaddr lib msg) arch
       else bootloader_file_for_arch (px_bl p) arch) \<and>
    offer_fields lib (px_ip p) bootfile (is_ipxe lib msg) reply \<and>
    dl_message_type lib reply =
      (if dl_message_type lib msg = MessageTypeDiscover then MessageTypeOffer else MessageTypeAck) \<and>
    (case peer of
       Some a \<Rightarrow> if ip_to4 (ua_ip a) \<noteq> Some [0, 0, 0, 0] then dest = a
                else ip_to4 (ua_ip dest) = Some [255, 255, 255, 255] \<and> ua_port dest = 68
     | None \<Rightarrow> ip_to4 (ua_ip dest) = Some [255, 255, 255, 255] \<and> ua_port dest = 68) \<and>
    ev_type ev = EventDHCP \<and> ev_mac ev = dl_hwaddr lib msg \<and>
    ev_message ev = ''PXE '' @ dl_type_name lib (dl_message_type lib msg) @
      [CHR '' '', CHR 0xE2, CHR 0x86, CHR 0x92, CHR '' ''] @ dl_type_name lib (dl_message_type lib reply) @
      '' (arch='' @ arch_string arch @ '', file='' @ bootfile @ '')''"
proof -
  from assms(2) obtain arch where type: "dl_message_type lib msg \<in> {MessageTypeDiscover, MessageTypeRequest}"
    and arch: "ArchFromOption93 lib msg = Inr arch"
    and answer: "proxy_reply lib p peer msg arch (bootfile_for lib p msg arch) (is_ipxe lib msg) = Answered reply dest ev"
    by (auto simp: handle_message_eq split: if_splits sum.splits)
  from answer obtain offer where offer:
    "BuildProxyOffer lib msg (px_ip p) (bootfile_for lib p msg arch) (is_ipxe lib msg) = Inr offer"
    "reply = (if dl_message_type lib msg = MessageTypeRequest then dl_set_type lib MessageTypeAck offer else offer)"
    "dest = reply_dest peer" "ev = proxy_event lib msg reply arch (bootfile_for lib p msg arch)"
    by (rule proxy_reply_answered)
  from BuildProxyOffer_fields [OF assms(1) offer(1)]
  have "offer_fields lib (px_ip p) (bootfile_for lib p msg arch) (is_ipxe lib msg) reply \<and>
    dl_message_type lib reply =
      (if dl_message_type lib msg = MessageTypeDiscover then MessageTypeOffer else MessageTypeAck)"
    using type offer(2) by (auto simp: offer_fields_def dhcp_lib_laws [OF assms(1)])
  with arch bootfile_for_choice [of lib p msg arch] offer(3,4) show ?thesis
    by (intro exI [of _ arch] exI [of _ "bootfile_for lib p msg arch"])
      (simp add: reply_dest_cases proxy_event_def split: option.split)
qed

theorem dhcp_reply_spec_witness:
  "\<exists>reply dest ev. handle_message sample_lib sample_proxy None (sample_discover ''iPXE'') = Answered reply dest ev \<and>
     sp_bootfile reply = ''http://10.0.0.1:8080/boot/02:00:00:00:00:01/menu.ipxe'' \<and>
     ip_to4 (ua_ip dest) = Some [255, 255, 255, 255] \<and> ua_port dest = 68"
proof -
  have pxe: "pxe_request sample_lib (sample_discover ''iPXE'')"
    by (simp add: pxe_request_def sample_lib_def sample_discover_def)
  have ipxe: "is_ipxe sample_lib (sample_discover ''iPXE'')"
    by (simp add: is_ipxe_def sample_lib_def sample_discover_def)
  have arch: "ArchFromOption93 sample_lib (sample_discover ''iPXE'') = Inr ArchUEFIx64" by code_simp
  have "bytes_string [2, 0, 0, 0, 0, 1] = ''02:00:00:00:00:01''" by code_simp
  then have mac: "mac_string (dl_hwaddr sample_lib (sample_discover ''iPXE'')) = ''02:00:00:00:00:01''"
    by (simp add: sample_lib_def sample_discover_def)
  have "ip_string (ipv4 10 0 0 1) = ''10.0.0.1''"
    by (simp add: ip_string_ipv4 [OF ip_to4_ipv4] dec_of_nat.simps dec_digit_def)
  then have ip: "ip_string (px_ip sample_proxy) = ''10.0.0.1''" by (simp add: sample_proxy_def)
  have "dec_of_int 8080 = ''8080''" by (simp add: dec_of_int_def dec_of_nat.simps dec_digit_def)
  then have port: "dec_of_int (px_http_port sample_proxy) = ''8080''" by (simp add: sample_proxy_def)
  have "bl_chain_url (px_bl sample_proxy) = chain_template" by (simp add: sample_proxy_def)
  with ip mac port have "resolve_chain_url sample_proxy (mac_string (dl_hwaddr sample_lib (sample_discover ''iPXE''))) =
      ''http://10.0.0.1:8080/boot/02:00:00:00:00:01/menu.ipxe''"
    by (subst resolve_chain_url_template) simp_all
  with ipxe have bf: "bootfile_for sample_lib sample_proxy (sample_discover ''iPXE'') arch =
      ''http://10.0.0.1:8080/boot/02:00:00:00:00:01/menu.ipxe''" for arch
    by (simp add: bootfile_for_def)
  obtain offer where "BuildProxyOffer sample_lib (sample_discover ''iPXE'') (px_ip sample_proxy)
      ''http://10.0.0.1:8080/boot/02:00:00:00:00:01/menu.ipxe'' True = Inr offer"
    by (simp add: BuildProxyOffer_def sample_lib_def Let_def)
  moreover have "px_srv sample_proxy = Some (Some (NewRegistry []))" by (simp add: sample_proxy_def)
  moreover have "handle_message sample_lib sample_proxy None (sample_discover ''iPXE'') =
      proxy_reply sample_lib sample_proxy None (sample_discover ''iPXE'') ArchUEFIx64
        ''http://10.0.0.1:8080/boot/02:00:00:00:00:01/menu.ipxe'' True"
    using pxe by (auto simp: handle_message_eq pxe_request_def arch bf ipxe)
  ultimately obtain reply dest ev where
    answered: "handle_message sample_lib sample_proxy None (sample_discover ''iPXE'') = Answered reply dest ev"
    by (simp add: proxy_reply_def Let_def)
  from bf ipxe have url: "resolve_chain_url sample_proxy (mac_string (dl_hwaddr sample_lib (sample_discover ''iPXE''))) =
      ''http://10.0.0.1:8080/boot/02:00:00:00:00:01/menu.ipxe''" by (simp add: bootfile_for_def)
  from dhcp_reply_spec [OF sample_lib_ok answered] have "ip_to4 (ua_ip dest) = Some [255, 255, 255, 255]" "ua_port dest = 68"
    "dl_bootfile sample_lib reply = ''http://10.0.0.1:8080/boot/02:00:00:00:00:01/menu.ipxe''"
    by (auto simp: offer_fields_def ipxe url)
  with answered show ?thesis by (auto simp: sample_lib_def)
qed

end
