(* ===== verification/Tftp.thy ===== *)
theory Tftp
  imports TomlLoader Ipxe
begin

text \<open>
  The TFTP server: \<open>internal/service/tftp/server.go\<close>, its configuration, the resolution of file
  names and the read handler on the model of the file system. The protocol is done by a library
  outside the repository; the result of the handler is what it hands to the library's transfer
  (the size it sets and the data), or its error. Reading from an opened directory fails. Logging is
  left out.
\<close>

section \<open>The server\<close>

record autoexec_config =
  ac_server_ip :: string
  ac_http_port :: int
  ac_chain_url :: string

record tftp_server =
  ts_cfg :: tftp_config
  ts_data_dir :: string
  ts_bl_dir :: string
  ts_autoexec :: "autoexec_config option"

definition NewTFTPServer :: "tftp_config \<Rightarrow> string \<Rightarrow> string \<Rightarrow> tftp_server" where
  "NewTFTPServer cfg data_dir loader_dir =
     \<lparr>ts_cfg = cfg, ts_data_dir = data_dir, ts_bl_dir = loader_dir, ts_autoexec = None\<rparr>"

definition SetAutoexec :: "autoexec_config \<Rightarrow> tftp_server \<Rightarrow> tftp_server" where
  "SetAutoexec cfg s = s\<lparr>ts_autoexec := Some cfg\<rparr>"

datatype path_error = PathTraversal string string string

definition resolve_path :: "string \<Rightarrow> tftp_server \<Rightarrow> string \<Rightarrow> path_error + string" where
  "resolve_path cwd s filename =
     (let base_dir = path_join [ts_data_dir s, ts_bl_dir s];
          abs_base = path_abs cwd base_dir;
          cleaned = path_clean filename;
          full_path = path_join [abs_base, cleaned];
          target = path_abs cwd full_path
      in if \<not> has_prefix target (abs_base @ [slash]) \<and> target \<noteq> abs_base
         then Inl (PathTraversal filename target abs_base)
         else Inr target)"

datatype tftp_error = AccessDenied string | FileNotFound string | ReadFailed string

datatype tftp_result = Transfer nat string | Failed tftp_error

definition serve_autoexec :: "autoexec_config \<Rightarrow> tftp_result" where
  "serve_autoexec cfg =
     (let url = ac_chain_url cfg;
          url = replace_all ''${server_ip}'' (ac_server_ip cfg) url;
          url = replace_all ''${http_port}'' (dec_of_int (ac_http_port cfg)) url;
          url = replace_all ''${mac}'' ''${net0/mac}'' url;
          script = ''#!ipxe'' @ nl @ ''chain --autofree '' @ url @ nl
      in Transfer (length script) script)"

definition serve_file :: "file_system \<Rightarrow> tftp_server \<Rightarrow> string \<Rightarrow> tftp_result" where
  "serve_file fs s filename =
     (case resolve_path (fs_cwd fs) s filename of
        Inl _ \<Rightarrow> Failed (AccessDenied filename)
      | Inr full_path \<Rightarrow>
          (case fs_lookup fs full_path of
             None \<Rightarrow> Failed (FileNotFound filename)
           | Some DirNode \<Rightarrow> Failed (ReadFailed full_path)
           | Some (FileNode data) \<Rightarrow> Transfer (length data) data))"

definition read_handler :: "file_system \<Rightarrow> tftp_server \<Rightarrow> string \<Rightarrow> tftp_result" where
  "read_handler fs s filename =
     (case ts_autoexec s of
        Some cfg \<Rightarrow>
          if path_clean filename = ''autoexec.ipxe'' then serve_autoexec cfg
          else serve_file fs s filename
      | None \<Rightarrow> serve_file fs s filename)"

section \<open>Paths below the boot loader directory\<close>

definition base_elems :: "string \<Rightarrow> tftp_server \<Rightarrow> string list" where
  "base_elems cwd s = path_elems (path_abs cwd (path_join [ts_data_dir s, ts_bl_dir s]))"

text \<open>Where a requested name leads, element by element, from the base directory.\<close>

definition target_elems :: "string list \<Rightarrow> string \<Rightarrow> string list" where
  "target_elems base filename =
     (if path_is_abs filename then base @ clean_elems True (path_elems filename)
      else clean_elems True (base @ path_elems filename))"

lemma base_elems_ok:
  assumes "path_is_abs cwd"
  shows "\<forall>e \<in> set (base_elems cwd s). elem_ok e"
    and "path_abs cwd (path_join [ts_data_dir s, ts_bl_dir s]) = abs_path (base_elems cwd s)"
proof -
  obtain es where "path_abs cwd (path_join [ts_data_dir s, ts_bl_dir s]) = abs_path es" "\<forall>e \<in> set es. elem_ok e"
    using path_abs_cases [OF assms] by blast
  then show "\<forall>e \<in> set (base_elems cwd s). elem_ok e"
    and "path_abs cwd (path_join [ts_data_dir s, ts_bl_dir s]) = abs_path (base_elems cwd s)"
    by (simp_all add: base_elems_def)
qed

lemma join_target:
  assumes "\<forall>e \<in> set bs. elem_ok e"
  shows "path_join [abs_path bs, path_clean filename] = abs_path (target_elems bs filename)"
    and "\<forall>e \<in> set (target_elems bs filename). elem_ok e"
proof -
  show "path_join [abs_path bs, path_clean filename] = abs_path (target_elems bs filename)"
  proof (cases "path_is_abs filename")
    case True
    obtain es where es: "path_clean filename = abs_path es" "\<forall>e \<in> set es. elem_ok e"
      "es = clean_elems True (path_elems filename)"
      using path_clean_abs [OF True] clean_elems_ok by blast
    then show ?thesis
      using assms True
      by (simp add: path_join_abs_path fold_push_plain elem_ok_def target_elems_def)
  next
    case False
    then show ?thesis
      using assms by (simp add: path_join_abs_path clean_relative fold_push_clean target_elems_def
          clean_elems_def [of True] fold_push_plain elem_ok_def)
  qed
  have "\<forall>e \<in> set (bs @ path_elems filename). e = ''..'' \<or> elem_ok e"
    using assms path_elems_ok by auto
  then have "\<forall>e \<in> set (clean_elems True (bs @ path_elems filename)). elem_ok e"
    unfolding clean_elems_def set_rev by (rule fold_push_ok) simp
  then show "\<forall>e \<in> set (target_elems bs filename). elem_ok e"
    using assms clean_elems_ok [of filename] by (auto simp: target_elems_def)
qed

lemma root_prefix:
  assumes "\<forall>e \<in> set ts. elem_ok e"
  shows "\<not> has_prefix (abs_path ts) (abs_path [] @ [slash])"
proof (cases ts)
  case Nil
  then show ?thesis by (simp add: abs_path_def)
next
  case (Cons e es)
  have "elem_ok e" using assms unfolding Cons by simp
  then obtain c cs where "e = c # cs" "c \<noteq> slash" by (cases e) (auto simp: elem_ok_def)
  then show ?thesis by (cases es) (simp_all add: Cons abs_path_def)
qed

lemma take_prefix_iff: "take (length bs) ts = bs \<longleftrightarrow> (\<exists>r. ts = bs @ r)"
  by (metis append_eq_conv_conj append_take_drop_id)

lemma resolve_path_eq:
  assumes cwd: "path_is_abs cwd"
  shows "resolve_path cwd s filename =
    (let bs = base_elems cwd s; ts = target_elems bs filename
     in if ts = bs \<or> bs \<noteq> [] \<and> take (length bs) ts = bs then Inr (abs_path ts)
        else Inl (PathTraversal filename (abs_path ts) (abs_path bs)))"
proof -
  let ?bs = "base_elems cwd s"
  let ?ts = "target_elems ?bs filename"
  note bs = base_elems_ok [OF cwd, of s]
  note ts = join_target [OF bs(1), of filename]
  have target: "path_abs cwd (path_join [abs_path ?bs, path_clean filename]) = abs_path ?ts"
    using ts by (simp add: path_abs_def)
  have eq: "abs_path ?ts = abs_path ?bs \<longleftrightarrow> ?ts = ?bs"
    using abs_path_inj [OF ts(2) bs(1)] by auto
  have "has_prefix (abs_path ?ts) (abs_path ?bs @ [slash]) \<longleftrightarrow> ?bs \<noteq> [] \<and> ?ts \<noteq> ?bs \<and> take (length ?bs) ?ts = ?bs"
  proof (cases "?bs = []")
    case True
    then show ?thesis using ts(2) by (simp add: root_prefix)
  next
    case False
    then show ?thesis unfolding abs_path_prefix_iff [OF bs(1) ts(2) False] take_prefix_iff by auto
  qed
  with target eq bs(2) show ?thesis
    by (auto simp: resolve_path_def Let_def)
qed

lemma fs_lookup_abs_path:
  "\<forall>e \<in> set es. elem_ok e \<Longrightarrow> fs_lookup fs (abs_path es) = map_of (fs_nodes fs) (abs_path es)"
  by (simp add: fs_lookup_def path_abs_def) (simp add: abs_path_def)

lemma target_of_relative:
  assumes "\<forall>e \<in> set bs. elem_ok e" and "list_all elem_ok r"
  shows "target_elems bs (join_elems r) = bs @ r"
proof -
  have r: "\<forall>e \<in> set r. elem_ok e" using assms(2) by (simp add: list_all_iff)
  have "\<not> path_is_abs (join_elems r)"
  proof (cases r)
    case Nil
    then show ?thesis by (simp add: is_abs_iff)
  next
    case (Cons e es)
    then have "elem_ok e" using r by simp
    then obtain c cs where "e = c # cs" "c \<noteq> slash" by (cases e) (auto simp: elem_ok_def)
    then show ?thesis by (cases es) (simp_all add: Cons is_abs_iff)
  qed
  moreover have "path_elems (join_elems r) = r" using r by (intro path_elems_join) (auto dest: elem_okD)
  ultimately show ?thesis
    using assms(1) r by (simp add: target_elems_def clean_elems_plain ball_Un)
qed

section \<open>Properties\<close>

text \<open>C11 (tftp_contained). What the server transfers for a name (other than the generated script) is the
  content of a file in the boot loader directory or below, namely the one the name leads to when its
  elements are followed from there, and every such file can be had, under its relative name; only
  where the directory is the root of the file system everything is refused.\<close>

theorem tftp_contained:
  assumes "path_is_abs (fs_cwd fs)" and "ts_autoexec s = None \<or> path_clean filename \<noteq> ''autoexec.ipxe''"
    and "list_all elem_ok r"
  defines "bs \<equiv> base_elems (fs_cwd fs) s"
  shows "(read_handler fs s filename = Transfer n data \<longleftrightarrow>
      (\<exists>q. target_elems bs filename = bs @ q \<and> (bs \<noteq> [] \<or> q = []) \<and>
         map_of (fs_nodes fs) (abs_path (bs @ q)) = Some (FileNode data) \<and> n = length data)) \<and>
    target_elems bs (join_elems r) = bs @ r"
proof -
  let ?ts = "target_elems bs filename"
  note ok = base_elems_ok(1) [OF assms(1), of s, folded bs_def]
  have "read_handler fs s filename = serve_file fs s filename"
    using assms(2) by (auto simp: read_handler_def split: option.split)
  then have "read_handler fs s filename = Transfer n data \<longleftrightarrow>
      (?ts = bs \<or> bs \<noteq> [] \<and> take (length bs) ?ts = bs) \<and>
      map_of (fs_nodes fs) (abs_path ?ts) = Some (FileNode data) \<and> n = length data"
    using resolve_path_eq [OF assms(1), of s filename, folded bs_def]
      fs_lookup_abs_path [OF join_target(2) [OF ok, of filename], of fs]
    by (auto simp: serve_file_def Let_def split: option.splits fs_node.splits)
  also have "\<dots> \<longleftrightarrow> (\<exists>q. ?ts = bs @ q \<and> (bs \<noteq> [] \<or> q = []) \<and>
         map_of (fs_nodes fs) (abs_path (bs @ q)) = Some (FileNode data) \<and> n = length data)"
    unfolding take_prefix_iff by auto
  finally show ?thesis using target_of_relative [OF ok assms(3)] by simp
qed

definition sample_tftp :: tftp_server where
  "sample_tftp = NewTFTPServer \<lparr>tc_enabled = True, tc_port = 69, tc_block_size = 512, tc_timeout = 5, tc_retries = 0\<rparr>
     ''/srv'' ''boot''"

definition tftp_fs :: file_system where
  "tftp_fs = \<lparr>fs_cwd = ''/'', fs_nodes = [(''/srv/boot/ipxe.efi'', FileNode ''EFI''), (''/etc/shadow'', FileNode ''x'')]\<rparr>"

theorem tftp_contained_witness:
  "read_handler tftp_fs sample_tftp ''x/../ipxe.efi'' = Transfer 3 ''EFI'' \<and>
   read_handler tftp_fs sample_tftp ''../../etc/shadow'' \<noteq> Transfer 1 ''x''"
proof -
  have cwd: "path_is_abs (fs_cwd tftp_fs)" by code_simp
  have auto_none: "ts_autoexec sample_tftp = None \<or> f" for f by (simp add: sample_tftp_def NewTFTPServer_def)
  have base: "base_elems (fs_cwd tftp_fs) sample_tftp = [''srv'', ''boot'']" by code_simp
  have inside: "target_elems [''srv'', ''boot''] ''x/../ipxe.efi'' = [''srv'', ''boot'', ''ipxe.efi'']"
    and outside: "target_elems [''srv'', ''boot''] ''../../etc/shadow'' = [''etc'', ''shadow'']"
    by code_simp+
  have node: "map_of (fs_nodes tftp_fs) (abs_path [''srv'', ''boot'', ''ipxe.efi'']) = Some (FileNode ''EFI'')"
    by code_simp
  show ?thesis
    using tftp_contained [OF cwd auto_none, of "[]" "''x/../ipxe.efi''" 3 "''EFI''"]
      tftp_contained [OF cwd auto_none, of "[]" "''../../etc/shadow''" 1 "''x''"] node
    by (simp add: base inside outside)
qed

end
