(* ===== verification/Routes.thy ===== *)
theory Routes
  imports BootService Dhcp Tftp
begin

text \<open>
  The HTTP routes of the boot server: \<open>SetupRoutes\<close> and \<open>safeFileServer\<close> of
  \<open>internal/service/httpboot/routes.go\<close>, on the multiplexer and the file server of the standard
  library, for request paths without percent escapes; and the composition of the parts a
  booting machine meets. The management interface is mounted by \<open>cli/serve.go\<close> under \<open>/api/\<close>.
\<close>

section \<open>The multiplexer\<close>

datatype boot_route =
  BootMenu string
| StaticData string
| Healthz
| ManagementApi
| RedirectSlash string
| NoRoute
| MethodNotAllowed

text \<open>The path as the multiplexer cleans it; a request for any other form is redirected to it.\<close>

definition clean_url :: "string \<Rightarrow> string" where
  "clean_url p =
     (let p1 = (if path_is_abs p then p else slash # p); np = path_clean p1
      in if last p1 = slash \<and> np \<noteq> [slash] then np @ [slash] else np)"

text \<open>The registered patterns on the segments of a path, with the flag for those with a method
  \<open>GET\<close>, which matches \<open>HEAD\<close> as well.\<close>

fun match_pattern :: "string list \<Rightarrow> (boot_route \<times> bool) option" where
  "match_pattern segs =
     (case segs of
        [] \<Rightarrow> None
      | first # rest \<Rightarrow>
          if first = ''boot'' \<and> length rest = 2 \<and> rest ! 0 \<noteq> [] \<and> rest ! 1 = ''menu.ipxe''
          then Some (BootMenu (rest ! 0), True)
          else if first = ''data'' \<and> rest \<noteq> [] then Some (StaticData (join_elems rest), True)
          else if first = ''healthz'' \<and> rest = [] then Some (Healthz, True)
          else if first = ''api'' \<and> rest \<noteq> [] then Some (ManagementApi, False)
          else None)"

definition method_ok :: "string \<Rightarrow> bool \<Rightarrow> bool" where
  "method_ok meth get_only \<longleftrightarrow> \<not> get_only \<or> meth = ''GET'' \<or> meth = ''HEAD''"

definition route :: "string \<Rightarrow> string \<Rightarrow> boot_route" where
  "route meth p =
     (let path = clean_url p; segs = split_char slash (tl path) in
      if segs = [''api''] \<or> segs = [''data''] \<and> method_ok meth True then RedirectSlash (path @ [slash])
      else if path \<noteq> p then RedirectSlash path
      else case match_pattern segs of
        Some (r, get_only) \<Rightarrow> if method_ok meth get_only then r else MethodNotAllowed
      | None \<Rightarrow> if segs = [''data''] then MethodNotAllowed else NoRoute)"

section \<open>Static files\<close>

datatype http_answer =
  Answer http_response
| Redirected string
| Listing string
| ApiAnswer

text \<open>\<open>http.FileServer\<close> on \<open>http.Dir(root)\<close>; the listing stands for the names in a directory.\<close>

definition last_elem :: "string \<Rightarrow> string" where
  "last_elem p = (if path_elems p = [] then [slash] else last (path_elems p))"

definition dir_open :: "file_system \<Rightarrow> string \<Rightarrow> string \<Rightarrow> fs_node option" where
  "dir_open fs root name =
     fs_lookup fs (path_join [if root = [] then ''.'' else root, join_elems (path_elems (path_clean (slash # name)))])"

definition http_file_server :: "file_system \<Rightarrow> string \<Rightarrow> string \<Rightarrow> http_answer" where
  "http_file_server fs root p =
     (let upath = (if path_is_abs p then p else slash # p); name = path_clean upath in
      if has_suffix upath ''/index.html'' then Redirected ''./''
      else case dir_open fs root name of
        None \<Rightarrow> Answer (http_error ''404 page not found'' 404)
      | Some (FileNode data) \<Rightarrow>
          if last upath = slash then Redirected (''../'' @ last_elem upath)
          else Answer \<lparr>hr_status = 200, hr_body = data\<rparr>
      | Some DirNode \<Rightarrow>
          if last upath \<noteq> slash then Redirected (last_elem upath @ [slash])
          else case dir_open fs root (name @ ''/index.html'') of
            Some (FileNode data) \<Rightarrow> Answer \<lparr>hr_status = 200, hr_body = data\<rparr>
          | _ \<Rightarrow> Listing name)"

definition safe_file_server :: "file_system \<Rightarrow> string \<Rightarrow> string \<Rightarrow> http_answer" where
  "safe_file_server fs root p =
     (if contains_str (path_clean p) ''..'' then Answer (http_error ''Forbidden'' 403)
      else http_file_server fs root p)"

text \<open>The service: boot scripts on the handler, files on the file system.\<close>

definition serve_boot :: "var_order \<Rightarrow> file_system \<Rightarrow> string \<Rightarrow> handler \<Rightarrow> string \<Rightarrow> string \<Rightarrow> handler \<times> http_answer" where
  "serve_boot rng fs data_dir h meth p =
     (case route meth p of
        BootMenu mac \<Rightarrow> (let (h', r) = serve_http rng h mac in (h', Answer r))
      | StaticData f \<Rightarrow> (h, safe_file_server fs data_dir f)
      | Healthz \<Rightarrow> (h, Answer \<lparr>hr_status = 200, hr_body = ''ok''\<rparr>)
      | ManagementApi \<Rightarrow> (h, ApiAnswer)
      | RedirectSlash q \<Rightarrow> (h, Redirected q)
      | NoRoute \<Rightarrow> (h, Answer (http_error ''404 page not found'' 404))
      | MethodNotAllowed \<Rightarrow> (h, Answer (http_error ''Method Not Allowed'' 405)))"

section \<open>Clean paths\<close>

lemma last_join_elems:
  "es \<noteq> [] \<Longrightarrow> \<forall>e \<in> set es. elem_ok e \<Longrightarrow> last (join_elems es) \<noteq> slash"
proof (induction es rule: induct_list012)
  case 1
  then show ?case by simp
next
  case (2 e)
  then have "e \<noteq> []" "slash \<notin> set e" by (simp_all add: elem_ok_def)
  moreover from this have "last e \<in> set e" by simp
  ultimately have "last e \<noteq> slash" by metis
  then show ?case by simp
next
  case (3 e f es)
  then have "last (join_elems (f # es)) \<noteq> slash" by simp
  moreover have "join_elems (f # es) \<noteq> []" using 3(4) by (intro join_elems_Cons_ne) (simp add: elem_ok_def)
  ultimately show ?case by simp
qed

lemma join_elems_ok_ne: "es \<noteq> [] \<Longrightarrow> \<forall>e \<in> set es. elem_ok e \<Longrightarrow> join_elems es \<noteq> []"
  by (cases es) (simp_all add: join_elems_Cons_ne elem_ok_def)

lemma clean_abs_path:
  assumes "\<forall>e \<in> set es. elem_ok e" and "es \<noteq> []"
  shows "clean_url (abs_path es) = abs_path es"
proof -
  have "last (abs_path es) \<noteq> slash"
    using last_join_elems [OF assms(2,1)] join_elems_ok_ne [OF assms(2,1)] by (simp add: abs_path_def)
  then show ?thesis using assms(1) by (simp add: clean_url_def)
qed

lemma segments_abs_path:
  assumes "\<forall>e \<in> set es. elem_ok e" and "es \<noteq> []"
  shows "split_char slash (tl (abs_path es)) = es"
proof -
  have "\<forall>e \<in> set es. slash \<notin> set e" using assms(1) by (auto dest: elem_okD)
  with assms(2) show ?thesis by (simp add: abs_path_def join_elems_def split_char_join)
qed

lemma route_abs_path:
  assumes "\<forall>e \<in> set es. elem_ok e" and "es \<noteq> []" and "es \<noteq> [''data'']" "es \<noteq> [''api'']"
  shows "route ''GET'' (abs_path es) = (case match_pattern es of Some (r, _) \<Rightarrow> r | None \<Rightarrow> NoRoute)"
  using assms(3,4)
  by (simp add: route_def clean_abs_path [OF assms(1,2)] segments_abs_path [OF assms(1,2)] method_ok_def
      del: match_pattern.simps split: option.split)

section \<open>What the file server can reach\<close>

text \<open>What a name of elements opens below a root.\<close>

lemma dir_open_at:
  assumes cwd: "path_is_abs (fs_cwd fs)" and name: "path_elems (path_clean (slash # name)) = es"
  shows "dir_open fs root name =
    map_of (fs_nodes fs) (abs_path (path_elems (path_abs (fs_cwd fs) (if root = [] then ''.'' else root)) @ es))"
proof -
  define dir where "dir = (if root = [] then ''.'' else root)"
  have ne: "dir \<noteq> []" by (simp add: dir_def)
  obtain ds where ds: "path_abs (fs_cwd fs) dir = abs_path ds" "\<forall>e \<in> set ds. elem_ok e"
    using path_abs_cases [OF cwd] .
  have "path_is_abs (slash # name)" by (simp add: is_abs_iff)
  from path_clean_abs_cases [OF this] obtain qs where "path_clean (slash # name) = abs_path qs" "\<forall>e \<in> set qs. elem_ok e" .
  then have q: "\<forall>e \<in> set es. elem_ok e" using name by auto
  then have elems: "path_elems (join_elems es) = es" by (intro path_elems_join) (auto dest: elem_okD)
  have "path_abs (fs_cwd fs) (path_join [dir, join_elems es]) = abs_path (ds @ es)"
    using q by (subst path_abs_join [OF cwd ds ne]) (simp add: elems fold_push_plain elem_ok_def)
  moreover have "path_join [dir, join_elems es] \<noteq> []"
    using ne by (simp add: path_join_def)
  ultimately have "dir_open fs root name = map_of (fs_nodes fs) (abs_path (ds @ es))"
    by (simp add: dir_open_def fs_lookup_def name dir_def)
  moreover have "ds = path_elems (path_abs (fs_cwd fs) dir)" using ds by simp
  ultimately show ?thesis by (simp add: dir_def)
qed

lemma dir_open_elems:
  assumes "path_is_abs (fs_cwd fs)" and "\<forall>e \<in> set es. elem_ok e"
  shows "dir_open fs root (abs_path es) =
    map_of (fs_nodes fs) (abs_path (path_elems (path_abs (fs_cwd fs) (if root = [] then ''.'' else root)) @ es))"
proof (rule dir_open_at [OF assms(1)])
  have "path_clean (slash # abs_path es) = abs_path es"
    using assms(2) path_elems_abs_path [OF assms(2)] by (simp add: path_clean_abs is_abs_iff clean_elems_plain)
  with assms(2) show "path_elems (path_clean (slash # abs_path es)) = es" by simp
qed

lemma dir_open_index:
  assumes "path_is_abs (fs_cwd fs)" and "\<forall>e \<in> set es. elem_ok e"
  shows "dir_open fs root (abs_path es @ ''/index.html'') =
    map_of (fs_nodes fs) (abs_path (path_elems (path_abs (fs_cwd fs) (if root = [] then ''.'' else root)) @ es @ [''index.html'']))"
proof (rule dir_open_at [OF assms(1)])
  have index: "''/index.html'' = slash # ''index.html''" "path_elems ''index.html'' = [''index.html'']"
    "elem_ok ''index.html''" by code_simp+
  have "path_elems (slash # abs_path es @ ''/index.html'') = es @ [''index.html'']"
    unfolding path_elems_slash index(1) path_elems_append using assms(2) index(2) by simp
  with assms(2) index(3) have "path_clean (slash # abs_path es @ ''/index.html'') = abs_path (es @ [''index.html''])"
    by (simp add: path_clean_abs is_abs_iff clean_elems_plain)
  with assms(2) index(3) show "path_elems (path_clean (slash # abs_path es @ ''/index.html'')) = es @ [''index.html'']"
    by simp
qed

text \<open>The name of a file in a request, which the multiplexer has cleaned: elements, and a slash at the
  end where the path has one.\<close>

definition file_name :: "string list \<Rightarrow> bool \<Rightarrow> string" where
  "file_name es dir = join_elems es @ (if dir \<and> es \<noteq> [] then [slash] else [])"

lemma abs_path_append: "ds \<noteq> [] \<Longrightarrow> r \<noteq> [] \<Longrightarrow> abs_path (ds @ r) = abs_path ds @ slash # join_elems r"
  by (simp add: abs_path_def join_elems_append)

lemma static_request:
  assumes "route meth p = StaticData f"
  obtains es dir where "\<forall>e \<in> set es. elem_ok e" and "f = file_name es dir" and "es = [] \<Longrightarrow> dir" and "p = ''/data/'' @ f"
proof -
  from assms obtain get_only where clean: "clean_url p = p"
    and match: "match_pattern (split_char slash (tl p)) = Some (StaticData f, get_only)"
    by (auto simp: route_def Let_def simp del: match_pattern.simps split: if_splits option.splits)
  define p1 where "p1 = (if path_is_abs p then p else slash # p)"
  have "path_is_abs p1" by (auto simp: p1_def is_abs_iff)
  from path_clean_abs_cases [OF this] obtain qs where qs: "path_clean p1 = abs_path qs" "\<forall>e \<in> set qs. elem_ok e" .
  have p: "p = abs_path qs \<or> p = abs_path qs @ [slash] \<and> qs \<noteq> []"
    using clean qs(1) by (auto simp: clean_url_def p1_def [symmetric] Let_def abs_path_def split: if_splits)
  have slashes: "\<forall>e \<in> set qs. slash \<notin> set e" using qs(2) by (auto dest: elem_okD)
  have qs_ne: "qs \<noteq> []"
    using p match by (auto simp: abs_path_def)
  from p show ?thesis
  proof
    assume abs: "p = abs_path qs"
    with segments_abs_path [OF qs(2) qs_ne] match obtain es where "qs = ''data'' # es" "es \<noteq> []" "f = join_elems es"
      by (cases qs) (auto split: if_splits)
    moreover from this abs have "p = ''/data/'' @ f" by (cases es) (simp_all add: abs_path_def slash_def)
    ultimately show ?thesis using qs(2) by (intro that [of es False]) (auto simp: file_name_def)
  next
    assume "p = abs_path qs @ [slash] \<and> qs \<noteq> []"
    then have "p = slash # (join_elems qs @ slash # [])" by (simp add: abs_path_def)
    moreover have "split_char slash (join_elems qs @ slash # []) = qs @ [[]]"
      using slashes qs_ne by (simp add: split_char_append join_elems_def split_char_join)
    ultimately obtain es where es: "qs = ''data'' # es" "f = join_elems (es @ [[]])"
      using match by (cases qs) (auto split: if_splits simp: qs_ne)
    then have "f = file_name es True"
      by (cases "es = []") (simp_all add: file_name_def join_elems_append)
    moreover from this \<open>p = slash # _\<close> es(1) have "p = ''/data/'' @ f" by (cases es) (simp_all add: file_name_def slash_def)
    ultimately show ?thesis using es(1) qs(2) by (intro that [of es True]) auto
  qed
qed

lemma file_name_facts:
  assumes es: "\<forall>e \<in> set es. elem_ok e"
  shows "path_elems (file_name es dir) = es" and "\<not> path_is_abs (file_name es dir)"
    and "path_clean (slash # file_name es dir) = abs_path es"
    and "last (slash # file_name es dir) = slash \<longleftrightarrow> es = [] \<or> dir"
    and "contains_str (path_clean (file_name es dir)) ''..'' \<longleftrightarrow> contains_str (join_elems es) ''..''"
proof -
  have elems: "path_elems (join_elems es) = es" using es by (intro path_elems_join) (auto dest: elem_okD)
  then show name: "path_elems (file_name es dir) = es"
    using path_elems_append [of "join_elems es" "[]"] by (simp add: file_name_def)
  show rel: "\<not> path_is_abs (file_name es dir)"
  proof (cases es)
    case (Cons e fs)
    then obtain c cs where "e = c # cs" "c \<noteq> slash" using es by (cases e) (auto simp: elem_ok_def)
    with Cons show ?thesis by (cases fs) (auto simp: file_name_def is_abs_iff)
  qed (simp add: file_name_def is_abs_iff)
  show "path_clean (slash # file_name es dir) = abs_path es"
    using es name by (simp add: path_clean_abs is_abs_iff clean_elems_plain)
  show "last (slash # file_name es dir) = slash \<longleftrightarrow> es = [] \<or> dir"
    using last_join_elems [of es] join_elems_ok_ne [of es] es by (auto simp: file_name_def)
  have "path_clean (file_name es dir) = (if es = [] then ''.'' else join_elems es)"
    using es rel name by (simp add: path_clean_def clean_elems_plain)
  then show "contains_str (path_clean (file_name es dir)) ''..'' \<longleftrightarrow> contains_str (join_elems es) ''..''"
    by (simp add: has_prefix_iff)
qed

lemma index_suffix:
  assumes es: "\<forall>e \<in> set es. elem_ok e"
  shows "has_suffix (slash # file_name es dir) ''/index.html'' \<longleftrightarrow> es \<noteq> [] \<and> last es = ''index.html'' \<and> \<not> dir"
proof -
  have index: "''/index.html'' = slash # ''index.html''" "path_elems ''index.html'' = [''index.html'']"
    "last ''/index.html'' \<noteq> slash" by code_simp+
  show ?thesis
  proof
    assume "has_suffix (slash # file_name es dir) ''/index.html''"
    then obtain t where t: "slash # file_name es dir = t @ ''/index.html''" by (auto simp: has_suffix_iff)
    then have "es = path_elems (t @ slash # ''index.html'')"
      using file_name_facts(1) [OF es, of dir] unfolding index(1) by (metis path_elems_slash)
    then have "es = path_elems t @ [''index.html'']" by (simp add: path_elems_append index(2))
    moreover have "last (slash # file_name es dir) = last ''/index.html''" unfolding t by simp
    then have "\<not> (es = [] \<or> dir)" using file_name_facts(4) [OF es, of dir] index(3) by simp
    ultimately show "es \<noteq> [] \<and> last es = ''index.html'' \<and> \<not> dir" by auto
  next
    assume *: "es \<noteq> [] \<and> last es = ''index.html'' \<and> \<not> dir"
    then obtain xs where xs: "es = xs @ [''index.html'']" by (metis append_butlast_last_id)
    then have "slash # file_name es dir = (if xs = [] then [] else abs_path xs) @ ''/index.html''"
      using * abs_path_append [of xs "[''index.html'']"] by (auto simp: file_name_def abs_path_def slash_def)
    then show "has_suffix (slash # file_name es dir) ''/index.html''" by (auto simp: has_suffix_iff)
  qed
qed

section \<open>URLs of boot files\<close>

lemma substitute_vars_plain:
  assumes "CHR ''$'' \<notin> set s"
  shows "substitute_vars rng s vars = s"
proof -
  have "fold (\<lambda>(k, v) s. replace_all (placeholder k) v s) kvs s = s" for kvs
  proof (induction kvs)
    case (Cons kv kvs)
    have "replace_all (placeholder (fst kv)) (snd kv) s = s"
      using assms replace_all_skip [of s "CHR ''{'' # fst kv @ ''}''" "snd kv" "[]"]
      by (simp add: placeholder_def)
    with Cons show ?case by (simp add: case_prod_beta')
  qed simp
  then show ?thesis unfolding substitute_vars_fold .
qed

lemma file_url_path:
  assumes http: "mh_path (me_http entry) = (if ds = [] then [] else abs_path ds)"
    and ok: "\<forall>e \<in> set (me_name entry # ds @ r). elem_ok e \<and> CHR ''$'' \<notin> set e" and r: "r \<noteq> []"
    and ip: "CHR ''$'' \<notin> set (iv_server_ip vars)"
  shows "file_url rng entry (join_elems r) vars =
    ''http://'' @ iv_server_ip vars @ '':'' @ dec_of_int (iv_http_port vars) @
      abs_path ((if ds = [] then [me_name entry] else ds) @ r)"
proof -
  have chars: "CHR ''$'' \<notin> set (join_elems es)" if "\<forall>e \<in> set es. CHR ''$'' \<notin> set e" for es
    using that by (induction es rule: induct_list012) (auto simp: slash_def)
  have plain: "substitute_vars rng (''http://'' @ iv_server_ip vars @ '':'' @ dec_of_int (iv_http_port vars) @ abs_path es) vars =
      ''http://'' @ iv_server_ip vars @ '':'' @ dec_of_int (iv_http_port vars) @ abs_path es"
    if "\<forall>e \<in> set es. CHR ''$'' \<notin> set e" for es
    using chars [OF that] ip dec_of_int_no_dollar
    by (intro substitute_vars_plain) (auto simp: abs_path_def slash_def)
  show ?thesis
  proof (cases "ds = []")
    case True
    then have "file_url rng entry (join_elems r) vars = substitute_vars rng
        (''http://'' @ iv_server_ip vars @ '':'' @ dec_of_int (iv_http_port vars) @ abs_path (me_name entry # r)) vars"
      using http r abs_path_append [of "[me_name entry]" r] by (simp add: file_url_def abs_path_def slash_def)
    also have "\<dots> = ''http://'' @ iv_server_ip vars @ '':'' @ dec_of_int (iv_http_port vars) @ abs_path (me_name entry # r)"
      using ok by (intro plain) auto
    finally show ?thesis using True by simp
  next
    case False
    then have "last (abs_path ds) \<noteq> slash"
      using ok last_join_elems [of ds] join_elems_ok_ne [of ds] by (auto simp: abs_path_def)
    then have "\<not> has_suffix (abs_path ds) [slash]"
      by (auto simp: has_suffix_iff)
    then have "file_url rng entry (join_elems r) vars = substitute_vars rng
        (''http://'' @ iv_server_ip vars @ '':'' @ dec_of_int (iv_http_port vars) @ abs_path (ds @ r)) vars"
      using False http abs_path_append [OF False r] by (simp add: file_url_def slash_def) (simp add: abs_path_def)
    also have "\<dots> = ''http://'' @ iv_server_ip vars @ '':'' @ dec_of_int (iv_http_port vars) @ abs_path (ds @ r)"
      using ok by (intro plain) auto
    finally show ?thesis using False by simp
  qed
qed

section \<open>Properties\<close>

text \<open>C33 (static_contained). A request below \<open>/data/\<close> asks for a file by a list of elements, none of which goes up, with a
  slash at the end or not. Where the name contains \<open>..\<close>, also within an element, it is forbidden. Otherwise
  the answer is decided by what lies at this place below the data directory, and by nothing else: a file
  is delivered under its own name, a directory by its \<open>index.html\<close> or as a listing; a missing or superfluous
  slash and the name \<open>index.html\<close> are redirected; anything else is not found. The boot service does not
  change.\<close>

theorem static_contained:
  fixes fs :: file_system and data_dir :: string
  assumes "path_is_abs (fs_cwd fs)" and "route meth p = StaticData f"
  defines "at \<equiv> \<lambda>es. map_of (fs_nodes fs)
    (abs_path (path_elems (path_abs (fs_cwd fs) (if data_dir = [] then ''.'' else data_dir)) @ es))"
  shows "\<exists>es dir. list_all elem_ok es \<and> (es = [] \<longrightarrow> dir) \<and> p = ''/data/'' @ f \<and>
    f = join_elems es @ (if dir \<and> es \<noteq> [] then ''/'' else []) \<and>
    serve_boot rng fs data_dir h meth p = (h,
      (if contains_str (join_elems es) ''..'' then Answer (http_error ''Forbidden'' 403)
       else if \<not> dir \<and> last es = ''index.html'' then Redirected ''./''
       else case at es of
         None \<Rightarrow> Answer (http_error ''404 page not found'' 404)
       | Some (FileNode data) \<Rightarrow>
           if dir then Redirected (''../'' @ (if es = [] then ''/'' else last es)) else Answer \<lparr>hr_status = 200, hr_body = data\<rparr>
       | Some DirNode \<Rightarrow>
           if \<not> dir then Redirected (last es @ ''/'')
           else (case at (es @ [''index.html'']) of
             Some (FileNode data) \<Rightarrow> Answer \<lparr>hr_status = 200, hr_body = data\<rparr>
           | _ \<Rightarrow> Listing (abs_path es))))"
proof -
  from assms(2) obtain es dir where es: "\<forall>e \<in> set es. elem_ok e" and f: "f = file_name es dir"
    and root: "es = [] \<Longrightarrow> dir" and p: "p = ''/data/'' @ f" by (rule static_request) blast
  have slash: "''/'' = [slash]" by (simp add: slash_def)
  have last_elem: "last_elem (slash # f) = (if es = [] then ''/'' else last es)"
    using file_name_facts(1) [OF es, of dir] by (simp add: last_elem_def f slash)
  have dir: "last (slash # f) = slash \<longleftrightarrow> dir" using file_name_facts(4) [OF es, of dir] root f by auto
  have opened: "dir_open fs data_dir (abs_path es) = at es"
    "dir_open fs data_dir (abs_path es @ ''/index.html'') = at (es @ [''index.html''])"
    by (simp_all add: at_def dir_open_elems [OF assms(1) es] dir_open_index [OF assms(1) es])
  have "serve_boot rng fs data_dir h meth p = (h,
      if contains_str (join_elems es) ''..'' then Answer (http_error ''Forbidden'' 403) else http_file_server fs data_dir f)"
    using file_name_facts(5) [OF es, of dir] by (simp add: serve_boot_def assms(2) safe_file_server_def f)
  moreover have "http_file_server fs data_dir f =
      (if \<not> dir \<and> last es = ''index.html'' then Redirected ''./''
       else case at es of
         None \<Rightarrow> Answer (http_error ''404 page not found'' 404)
       | Some (FileNode data) \<Rightarrow>
           if dir then Redirected (''../'' @ (if es = [] then ''/'' else last es)) else Answer \<lparr>hr_status = 200, hr_body = data\<rparr>
       | Some DirNode \<Rightarrow>
           if \<not> dir then Redirected (last es @ ''/'')
           else (case at (es @ [''index.html'']) of
             Some (FileNode data) \<Rightarrow> Answer \<lparr>hr_status = 200, hr_body = data\<rparr>
           | _ \<Rightarrow> Listing (abs_path es)))"
  proof -
    have up: "(if path_is_abs f then f else slash # f) = slash # f" using file_name_facts(2) [OF es] by (simp add: f)
    have index: "has_suffix (slash # f) ''/index.html'' \<longleftrightarrow> \<not> dir \<and> last es = ''index.html''"
      using index_suffix [OF es, of dir] root f by auto
    have clean: "path_clean (slash # f) = abs_path es" using file_name_facts(3) [OF es] by (simp add: f)
    show ?thesis
    proof (cases dir)
      case True
      then show ?thesis
        by (simp only: http_file_server_def Let_def up index clean opened last_elem dir) simp
    next
      case False
      with root have "es \<noteq> []" by blast
      with False show ?thesis
        by (simp only: http_file_server_def Let_def up index clean opened last_elem dir slash) simp
    qed
  qed
  ultimately show ?thesis
    using es f root p by (intro exI [of _ es] exI [of _ dir]) (auto simp: list_all_iff file_name_def slash)
qed

theorem static_contained_witness:
  "serve_boot (\<lambda>_ m. m) sample_fs ''etc'' empty_handler ''GET'' ''/data/b.toml'' =
     (empty_handler, Answer \<lparr>hr_status = 200, hr_body = ''sample''\<rparr>) \<and>
   serve_boot (\<lambda>_ m. m) sample_fs ''etc'' empty_handler ''GET'' ''/data/a..b'' =
     (empty_handler, Answer (http_error ''Forbidden'' 403))"
proof
  have cwd: "path_is_abs (fs_cwd sample_fs)" by code_simp
  have single: "es = [f] \<and> \<not> dir" if "list_all elem_ok es" "f = join_elems es @ (if dir \<and> es \<noteq> [] then ''/'' else [])"
    "path_elems f = [f]" "last f \<noteq> slash" for es f dir
  proof -
    have "f = file_name es dir" using that(2) by (simp add: file_name_def slash_def)
    with that file_name_facts(1,4) [of es dir] show ?thesis by (auto simp: list_all_iff file_name_def split: if_splits)
  qed
  have route: "route ''GET'' ''/data/b.toml'' = StaticData ''b.toml''" "route ''GET'' ''/data/a..b'' = StaticData ''a..b''"
    by code_simp+
  have name: "path_elems ''b.toml'' = [''b.toml'']" "last ''b.toml'' \<noteq> slash" "path_elems ''a..b'' = [''a..b'']"
    "last ''a..b'' \<noteq> slash" "\<not> contains_str ''b.toml'' ''..''" "contains_str ''a..b'' ''..''" by code_simp+
  have at: "map_of (fs_nodes sample_fs) (abs_path (path_elems (path_abs (fs_cwd sample_fs) ''etc'') @ [''b.toml''])) =
      Some (FileNode ''sample'')" by code_simp
  show "serve_boot (\<lambda>_ m. m) sample_fs ''etc'' empty_handler ''GET'' ''/data/b.toml'' =
      (empty_handler, Answer \<lparr>hr_status = 200, hr_body = ''sample''\<rparr>)"
    using static_contained [OF cwd route(1), of "\<lambda>_ m. m" "''etc''" empty_handler]
  proof (elim exE conjE, goal_cases)
    case (1 es dir)
    from single [OF 1(1,4) name(1,2)] have "es = [''b.toml'']" "\<not> dir" by simp_all
    with 1(5) name(5) at show ?case by simp
  qed
  show "serve_boot (\<lambda>_ m. m) sample_fs ''etc'' empty_handler ''GET'' ''/data/a..b'' =
      (empty_handler, Answer (http_error ''Forbidden'' 403))"
    using static_contained [OF cwd route(2), of "\<lambda>_ m. m" "''etc''" empty_handler]
  proof (elim exE conjE, goal_cases)
    case (1 es dir)
    from single [OF 1(1,4) name(3,4)] have "es = [''a..b'']" by simp
    with 1(5) name(6) show ?case by simp
  qed
qed

text \<open>The URL the boot scripts give for a file of an entry, and what the server has
  for it: where the entry's HTTP path lies below \<open>/data/\<close>, the file of that name in the data
  directory; where the entry has no HTTP path, or one that begins differently, nothing: the
  request is answered with 404.\<close>

lemma file_url_routes:
  assumes "mh_path (me_http entry) = (if ds = [] then [] else abs_path ds)" and "r \<noteq> []"
    and "list_all (\<lambda>e. elem_ok e \<and> CHR ''$'' \<notin> set e) (me_name entry # ds @ r)" and "CHR ''$'' \<notin> set (iv_server_ip vars)"
    and "hd (ds @ [me_name entry]) \<notin> {''boot'', ''api'', ''healthz''}"
  defines "es \<equiv> (if ds = [] then [me_name entry] else ds) @ r"
  shows "file_url rng entry (join_elems r) vars =
      ''http://'' @ iv_server_ip vars @ '':'' @ dec_of_int (iv_http_port vars) @ abs_path es \<and>
    route ''GET'' (abs_path es) = (if hd es = ''data'' then StaticData (join_elems (tl es)) else NoRoute)"
proof
  have ok: "\<forall>e \<in> set (me_name entry # ds @ r). elem_ok e \<and> CHR ''$'' \<notin> set e"
    using assms(3) by (simp only: list_all_iff)
  show "file_url rng entry (join_elems r) vars =
      ''http://'' @ iv_server_ip vars @ '':'' @ dec_of_int (iv_http_port vars) @ abs_path es"
    unfolding es_def by (rule file_url_path [OF assms(1) ok assms(2,4)])
  have es: "\<forall>e \<in> set es. elem_ok e" using ok by (auto simp: es_def)
  obtain x y zs where xs: "es = x # y # zs"
    using assms(2) by (cases ds; cases r; cases "tl ds") (auto simp: es_def)
  have x: "x \<notin> {''boot'', ''api'', ''healthz''}"
    using assms(5) xs by (cases ds) (auto simp: es_def)
  have "route ''GET'' (abs_path es) = (case match_pattern es of Some (m, _) \<Rightarrow> m | None \<Rightarrow> NoRoute)"
    using es xs by (intro route_abs_path) auto
  then show "route ''GET'' (abs_path es) = (if hd es = ''data'' then StaticData (join_elems (tl es)) else NoRoute)"
    using x by (simp add: xs)
qed

lemma file_url_routes_example:
  "file_url (\<lambda>_ m. m) (sample_entry ''alpine'' MenuLive []) ''vmlinuz'' sample_vars = ''http://10.0.0.1:8080/alpine/vmlinuz'' \<and>
   route ''GET'' ''/alpine/vmlinuz'' = NoRoute"
proof -
  have "mh_path (me_http (sample_entry ''alpine'' MenuLive [])) = (if [] = ([] :: string list) then [] else abs_path [])"
    by (simp add: sample_entry_def empty_menu_http_def)
  from file_url_routes [OF this, of "[''vmlinuz'']" sample_vars "\<lambda>_ m. m"] show ?thesis
    by (simp add: sample_entry_def sample_vars_def elem_ok_def slash_def abs_path_def dec_of_int_def dec_of_nat.simps dec_digit_def)
qed

text \<open>The stages of a boot fit together. With the standard chain URL, the DHCP proxy answers
  iPXE on a machine with the URL of this server's path for the machine's address, which is
  routed to the boot script handler with this address; and the script that TFTP generates has
  the same URL with iPXE's own variable in place of the address.\<close>

lemma boot_chain:
  assumes "ip_to4 (px_ip p) = Some addr" and "bl_chain_url (px_bl p) = chain_template" and "mac_len_ok (length bs)"
  defines "base \<equiv> ''http://'' @ ip_string (px_ip p) @ '':'' @ dec_of_int (px_http_port p)"
    and "path \<equiv> abs_path [''boot'', mac_string (Some bs), ''menu.ipxe'']"
  shows "resolve_chain_url p (mac_string (Some bs)) = base @ path \<and>
    route ''GET'' path = BootMenu (mac_string (Some bs)) \<and> net_parse_mac (mac_string (Some bs)) = Some bs \<and>
    snd (serve_boot rng fs data_dir h ''GET'' path) = Answer (snd (serve_http rng h (mac_string (Some bs)))) \<and>
    serve_autoexec \<lparr>ac_server_ip = ip_string (px_ip p), ac_http_port = px_http_port p, ac_chain_url = chain_template\<rparr> =
      (let script = ''#!ipxe'' @ nl @ ''chain --autofree '' @ base @ abs_path [''boot'', ''${net0/mac}'', ''menu.ipxe''] @ nl
       in Transfer (length script) script)"
proof -
  have ip: "CHR ''$'' \<notin> set (ip_string (px_ip p))"
    using ip_string_ipv4_chars [OF assms(1)] by (auto simp: dec_digits_def)
  have "bs \<noteq> []" using assms(3) by (auto simp: mac_len_ok_def)
  with length_bytes_string [of bs] assms(3) have "bytes_string bs \<noteq> []" by (auto simp: mac_len_ok_def)
  moreover have "slash \<notin> set (bytes_string bs)" and "CHR ''.'' \<notin> set (bytes_string bs)"
    using bytes_string_chars [of slash bs] bytes_string_chars [of "CHR ''.''" bs] by (auto simp: all_lt_16 slash_def hex_char_def)
  ultimately have "elem_ok (bytes_string bs)" by (auto simp: elem_ok_def)
  then have "\<forall>e \<in> set [''boot'', bytes_string bs, ''menu.ipxe'']. elem_ok e"
    by (simp add: elem_ok_def slash_def)
  from route_abs_path [OF this] have route: "route ''GET'' path = BootMenu (mac_string (Some bs))"
    using \<open>bytes_string bs \<noteq> []\<close> by (simp add: path_def)
  have "resolve_chain_url p (mac_string (Some bs)) = base @ path"
    using resolve_chain_url_template [OF assms(2) ip] by (simp add: base_def path_def abs_path_def slash_def)
  moreover have "serve_autoexec \<lparr>ac_server_ip = ip_string (px_ip p), ac_http_port = px_http_port p, ac_chain_url = chain_template\<rparr> =
      (let script = ''#!ipxe'' @ nl @ ''chain --autofree '' @ base @ abs_path [''boot'', ''${net0/mac}'', ''menu.ipxe''] @ nl
       in Transfer (length script) script)"
    using chain_template_value [OF ip, of "''${net0/mac}''" "px_http_port p"]
    by (simp add: serve_autoexec_def base_def abs_path_def slash_def Let_def)
  ultimately show ?thesis
    using route net_parse_mac_bytes_string [OF assms(3)] by (simp add: serve_boot_def case_prod_beta' Let_def)
qed

lemma boot_chain_example:
  "\<exists>url. resolve_chain_url sample_proxy ''02:00:00:00:00:01'' = url @ ''/boot/02:00:00:00:00:01/menu.ipxe'' \<and>
     route ''GET'' ''/boot/02:00:00:00:00:01/menu.ipxe'' = BootMenu ''02:00:00:00:00:01''"
proof -
  have ip: "ip_to4 (px_ip sample_proxy) = Some [10, 0, 0, 1]" by (simp add: sample_proxy_def)
  have url: "bl_chain_url (px_bl sample_proxy) = chain_template" by (simp add: sample_proxy_def)
  have len: "mac_len_ok (length [2, 0, 0, 0, 0, 1 :: byte])" by (simp add: mac_len_ok_def)
  have mac: "mac_string (Some [2, 0, 0, 0, 0, 1]) = ''02:00:00:00:00:01''" by code_simp
  have path: "abs_path [''boot'', ''02:00:00:00:00:01'', ''menu.ipxe''] = ''/boot/02:00:00:00:00:01/menu.ipxe''"
    by (simp add: abs_path_def slash_def)
  from boot_chain [OF ip url len, unfolded mac path] show ?thesis by blast
qed

end
