(* ===== verification/LogBuffer.thy ===== *)
theory LogBuffer
  imports HwAddr
begin

text \<open>
  Bounded histories. The locale \<open>bounded_log\<close> is the contract of a store that keeps the last
  entries added to it, newest first; the ring buffer of \<open>internal/infra/store/logbuf.go\<close>
  implements it here, the store of health results in theory \<open>Health\<close>. The \<open>slog\<close> handler
  that fills the buffer is modelled too. Every method holds the mutex of the buffer for its
  whole body, so a concurrent execution is a sequence of the operations.
\<close>

section \<open>The contract\<close>

locale bounded_log =
  fixes fresh :: 's and add :: "'a \<Rightarrow> 's \<Rightarrow> 's" and ok :: "'s \<Rightarrow> bool"
    and view :: "'s \<Rightarrow> 'a list" and capacity :: nat
  assumes fresh_ok: "ok fresh" and fresh_view: "view fresh = []"
    and capacity_pos: "0 < capacity"
    and add_ok: "ok s \<Longrightarrow> ok (add x s)"
    and add_view: "ok s \<Longrightarrow> view (add x s) = take capacity (x # view s)"
begin

lemma adds_ok: "ok (fold add xs fresh)"
  by (induction xs rule: rev_induct) (simp_all add: fresh_ok add_ok)

lemma adds_view: "view (fold add xs fresh) = take capacity (rev xs)"
proof (induction xs rule: rev_induct)
  case Nil
  then show ?case by (simp add: fresh_view)
next
  case (snoc x xs)
  then show ?case
    by (cases capacity) (simp_all add: add_view adds_ok take_Cons' min_def)
qed

lemma bounded: "length (view (fold add xs fresh)) \<le> capacity"
  by (simp add: adds_view)

lemma newest: "xs \<noteq> [] \<Longrightarrow> hd (view (fold add xs fresh)) = last xs"
  unfolding adds_view using capacity_pos
  by (cases xs rule: rev_cases; cases capacity) simp_all

end

section \<open>The ring buffer\<close>

text \<open>An attribute value: a hardware address, or another value with its \<open>String\<close> form.\<close>

datatype slog_value = MACValue hwaddr | OtherValue string

record log_entry =
  le_time :: int
  le_level :: int
  le_message :: string
  le_service :: string
  le_mac :: string
  le_attrs :: "(string, slog_value) gomap"

definition zero_log_entry :: log_entry where
  "zero_log_entry = \<lparr>le_time = 0, le_level = 0, le_message = [], le_service = [], le_mac = [], le_attrs = []\<rparr>"

record log_buffer =
  lb_entries :: "log_entry list"
  lb_size :: int
  lb_pos :: int
  lb_count :: int

definition NewLogBuffer :: "int \<Rightarrow> log_buffer" where
  "NewLogBuffer sz =
     (let sz = (if sz < 1 then 1000 else sz)
      in \<lparr>lb_entries = replicate (nat sz) zero_log_entry, lb_size = sz, lb_pos = 0, lb_count = 0\<rparr>)"

definition log_add :: "log_entry \<Rightarrow> log_buffer \<Rightarrow> log_buffer" where
  "log_add entry b =
     b\<lparr>lb_entries := (lb_entries b)[nat (lb_pos b) := entry],
       lb_pos := (lb_pos b + 1) mod lb_size b,
       lb_count := (if lb_count b < lb_size b then lb_count b + 1 else lb_count b)\<rparr>"

definition log_at :: "log_buffer \<Rightarrow> int \<Rightarrow> log_entry" where
  "log_at b i = lb_entries b ! nat ((lb_pos b - 1 - i + lb_size b) mod lb_size b)"

text \<open>\<^const>\<open>None\<close> where the code panics: \<open>make\<close> with a negative length.\<close>

definition log_recent :: "log_buffer \<Rightarrow> int \<Rightarrow> log_entry list option" where
  "log_recent b n =
     (let n = (if n > lb_count b then lb_count b else n)
      in if n = 0 then Some []
         else if n < 0 then None
         else Some (map (log_at b) [0..n - 1]))"

definition log_matches :: "string \<Rightarrow> string \<Rightarrow> int \<Rightarrow> log_entry \<Rightarrow> bool" where
  "log_matches mac service level e \<longleftrightarrow>
     (if mac \<noteq> [] \<and> le_mac e \<noteq> mac then False
      else if service \<noteq> [] \<and> le_service e \<noteq> service then False
      else if level > 0 \<and> le_level e < level then False
      else True)"

fun filter_loop :: "(log_entry \<Rightarrow> bool) \<Rightarrow> (int \<Rightarrow> log_entry) \<Rightarrow> int \<Rightarrow> int list \<Rightarrow> log_entry list \<Rightarrow> log_entry list" where
  "filter_loop P at limit [] result = result"
| "filter_loop P at limit (i # is) result =
     (if \<not> int (length result) < limit then result
      else filter_loop P at limit is (if P (at i) then result @ [at i] else result))"

definition log_filter :: "log_buffer \<Rightarrow> string \<Rightarrow> string \<Rightarrow> int \<Rightarrow> int \<Rightarrow> log_entry list" where
  "log_filter b mac service level limit =
     (let limit = (if limit \<le> 0 then lb_count b else limit)
      in filter_loop (log_matches mac service level) (log_at b) limit [0..lb_count b - 1] [])"

section \<open>The handler\<close>

record log_handler =
  lh_service :: string
  lh_attrs :: "(string \<times> slog_value) list"

record log_record =
  lr_time :: int
  lr_level :: int
  lr_message :: string
  lr_attrs :: "(string \<times> slog_value) list"

definition SlogHandler :: "string \<Rightarrow> log_handler" where
  "SlogHandler service = \<lparr>lh_service = service, lh_attrs = []\<rparr>"

definition format_mac_attr :: "slog_value \<Rightarrow> string" where
  "format_mac_attr v = (case v of MACValue mac \<Rightarrow> mac_string mac | OtherValue s \<Rightarrow> s)"

definition put_attr :: "string \<times> slog_value \<Rightarrow> log_entry \<Rightarrow> log_entry" where
  "put_attr = (\<lambda>(k, v) e.
     let e = e\<lparr>le_attrs := AList.update k v (le_attrs e)\<rparr>
     in if k = ''mac'' then e\<lparr>le_mac := format_mac_attr v\<rparr> else e)"

definition handle_entry :: "log_handler \<Rightarrow> log_record \<Rightarrow> log_entry" where
  "handle_entry h r =
     (let entry = \<lparr>le_time = lr_time r, le_level = lr_level r, le_message = lr_message r,
                   le_service = lh_service h, le_mac = [], le_attrs = []\<rparr>
      in fold put_attr (lr_attrs r) (fold put_attr (lh_attrs h) entry))"

definition log_handle :: "log_handler \<Rightarrow> log_record \<Rightarrow> log_buffer \<Rightarrow> log_buffer" where
  "log_handle h r b = log_add (handle_entry h r) b"

definition with_attrs :: "(string \<times> slog_value) list \<Rightarrow> log_handler \<Rightarrow> log_handler" where
  "with_attrs attrs h = h\<lparr>lh_attrs := lh_attrs h @ attrs\<rparr>"

definition with_group :: "string \<Rightarrow> log_handler \<Rightarrow> log_handler" where
  "with_group name h = h"

section \<open>The ring buffer keeps the contract\<close>

definition log_ok :: "int \<Rightarrow> log_buffer \<Rightarrow> bool" where
  "log_ok sz b \<longleftrightarrow> 0 < sz \<and> lb_size b = sz \<and> int (length (lb_entries b)) = sz \<and>
     0 \<le> lb_pos b \<and> lb_pos b < sz \<and> 0 \<le> lb_count b \<and> lb_count b \<le> sz"

definition log_view :: "log_buffer \<Rightarrow> log_entry list" where
  "log_view b = map (log_at b) [0..lb_count b - 1]"

lemma log_view_nth: "k < nat (lb_count b) \<Longrightarrow> log_view b ! k = log_at b (int k)"
  by (simp add: log_view_def)

lemma log_view_length [simp]: "length (log_view b) = nat (lb_count b)"
  by (simp add: log_view_def)

lemma log_at_add_first:
  assumes "log_ok sz b"
  shows "log_at (log_add e b) 0 = e"
proof -
  have "((lb_pos b + 1) mod sz - 1 - 0 + sz) mod sz = lb_pos b mod sz"
    by (simp add: mod_diff_left_eq)
  moreover have "nat (lb_pos b) < length (lb_entries b)" using assms by (auto simp: log_ok_def)
  ultimately show ?thesis
    using assms by (simp add: log_at_def log_add_def log_ok_def)
qed

lemma log_at_add_later:
  assumes "log_ok sz b" and "0 \<le> i" and "i < sz - 1"
  shows "log_at (log_add e b) (i + 1) = log_at b i"
proof -
  let ?idx = "(lb_pos b - 1 - i + sz) mod sz"
  have "((lb_pos b + 1) mod sz - 1 - (i + 1) + sz) mod sz = (lb_pos b + 1 - 1 - (i + 1) + sz) mod sz"
    by (metis (no_types, opaque_lifting) add.assoc diff_add_eq diff_conv_add_uminus mod_add_left_eq)
  also have "\<dots> = ?idx" by (simp add: algebra_simps)
  finally have idx: "((lb_pos b + 1) mod sz - 1 - (i + 1) + sz) mod sz = ?idx" .
  have "?idx \<noteq> lb_pos b"
  proof
    assume "?idx = lb_pos b"
    then have "?idx = lb_pos b mod sz" using assms by (simp add: log_ok_def)
    then have "sz dvd (lb_pos b - 1 - i + sz) - lb_pos b" by (simp only: mod_eq_dvd_iff)
    moreover have "(lb_pos b - 1 - i + sz) - lb_pos b = sz - (i + 1)" by simp
    ultimately have "sz dvd sz - (i + 1)" by simp
    with assms show False using zdvd_imp_le [of sz "sz - (i + 1)"] by linarith
  qed
  moreover have "0 \<le> ?idx" using assms by (simp add: log_ok_def)
  ultimately have "nat ?idx \<noteq> nat (lb_pos b)" using assms by (simp add: log_ok_def nat_eq_iff)
  then show ?thesis
    using assms idx by (simp add: log_at_def log_add_def log_ok_def)
qed

lemma log_add_ok: "log_ok sz b \<Longrightarrow> log_ok sz (log_add e b)"
  by (simp add: log_ok_def log_add_def)

lemma log_add_view:
  assumes "log_ok sz b"
  shows "log_view (log_add e b) = take (nat sz) (e # log_view b)"
proof (rule nth_equalityI)
  have count: "nat (lb_count (log_add e b)) = min (nat sz) (Suc (nat (lb_count b)))"
    using assms by (auto simp: log_add_def log_ok_def)
  then show "length (log_view (log_add e b)) = length (take (nat sz) (e # log_view b))" by (simp add: min.commute)
  fix k
  assume "k < length (log_view (log_add e b))"
  then have k: "k < nat sz" "k < Suc (nat (lb_count b))" "k < nat (lb_count (log_add e b))"
    using count by simp_all
  show "log_view (log_add e b) ! k = take (nat sz) (e # log_view b) ! k"
  proof (cases k)
    case 0
    with k show ?thesis using log_at_add_first [OF assms, of e] by (simp add: log_view_nth)
  next
    case (Suc j)
    with k have "log_at (log_add e b) (int j + 1) = log_at b (int j)"
      by (intro log_at_add_later [OF assms]) linarith+
    with Suc k show ?thesis by (simp add: log_view_nth add.commute)
  qed
qed

definition log_size :: "int \<Rightarrow> int" where
  "log_size sz = (if sz < 1 then 1000 else sz)"

interpretation log: bounded_log "NewLogBuffer sz" log_add "log_ok (log_size sz)" log_view "nat (log_size sz)"
proof (rule bounded_log.intro)
  show "log_ok (log_size sz) (NewLogBuffer sz)" "log_view (NewLogBuffer sz) = []" "0 < nat (log_size sz)"
    by (simp_all add: NewLogBuffer_def log_ok_def log_view_def log_size_def)
qed (rule log_add_ok log_add_view; assumption)+

lemma log_recent_view:
  assumes "log_ok sz b"
  shows "log_recent b n = (if n < 0 then None else Some (take (nat n) (log_view b)))"
proof -
  have "take (nat n) (map (log_at b) [0..lb_count b - 1]) = map (log_at b) [0..n - 1]" if "0 \<le> n" "n \<le> lb_count b"
    using that by (intro nth_equalityI) auto
  with assms show ?thesis
    by (auto simp: log_recent_def log_view_def Let_def log_ok_def)
qed

lemma filter_loop_eq:
  "filter_loop P at limit is result =
     result @ take (nat limit - length result) (filter P (map at is))"
proof (induction P at limit "is" result rule: filter_loop.induct)
  case (1 P at limit result)
  then show ?case by simp
next
  case (2 P at limit i "is" result)
  show ?case
  proof (cases "int (length result) < limit")
    case True
    then have "nat limit - length result = Suc (nat limit - Suc (length result))" by linarith
    with True 2 show ?thesis by (cases "P (at i)") (simp_all del: diff_Suc_Suc)
  next
    case False
    then show ?thesis by simp
  qed
qed

lemma log_filter_view:
  assumes "log_ok sz b"
  shows "log_filter b mac service level limit =
    (let es = filter (log_matches mac service level) (log_view b)
     in if limit \<le> 0 then es else take (nat limit) es)"
proof -
  have "length (filter (log_matches mac service level) (log_view b)) \<le> nat (lb_count b)"
    using length_filter_le [of _ "log_view b"] by simp
  then show ?thesis
    by (simp add: log_filter_def filter_loop_eq Let_def flip: log_view_def)
qed

lemma put_attrs:
  "map_of (le_attrs (fold put_attr kvs e)) k =
     (case last_match (\<lambda>(k', _). k' = k) kvs of Some (_, v) \<Rightarrow> Some v | None \<Rightarrow> map_of (le_attrs e) k)"
  "le_mac (fold put_attr kvs e) =
     (case last_match (\<lambda>(k', _). k' = ''mac'') kvs of Some (_, v) \<Rightarrow> format_mac_attr v | None \<Rightarrow> le_mac e)"
  "le_time (fold put_attr kvs e) = le_time e" "le_level (fold put_attr kvs e) = le_level e"
  "le_message (fold put_attr kvs e) = le_message e" "le_service (fold put_attr kvs e) = le_service e"
  by (induction kvs rule: rev_induct) (auto simp: put_attr_def Let_def)

section \<open>Properties\<close>

text \<open>After any number of entries were added to a new buffer, \<open>Recent\<close>
  returns the last ones up to the capacity, newest first and cut at the number asked for,
  and panics exactly for a negative number; \<open>Filter\<close> returns those among them that match
  every criterion given, newest first, cut at the limit where it is positive.\<close>

lemma log_buffer_spec:
  "log_recent (fold log_add es (NewLogBuffer sz)) n =
     (if n < 0 then None else Some (take (nat n) (take (nat (log_size sz)) (rev es)))) \<and>
   log_filter (fold log_add es (NewLogBuffer sz)) mac service level limit =
     (let kept = filter (log_matches mac service level) (take (nat (log_size sz)) (rev es))
      in if limit \<le> 0 then kept else take (nat limit) kept)"
  using log_recent_view [OF log.adds_ok] log_filter_view [OF log.adds_ok] by (simp add: log.adds_view)

text \<open>The handler records the attributes set by \<open>WithAttrs\<close> and those of
  the record, a later one replacing an earlier one of the same key; the MAC address of the entry is that of
  the last attribute \<open>mac\<close>, in its printed form, and empty without one; time, level and
  message are those of the record.\<close>

lemma log_handler_spec:
  "let e = handle_entry (with_attrs attrs (SlogHandler service)) r; kvs = attrs @ lr_attrs r in
     le_time e = lr_time r \<and> le_level e = lr_level r \<and> le_message e = lr_message r \<and>
     le_service e = service \<and>
     map_of (le_attrs e) k = map_option snd (last_match (\<lambda>(k', _). k' = k) kvs) \<and>
     le_mac e = (case last_match (\<lambda>(k', _). k' = ''mac'') kvs of Some (_, v) \<Rightarrow> format_mac_attr v | None \<Rightarrow> [])"
proof -
  have last: "last_match P (xs @ ys) = (case last_match P ys of Some x \<Rightarrow> Some x | None \<Rightarrow> last_match P xs)"
    for P :: "string \<times> slog_value \<Rightarrow> bool" and xs ys
    by (induction ys rule: rev_induct) (auto simp flip: append_assoc)
  show ?thesis
    by (auto simp: handle_entry_def with_attrs_def SlogHandler_def put_attrs Let_def last
        split: option.splits)
qed

end
