(* ===== verification/Health.thy ===== *)
theory Health
  imports Domain LogBuffer
begin

text \<open>
  Health checks: the result types of \<open>internal/domain/health.go\<close>, the store of results and
  the aggregation (\<open>internal/health/result.go\<close>) and the checker that runs the probes
  (\<open>internal/health/checker.go\<close>). A probe does network or file input and output; it is a
  function on the state \<open>'w\<close> of the outside world. The ticks of the checker's timer and the end of its
  context are a list of events. A \<open>CheckStatus\<close> is one of the three constants declared
  for it, ordered as their numbers.
\<close>

section \<open>Results\<close>

datatype check_status = StatusOK | StatusWarn | StatusFail

fun status_code :: "check_status \<Rightarrow> int" where
  "status_code StatusOK = 0"
| "status_code StatusWarn = 1"
| "status_code StatusFail = 2"

fun check_status_string :: "check_status \<Rightarrow> string" where
  "check_status_string StatusOK = ''ok''"
| "check_status_string StatusWarn = ''warn''"
| "check_status_string StatusFail = ''fail''"

lemma status_code_inj: "status_code a = status_code b \<Longrightarrow> a = b"
  by (cases a; cases b) simp_all

instantiation check_status :: linorder
begin

definition less_eq_check_status :: "check_status \<Rightarrow> check_status \<Rightarrow> bool" where
  "less_eq_check_status a b \<longleftrightarrow> status_code a \<le> status_code b"

definition less_check_status :: "check_status \<Rightarrow> check_status \<Rightarrow> bool" where
  "less_check_status a b \<longleftrightarrow> status_code a < status_code b"

instance
  by standard (auto simp: less_eq_check_status_def less_check_status_def intro: status_code_inj)

end

record check_result =
  ck_name :: string
  ck_status :: check_status
  ck_message :: string
  ck_duration :: int
  ck_at :: int

record health_result =
  hs_status :: check_status
  hs_checks :: "check_result list"
  hs_at :: int

definition aggregate_step :: "check_result \<Rightarrow> check_status \<Rightarrow> check_status" where
  "aggregate_step c status = (if ck_status c > status then ck_status c else status)"

definition aggregate :: "int \<Rightarrow> check_result list \<Rightarrow> health_result" where
  "aggregate now checks =
     \<lparr>hs_status = fold aggregate_step checks StatusOK, hs_checks = checks, hs_at = now\<rparr>"

section \<open>The store of results\<close>

record result_store =
  rst_results :: "health_result list"
  rst_max_size :: int

definition NewResultStore :: "int \<Rightarrow> result_store" where
  "NewResultStore max_size = \<lparr>rst_results = [], rst_max_size = (if max_size \<le> 0 then 100 else max_size)\<rparr>"

definition result_add :: "health_result \<Rightarrow> result_store \<Rightarrow> result_store" where
  "result_add r s =
     (let s1 = (if int (length (rst_results s)) \<ge> rst_max_size s
                then s\<lparr>rst_results := tl (rst_results s)\<rparr> else s)
      in s1\<lparr>rst_results := rst_results s1 @ [r]\<rparr>)"

definition result_latest :: "result_store \<Rightarrow> health_result option" where
  "result_latest s =
     (if rst_results s = [] then None
      else Some (rst_results s ! (length (rst_results s) - 1)))"

definition result_recent :: "result_store \<Rightarrow> int \<Rightarrow> health_result list" where
  "result_recent s n =
     (let len = length (rst_results s) in
      if n \<le> 0 \<or> len = 0 then []
      else let n = (if n > int len then len else nat n)
           in map (\<lambda>i. rst_results s ! (len - 1 - i)) [0..<n])"

section \<open>The checker\<close>

record 'w probe =
  pb_name :: string
  pb_check :: "'w \<Rightarrow> check_result \<times> 'w"

record 'w checker =
  ch_probes :: "'w probe list"
  ch_store :: result_store
  ch_interval :: int

definition NewChecker :: "'w probe list \<Rightarrow> result_store \<Rightarrow> int \<Rightarrow> 'w checker" where
  "NewChecker probes store interval =
     \<lparr>ch_probes = probes, ch_store = store, ch_interval = (if interval = 0 then 30 * 10 ^ 9 else interval)\<rparr>"

fun run_probes :: "'w probe list \<Rightarrow> check_result list \<Rightarrow> 'w \<Rightarrow> check_result list \<times> 'w" where
  "run_probes [] checks w = (checks, w)"
| "run_probes (p # ps) checks w = (let (r, w') = pb_check p w in run_probes ps (checks @ [r]) w')"

definition run_once :: "int \<Rightarrow> 'w checker \<Rightarrow> 'w \<Rightarrow> health_result \<times> 'w checker \<times> 'w" where
  "run_once now c w =
     (let (checks, w') = run_probes (ch_probes c) [] w;
          hr = aggregate now checks
      in (hr, c\<lparr>ch_store := result_add hr (ch_store c)\<rparr>, w'))"

datatype checker_event = Tick int | ContextDone

fun checker_loop :: "checker_event list \<Rightarrow> 'w checker \<Rightarrow> 'w \<Rightarrow> 'w checker \<times> 'w" where
  "checker_loop [] c w = (c, w)"
| "checker_loop (ContextDone # evs) c w = (c, w)"
| "checker_loop (Tick now # evs) c w = (let (_, c', w') = run_once now c w in checker_loop evs c' w')"

text \<open>\<open>time.NewTicker\<close> panics where its interval is not positive: \<^const>\<open>None\<close>.\<close>

definition checker_start :: "int \<Rightarrow> checker_event list \<Rightarrow> 'w checker \<Rightarrow> 'w \<Rightarrow> ('w checker \<times> 'w) option" where
  "checker_start now evs c w =
     (let (_, c', w') = run_once now c w
      in if ch_interval c' \<le> 0 then None else Some (checker_loop evs c' w'))"

definition checker_latest :: "'w checker \<Rightarrow> health_result option" where
  "checker_latest c = result_latest (ch_store c)"

section \<open>The store keeps the contract of a bounded log\<close>

definition results_ok :: "nat \<Rightarrow> result_store \<Rightarrow> bool" where
  "results_ok cap s \<longleftrightarrow> 0 < cap \<and> rst_max_size s = int cap \<and> length (rst_results s) \<le> cap"

definition results_view :: "result_store \<Rightarrow> health_result list" where
  "results_view s = rev (rst_results s)"

definition results_cap :: "int \<Rightarrow> nat" where
  "results_cap n = (if n \<le> 0 then 100 else nat n)"

lemma result_add_eq:
  assumes "results_ok cap s"
  shows "rst_results (result_add r s) =
      (if length (rst_results s) = cap then tl (rst_results s) else rst_results s) @ [r]"
    and "rst_max_size (result_add r s) = rst_max_size s"
  using assms by (auto simp: result_add_def results_ok_def Let_def)

lemma result_add_ok: "results_ok cap s \<Longrightarrow> results_ok cap (result_add r s)"
  by (auto simp: results_ok_def [of cap "result_add r s"] result_add_eq) (auto simp: results_ok_def)

lemma result_add_view:
  assumes "results_ok cap s"
  shows "results_view (result_add r s) = take cap (r # results_view s)"
proof (cases "length (rst_results s) = cap")
  case True
  then obtain x xs where "rst_results s = x # xs" using assms by (cases "rst_results s") (auto simp: results_ok_def)
  with True show ?thesis by (auto simp: results_view_def result_add_eq [OF assms])
next
  case False
  with assms show ?thesis by (simp add: results_view_def result_add_eq [OF assms] results_ok_def)
qed

interpretation results: bounded_log "NewResultStore n" result_add "results_ok (results_cap n)" results_view "results_cap n"
proof (rule bounded_log.intro)
  show "results_ok (results_cap n) (NewResultStore n)" "results_view (NewResultStore n) = []" "0 < results_cap n"
    by (simp_all add: NewResultStore_def results_ok_def results_view_def results_cap_def)
qed (rule result_add_ok result_add_view; assumption)+

lemma result_recent_view: "result_recent s n = take (nat n) (results_view s)"
proof -
  have "map (\<lambda>i. xs ! (length xs - 1 - i)) [0..<k] = take k (rev xs)"
    if "k \<le> length xs" for xs :: "health_result list" and k
    using that by (intro nth_equalityI) (auto simp: rev_nth)
  from this [of "length (rst_results s)" "rst_results s"] this [of "nat n" "rst_results s"] show ?thesis
    by (auto simp: result_recent_def results_view_def Let_def)
qed

lemma result_latest_view: "result_latest s = (case results_view s of [] \<Rightarrow> None | r # _ \<Rightarrow> Some r)"
  by (cases "rst_results s" rule: rev_cases) (simp_all add: result_latest_def results_view_def)

section \<open>The worst status\<close>

lemma aggregate_step_max: "aggregate_step c = max (ck_status c)"
  by (rule ext) (auto simp: aggregate_step_def max_def)

lemma status_bounds [simp]: "StatusOK \<le> s" "s \<le> StatusFail"
  by (cases s; simp add: less_eq_check_status_def)+

lemma fold_worst: "fold aggregate_step checks s = Max (insert s (ck_status ` set checks))"
proof (induction checks arbitrary: s)
  case Nil
  then show ?case by simp
next
  case (Cons c checks)
  have "Max (insert (max (ck_status c) s) (ck_status ` set checks)) =
      Max (insert s (insert (ck_status c) (ck_status ` set checks)))"
    by (cases "ck_status ` set checks = {}") (simp_all add: max.left_commute max.commute max.assoc)
  with Cons show ?case by (simp add: aggregate_step_max)
qed

text \<open>The results of the probes in one run, in order.\<close>

fun probe_results :: "'w probe list \<Rightarrow> 'w \<Rightarrow> check_result list \<times> 'w" where
  "probe_results [] w = ([], w)"
| "probe_results (p # ps) w =
     (let (r, w1) = pb_check p w; (rs, w2) = probe_results ps w1 in (r # rs, w2))"

lemma run_probes_eq: "run_probes ps acc w = (acc @ fst (probe_results ps w), snd (probe_results ps w))"
  by (induction ps arbitrary: acc w) (simp_all add: Let_def case_prod_beta')

section \<open>Histories of the checker\<close>

text \<open>The times of the runs, and the results of runs at these times.\<close>

fun tick_times :: "checker_event list \<Rightarrow> int list" where
  "tick_times [] = []"
| "tick_times (ContextDone # evs) = []"
| "tick_times (Tick now # evs) = now # tick_times evs"

fun run_results :: "'w probe list \<Rightarrow> int list \<Rightarrow> 'w \<Rightarrow> health_result list" where
  "run_results ps [] w = []"
| "run_results ps (now # ts) w =
     aggregate now (fst (probe_results ps w)) # run_results ps ts (snd (probe_results ps w))"

lemma run_once_eq:
  "run_once now c w =
     (let (checks, w') = probe_results (ch_probes c) w; hr = aggregate now checks
      in (hr, c\<lparr>ch_store := result_add hr (ch_store c)\<rparr>, w'))"
  by (simp add: run_once_def run_probes_eq case_prod_beta' Let_def)

lemma checker_loop_eq:
  "fst (checker_loop evs c w) =
     c\<lparr>ch_store := fold result_add (run_results (ch_probes c) (tick_times evs) w) (ch_store c)\<rparr>"
  by (induction evs c w rule: checker_loop.induct) (simp_all add: run_once_eq case_prod_beta' Let_def)

lemma run_results_ne: "run_results ps (now # ts) w \<noteq> []"
  by simp

section \<open>Properties\<close>

text \<open>The overall status of a run is the worst status of its checks, and OK
  where there are none; the report contains every check, in the order of the probes.\<close>

lemma aggregate_worst:
  "hs_status (fst (run_once now c w)) =
     Max (insert StatusOK (ck_status ` set (fst (probe_results (ch_probes c) w)))) \<and>
   hs_checks (fst (run_once now c w)) = fst (probe_results (ch_probes c) w) \<and>
   (hs_status (fst (run_once now c w)) = StatusFail \<longleftrightarrow>
     list_ex (\<lambda>r. ck_status r = StatusFail) (fst (probe_results (ch_probes c) w)))"
proof -
  let ?checks = "fst (probe_results (ch_probes c) w)"
  have "Max (insert StatusOK (ck_status ` set ?checks)) = StatusFail \<longleftrightarrow> StatusFail \<in> insert StatusOK (ck_status ` set ?checks)"
    by (intro iffI) (metis Max_in finite.insertI finite_imageI finite_set insert_not_empty,
      simp add: Max_eq_iff)
  also have "\<dots> \<longleftrightarrow> (\<exists>r \<in> set ?checks. ck_status r = StatusFail)" by force
  finally show ?thesis
    by (auto simp: run_once_eq Let_def case_prod_beta' aggregate_def fold_worst list_ex_iff)
qed

text \<open>C27 (checker_history). A checker that was started and did not panic keeps the results of all
  its runs, the one at the start and one per tick until its context ends, up to the capacity of
  the store: \<open>Latest\<close> is the last one, \<open>Recent\<close> lists them newest first.\<close>

theorem checker_history:
  assumes "checker_start now evs (NewChecker ps (NewResultStore n) interval) w = Some (c, w')"
  defines "runs \<equiv> run_results ps (now # tick_times evs) w"
  shows "checker_latest c = Some (last runs) \<and>
    result_recent (ch_store c) k = take (nat k) (take (results_cap n) (rev runs))"
proof -
  obtain hr c1 w1 where once: "run_once now (NewChecker ps (NewResultStore n) interval) w = (hr, c1, w1)"
    by (metis prod_cases3)
  with assms(1) have "checker_loop evs c1 w1 = (c, w')"
    by (simp add: checker_start_def split: if_splits)
  then have "c = fst (checker_loop evs c1 w1)" by simp
  with once have store: "ch_store c = fold result_add runs (NewResultStore n)"
    by (simp add: checker_loop_eq run_once_eq NewChecker_def runs_def Let_def case_prod_beta' prod_eq_iff) auto
  have "runs \<noteq> []" by (simp add: runs_def)
  then have "hd (results_view (ch_store c)) = last runs" "results_view (ch_store c) \<noteq> []"
    using results.newest [of runs n] results.capacity_pos [of n]
    unfolding store by (simp_all add: results.adds_view)
  then have "checker_latest c = Some (last runs)"
    by (auto simp: checker_latest_def result_latest_view split: list.splits)
  then show ?thesis by (simp add: result_recent_view store results.adds_view)
qed

theorem checker_history_witness:
  "\<exists>c w'. checker_start 7 [Tick 9, ContextDone] (NewChecker [] (NewResultStore 1) 0) () = Some (c, w') \<and>
     checker_latest c = Some (last (run_results [] [7, 9] ()))"
proof -
  obtain c w' where run: "checker_start 7 [Tick 9, ContextDone] (NewChecker [] (NewResultStore 1) 0) () = Some (c, w')"
    by (simp add: checker_start_def run_once_def NewChecker_def Let_def)
  from checker_history [OF this, of 1] run show ?thesis by auto
qed

text \<open>C28 (negative_interval_panics). The validation of the configuration does not look at the interval
  of the health checks, so a configuration with a negative one is accepted if the same with
  another interval is; the checker started with it panics, and exactly with such an interval.\<close>

theorem negative_interval_panics:
  "full_config_validate (cfg\<lparr>fc_health := (fc_health cfg)\<lparr>he_interval := i\<rparr>\<rparr>) = full_config_validate cfg \<and>
   (checker_start now evs (NewChecker ps store i) w = None \<longleftrightarrow> i < 0)"
  by (auto simp: full_config_validate_def checker_start_def run_once_eq NewChecker_def Let_def
      case_prod_beta')

end
