(* ===== verification/Api.thy ===== *)
theory Api
  imports Routes SessionManager Health
begin

text \<open>
  The management interface: \<open>internal/ui/api/handlers.go\<close> and the routes of
  \<open>internal/ui/api/router.go\<close>. A response is its status and the value that is written as JSON; the
  text of JSON, of times and of the build version is made elsewhere, the latter two being
  arguments. The boot service's registry and menus are the ones the boot handler works on.
\<close>

section \<open>Values of responses\<close>

record check_json =
  kj_name :: string
  kj_status :: string
  kj_message :: string
  kj_duration :: string

record health_json =
  hj_status :: string
  hj_checks :: "check_json list"
  hj_at :: string

record status_json =
  tj_version :: string
  tj_uptime :: string
  tj_health :: "health_json option"

record client_json =
  cj_mac :: string
  cj_name :: string
  cj_enabled :: bool
  cj_entries :: "string list"
  cj_default :: string
  cj_timeout :: int
  cj_vars :: "(string, string) gomap option"

record menu_json =
  mj_name :: string
  mj_label :: string
  mj_type :: string
  mj_description :: string
  mj_kernel :: string
  mj_initrd :: string

record session_json =
  sj_id :: string
  sj_mac :: string
  sj_state :: string
  sj_arch :: string
  sj_at :: string

record log_json =
  lj_time :: string
  lj_level :: string
  lj_message :: string
  lj_service :: string
  lj_mac :: string
  lj_attrs :: "(string, slog_value) gomap"

datatype reload_failure = ReloadNotLoaded load_error | ReloadNotValid config_error

datatype api_body =
  StatusBody status_json
| ClientsBody "client_json list"
| ClientBody client_json
| MenusBody "menu_json list"
| SessionsBody "session_json list"
| LogsBody "log_json list"
| HealthBody health_json
| FieldsBody "(string \<times> string) list"
| ReloadFailedBody reload_failure

type_synonym api_answer = "nat \<times> api_body"

definition error_json :: "nat \<Rightarrow> string \<Rightarrow> api_answer" where
  "error_json status msg = (status, FieldsBody [(''error'', msg)])"

section \<open>Dependencies\<close>

text \<open>What the handlers are given by the environment: the time, texts of times, the version.\<close>

record api_env =
  ae_now :: int
  ae_version :: string
  ae_rfc3339 :: "int \<Rightarrow> string"
  ae_rfc3339_nano :: "int \<Rightarrow> string"

record ('st, 'w) api_deps =
  ad_registry :: registry
  ad_menus :: menu_resolver
  ad_ops :: "'st store_ops"
  ad_sessions :: "'st manager"
  ad_health :: "'w checker option"
  ad_logs :: "log_buffer option"
  ad_started_at :: int
  ad_reload :: bool

section \<open>Conversions\<close>

definition client_to_json :: "client \<Rightarrow> client_json" where
  "client_to_json c =
     \<lparr>cj_mac = (if client_is_wildcard c then ''*'' else mac_string (cl_mac c)), cj_name = cl_name c,
      cj_enabled = cl_enabled c, cj_entries = mc_entries (cl_menu c), cj_default = mc_default (cl_menu c),
      cj_timeout = mc_timeout (cl_menu c), cj_vars = cl_vars c\<rparr>"

definition menu_to_json :: "menu_entry \<Rightarrow> menu_json" where
  "menu_to_json m =
     \<lparr>mj_name = me_name m, mj_label = me_label m, mj_type = menu_type_string (me_type m),
      mj_description = me_description m, mj_kernel = bp_kernel (me_boot m), mj_initrd = bp_initrd (me_boot m)\<rparr>"

definition session_to_json :: "api_env \<Rightarrow> session \<Rightarrow> session_json" where
  "session_to_json env s =
     \<lparr>sj_id = ss_id s, sj_mac = mac_string (ss_mac s), sj_state = boot_state_string (ss_state s),
      sj_arch = arch_string (ss_arch s), sj_at = ae_rfc3339 env (ss_started_at s)\<rparr>"

definition health_result_to_json :: "api_env \<Rightarrow> health_result \<Rightarrow> health_json" where
  "health_result_to_json env hr =
     \<lparr>hj_status = check_status_string (hs_status hr),
      hj_checks = map (\<lambda>c. \<lparr>kj_name = ck_name c, kj_status = check_status_string (ck_status c),
        kj_message = ck_message c, kj_duration = duration_string (duration_round (ck_duration c) 1000000)\<rparr>) (hs_checks hr),
      hj_at = ae_rfc3339 env (hs_at hr)\<rparr>"

text \<open>\<open>slog.Level.String\<close>.\<close>

definition level_string :: "int \<Rightarrow> string" where
  "level_string l =
     (let str = (\<lambda>base v. if v = 0 then base else base @ (if 0 \<le> v then ''+'' else []) @ dec_of_int v) in
      if l < 0 then str ''DEBUG'' (l + 4)
      else if l < 4 then str ''INFO'' l
      else if l < 8 then str ''WARN'' (l - 4)
      else str ''ERROR'' (l - 8))"

definition log_to_json :: "api_env \<Rightarrow> log_entry \<Rightarrow> log_json" where
  "log_to_json env e =
     \<lparr>lj_time = ae_rfc3339_nano env (le_time e), lj_level = level_string (le_level e), lj_message = le_message e,
      lj_service = le_service e, lj_mac = le_mac e, lj_attrs = le_attrs e\<rparr>"

section \<open>Handlers\<close>

definition handle_status :: "api_env \<Rightarrow> ('st, 'w) api_deps \<Rightarrow> api_answer" where
  "handle_status env d =
     (200, StatusBody \<lparr>tj_version = ae_version env,
        tj_uptime = duration_string (duration_round (ae_now env - ad_started_at d) 1000000000),
        tj_health = (case ad_health d of
            None \<Rightarrow> None | Some c \<Rightarrow> map_option (health_result_to_json env) (checker_latest c))\<rparr>)"

definition handle_clients ::
  "((string, client) gomap \<Rightarrow> (string, client) gomap) \<Rightarrow> ('st, 'w) api_deps \<Rightarrow> api_answer" where
  "handle_clients rng d = (200, ClientsBody (map client_to_json (list_clients rng (ad_registry d))))"

definition handle_client_show :: "('st, 'w) api_deps \<Rightarrow> string \<Rightarrow> api_answer" where
  "handle_client_show d mac_str =
     (case ParseMAC mac_str of
        Inl _ \<Rightarrow> error_json 400 ''invalid MAC address''
      | Inr mac \<Rightarrow>
          (case find_client (ad_registry d) mac of
             Inl _ \<Rightarrow> error_json 404 ''client not found''
           | Inr c \<Rightarrow> (200, ClientBody (client_to_json c))))"

definition handle_client_wake :: "('st, 'w) api_deps \<Rightarrow> string \<Rightarrow> api_answer" where
  "handle_client_wake d mac_str =
     (case ParseMAC mac_str of
        Inl _ \<Rightarrow> error_json 400 ''invalid MAC address''
      | Inr mac \<Rightarrow>
          (case find_client (ad_registry d) mac of
             Inl _ \<Rightarrow> error_json 404 ''client not found''
           | Inr _ \<Rightarrow> (200, FieldsBody [(''status'', ''ok''), (''mac'', mac_string mac)])))"

definition handle_menus ::
  "((string, menu_entry) gomap \<Rightarrow> (string, menu_entry) gomap) \<Rightarrow> ('st, 'w) api_deps \<Rightarrow> api_answer" where
  "handle_menus rng d = (200, MenusBody (map menu_to_json (menus_list_all rng (ad_menus d))))"

definition handle_sessions :: "api_env \<Rightarrow> ('st, 'w) api_deps \<Rightarrow> api_answer" where
  "handle_sessions env d =
     (case sm_active (ad_ops d) (ad_sessions d) of
        Inl _ \<Rightarrow> error_json 500 ''failed to list sessions''
      | Inr ps \<Rightarrow> (200, SessionsBody (map (\<lambda>p. session_to_json env (sm_heap (ad_sessions d) ! p)) ps)))"

text \<open>The reload, given the outcome of loading the files; it is \<open>reload_events\<close> of the service.\<close>

definition handle_reload :: "load_error + full_config \<Rightarrow> ('st, 'w) api_deps \<Rightarrow> ('st, 'w) api_deps \<times> api_answer" where
  "handle_reload loaded d =
     (if \<not> ad_reload d then (d, error_json 501 ''reload not configured'')
      else case loaded of
        Inl err \<Rightarrow> (d, (500, ReloadFailedBody (ReloadNotLoaded err)))
      | Inr cfg \<Rightarrow>
          (case full_config_validate cfg of
             Some err \<Rightarrow> (d, (500, ReloadFailedBody (ReloadNotValid err)))
           | None \<Rightarrow>
               (d\<lparr>ad_registry := registry_reload (fc_clients cfg) (ad_registry d),
                  ad_menus := menus_reload (fc_menus cfg) (ad_menus d)\<rparr>,
                (200, FieldsBody [(''status'', ''reloaded'')]))))"

definition handle_test :: "api_env \<Rightarrow> 'w \<Rightarrow> ('st, 'w) api_deps \<Rightarrow> ('st, 'w) api_deps \<times> 'w \<times> api_answer" where
  "handle_test env w d =
     (case ad_health d of
        None \<Rightarrow> (d, w, error_json 501 ''health checker not configured'')
      | Some c \<Rightarrow>
          (let (hr, c', w') = run_once (ae_now env) c w
           in (d\<lparr>ad_health := Some c'\<rparr>, w', (200, HealthBody (health_result_to_json env hr)))))"

definition log_limit :: "string \<Rightarrow> int" where
  "log_limit v =
     (if v \<noteq> [] then (case go_atoi v of Some n \<Rightarrow> if n > 0 then n else 100 | None \<Rightarrow> 100) else 100)"

text \<open>The query parameters \<open>limit\<close>, \<open>service\<close> and \<open>mac\<close>; a panic is \<^const>\<open>None\<close>.\<close>

definition handle_logs ::
  "api_env \<Rightarrow> string \<Rightarrow> string \<Rightarrow> string \<Rightarrow> ('st, 'w) api_deps \<Rightarrow> api_answer option" where
  "handle_logs env limit_str service mac d =
     (case ad_logs d of
        None \<Rightarrow> Some (error_json 501 ''log buffer not configured'')
      | Some b \<Rightarrow>
          let limit = log_limit limit_str;
              entries = (if service \<noteq> [] \<or> mac \<noteq> [] then Some (log_filter b mac service 0 limit)
                         else log_recent b limit)
          in map_option (\<lambda>es. (200, LogsBody (map (log_to_json env) es))) entries)"

section \<open>Properties\<close>

lemma distinct_from_parts: "distinct (filter P xs) \<Longrightarrow> distinct (filter (\<lambda>x. \<not> P x) xs) \<Longrightarrow> distinct xs"
  by (induction xs) (auto split: if_splits)

lemma consistent_clients:
  assumes "consistent cfg"
  shows "distinct (fc_clients cfg)"
    and "inj_on mac_key (set (plain_clients (fc_clients cfg)))"
    and "length (filter client_is_wildcard (fc_clients cfg)) \<le> 1"
proof -
  have plain: "distinct (map mac_key (plain_clients (fc_clients cfg)))"
    and one: "length (filter client_is_wildcard (fc_clients cfg)) \<le> 1"
    using assms by (simp_all add: consistent_def)
  from one have "distinct (filter client_is_wildcard (fc_clients cfg))"
    by (cases "filter client_is_wildcard (fc_clients cfg)") simp_all
  then show "distinct (fc_clients cfg)" using distinct_from_parts [OF _ distinct_map [THEN iffD1, OF plain, THEN conjunct1]] by blast
  show "inj_on mac_key (set (plain_clients (fc_clients cfg)))" using plain by (simp only: distinct_map)
  show "length (filter client_is_wildcard (fc_clients cfg)) \<le> 1" by (rule one)
qed

lemma find_listed_client:
  assumes cons: "consistent cfg" and c: "c \<in> set (fc_clients cfg)"
  shows "ParseMAC (cj_mac (client_to_json c)) = Inr (cl_mac c) \<and>
    find_client (NewRegistry (fc_clients cfg)) (cl_mac c) = Inr c"
proof (cases "client_is_wildcard c")
  case True
  then have mac: "cl_mac c = WildcardMAC" by (simp add: client_is_wildcard_iff)
  have "ParseMAC ''*'' = Inr WildcardMAC" by code_simp
  moreover have "last_match (\<lambda>c'. \<not> client_is_wildcard c' \<and> mac_key c' = mac_string (cl_mac c)) (fc_clients cfg) = None"
    unfolding last_match_None
  proof
    fix c'
    assume "c' \<in> set (fc_clients cfg)"
    then obtain bs where "cl_mac c' = Some bs" using cons by (auto simp: consistent_def)
    then show "\<not> (\<not> client_is_wildcard c' \<and> mac_key c' = mac_string (cl_mac c))"
      by (auto simp: mac client_is_wildcard_iff WildcardMAC_def)
  qed
  moreover have "last_match client_is_wildcard (fc_clients cfg) = Some c"
  proof (rule last_match_unique)
    show "c \<in> set (fc_clients cfg)" "client_is_wildcard c" using c True by simp_all
    fix c'
    assume "c' \<in> set (fc_clients cfg)" "client_is_wildcard c'"
    with c True have in_filter: "{c, c'} \<subseteq> set (filter client_is_wildcard (fc_clients cfg))" by simp
    obtain x where "set (filter client_is_wildcard (fc_clients cfg)) \<subseteq> {x}"
      using consistent_clients(3) [OF cons] by (cases "filter client_is_wildcard (fc_clients cfg)") auto
    with in_filter show "c' = c" by blast
  qed
  ultimately show ?thesis using True by (simp add: client_to_json_def mac NewRegistry_def find_client_load)
next
  case False
  obtain bs where bs: "cl_mac c = Some bs" "mac_len_ok (length bs)"
    using cons c by (auto simp: consistent_def)
  have "last_match (\<lambda>c'. \<not> client_is_wildcard c' \<and> mac_key c' = mac_key c) (fc_clients cfg) = Some c"
  proof (rule last_match_unique [OF c])
    show "\<not> client_is_wildcard c \<and> mac_key c = mac_key c" using False by simp
    fix c'
    assume "c' \<in> set (fc_clients cfg)" "\<not> client_is_wildcard c' \<and> mac_key c' = mac_key c"
    with inj_onD [OF consistent_clients(2) [OF cons], of c' c] c False show "c' = c" by simp
  qed
  with bs False show ?thesis
    by (simp add: client_to_json_def ParseMAC_bytes_string NewRegistry_def find_client_load)
qed

text \<open>C34 (api_clients_consistent). With a registry made of a consistent configuration, the list of clients has
  every configured client once, and asking for a listed client by the address in the list
  returns the same description of it.\<close>

theorem api_clients_consistent:
  assumes "consistent cfg" and "range_order rng" and "ad_registry d = NewRegistry (fc_clients cfg)"
  shows "\<exists>js. handle_clients rng d = (200, ClientsBody js) \<and>
    mset js = mset (map client_to_json (fc_clients cfg)) \<and>
    list_all (\<lambda>j. handle_client_show d (cj_mac j) = (200, ClientBody j)) js"
proof -
  let ?cs = "list_clients rng (ad_registry d)"
  have perm: "mset ?cs = mset (fc_clients cfg)"
    unfolding assms(3) by (rule list_clients_complete [OF assms(2) consistent_clients [OF assms(1)]])
  have "handle_client_show d (cj_mac (client_to_json c)) = (200, ClientBody (client_to_json c))"
    if "c \<in> set (fc_clients cfg)" for c
    using find_listed_client [OF assms(1) that] by (simp add: handle_client_show_def assms(3))
  moreover have "set ?cs = set (fc_clients cfg)" using perm by (rule mset_eq_setD)
  ultimately have "list_all (\<lambda>j. handle_client_show d (cj_mac j) = (200, ClientBody j)) (map client_to_json ?cs)"
    by (simp add: list_all_iff)
  with perm show ?thesis by (intro exI [of _ "map client_to_json ?cs"]) (simp add: handle_clients_def)
qed

text \<open>The entries a query asks for; an empty parameter asks for all.\<close>

definition asked_for :: "string \<Rightarrow> string \<Rightarrow> log_entry \<Rightarrow> bool" where
  "asked_for mac service e \<longleftrightarrow> (mac = [] \<or> le_mac e = mac) \<and> (service = [] \<or> le_service e = service)"

lemma log_matches_asked: "log_matches mac service 0 = asked_for mac service"
  by (rule ext) (auto simp: log_matches_def asked_for_def)

definition sample_deps :: "log_entry list \<Rightarrow> (addr list, unit) api_deps" where
  "sample_deps es =
     \<lparr>ad_registry = NewRegistry (fc_clients sample_full_config), ad_menus = NewMenuResolver (fc_menus sample_full_config),
      ad_ops = mem_ops, ad_sessions = \<lparr>sm_store = [], sm_heap = [], sm_counter = 0\<rparr>, ad_health = None,
      ad_logs = Some (fold log_add es (NewLogBuffer 2)), ad_started_at = 0, ad_reload = True\<rparr>"

theorem api_clients_consistent_witness:
  "\<exists>js. handle_clients (\<lambda>m. m) (sample_deps []) = (200, ClientsBody js) \<and>
     mset js = {#client_to_json (hd (fc_clients sample_full_config))#}"
proof -
  have "consistent sample_full_config"
    by (simp add: consistent_def sample_full_config_def empty_full_config_def used_entries_def
        client_is_wildcard_iff WildcardMAC_def mac_len_ok_def)
  from api_clients_consistent [OF this range_order_id, of "sample_deps []"] show ?thesis
    by (auto simp: sample_deps_def sample_full_config_def)
qed

text \<open>A request for the log never panics, whatever its parameters: it returns the latest
  entries that are kept, newest first, of the given service and address, at most as many as the
  limit, which is 100 where none or no positive number is given.\<close>

lemma api_logs_spec:
  assumes "ad_logs d = Some (fold log_add es (NewLogBuffer sz))"
  shows "handle_logs env limit_str service mac d =
    Some (200, LogsBody (map (log_to_json env) (take (nat (log_limit limit_str))
      (filter (asked_for mac service) (take (nat (log_size sz)) (rev es)))))) \<and> 0 < log_limit limit_str"
proof
  show pos: "0 < log_limit limit_str" by (auto simp: log_limit_def split: option.split)
  let ?kept = "take (nat (log_size sz)) (rev es)"
  have "filter (asked_for [] []) ?kept = ?kept" by (simp add: asked_for_def)
  then show "handle_logs env limit_str service mac d =
    Some (200, LogsBody (map (log_to_json env) (take (nat (log_limit limit_str)) (filter (asked_for mac service) ?kept))))"
    using pos log_recent_view [OF log.adds_ok] log_filter_view [OF log.adds_ok]
    by (auto simp: handle_logs_def assms Let_def log.adds_view log_matches_asked)
qed

lemma api_logs_spec_example:
  "\<exists>js. handle_logs \<lparr>ae_now = 0, ae_version = [], ae_rfc3339 = \<lambda>_. [], ae_rfc3339_nano = \<lambda>_. []\<rparr> ''-5'' [] []
       (sample_deps [zero_log_entry, zero_log_entry\<lparr>le_message := ''b''\<rparr>, zero_log_entry\<lparr>le_message := ''c''\<rparr>]) =
     Some (200, LogsBody js) \<and> map lj_message js = [''c'', ''b'']"
proof -
  let ?es = "[zero_log_entry, zero_log_entry\<lparr>le_message := ''b''\<rparr>, zero_log_entry\<lparr>le_message := ''c''\<rparr>]"
  have logs: "ad_logs (sample_deps ?es) = Some (fold log_add ?es (NewLogBuffer 2))"
    by (simp only: sample_deps_def api_deps.select_convs)
  have "log_limit ''-5'' = 100" by (simp add: log_limit_def go_atoi_def is_digit_def dec_digits_def)
  with api_logs_spec [OF logs, of _ "''-5''" "[]" "[]"] show ?thesis
    by (simp add: asked_for_def log_size_def log_to_json_def)
qed

end
