(* ===== verification/ApiRouter.thy ===== *)
theory ApiRouter
  imports Api
begin

text \<open>
  The routes of the management interface (\<open>internal/ui/api/router.go\<close>) on the multiplexer of the
  standard library, and what every answer looks like. A request has its method, its path
  without percent escapes and the values of its query parameters. A panic of a handler
  aborts the connection.
\<close>

section \<open>Routes\<close>

datatype api_endpoint =
  StatusEndpoint
| ClientsEndpoint
| ClientEndpoint string
| WakeEndpoint string
| MenusEndpoint
| SessionsEndpoint
| ReloadEndpoint
| TestEndpoint
| LogsEndpoint

text \<open>The pattern a path below \<open>/api/v1/\<close> matches, with its method.\<close>

definition match_api :: "string list \<Rightarrow> (string \<times> api_endpoint) option" where
  "match_api segs =
     (if segs = [''status''] then Some (''GET'', StatusEndpoint)
      else if segs = [''clients''] then Some (''GET'', ClientsEndpoint)
      else if length segs = 2 \<and> segs ! 0 = ''clients'' \<and> segs ! 1 \<noteq> [] then Some (''GET'', ClientEndpoint (segs ! 1))
      else if length segs = 3 \<and> segs ! 0 = ''clients'' \<and> segs ! 1 \<noteq> [] \<and> segs ! 2 = ''wake''
      then Some (''POST'', WakeEndpoint (segs ! 1))
      else if segs = [''menus''] then Some (''GET'', MenusEndpoint)
      else if segs = [''sessions''] then Some (''GET'', SessionsEndpoint)
      else if segs = [''reload''] then Some (''POST'', ReloadEndpoint)
      else if segs = [''test''] then Some (''POST'', TestEndpoint)
      else if segs = [''logs''] then Some (''GET'', LogsEndpoint)
      else None)"

datatype api_route = Endpoint api_endpoint | ApiNotFound | ApiMethodNotAllowed | ApiRedirect string

text \<open>A path that is not clean is redirected before a pattern is tried; the multiplexer around this one
  has done so already for what arrives over the network.\<close>

definition api_route :: "string \<Rightarrow> string \<Rightarrow> api_route" where
  "api_route meth path =
     (if clean_url path \<noteq> path then ApiRedirect (clean_url path)
      else case split_char slash path of
        first # api # version # segs \<Rightarrow>
          if first = [] \<and> api = ''api'' \<and> version = ''v1'' then
            (case match_api segs of
               None \<Rightarrow> ApiNotFound
             | Some (m, ep) \<Rightarrow>
                 if meth = m \<or> m = ''GET'' \<and> meth = ''HEAD'' then Endpoint ep else ApiMethodNotAllowed)
          else ApiNotFound
      | _ \<Rightarrow> ApiNotFound)"

section \<open>Serving\<close>

record api_request =
  ar_method :: string
  ar_path :: string
  ar_query :: "string \<Rightarrow> string"

datatype api_response = Json api_answer | Plain http_response | Moved string | Aborted

record api_orders =
  ao_clients :: "(string, client) gomap \<Rightarrow> (string, client) gomap"
  ao_menus :: "(string, menu_entry) gomap \<Rightarrow> (string, menu_entry) gomap"

definition call_endpoint ::
  "api_env \<Rightarrow> api_orders \<Rightarrow> load_error + full_config \<Rightarrow> (string \<Rightarrow> string) \<Rightarrow> api_endpoint \<Rightarrow>
   ('st, 'w) api_deps \<times> 'w \<Rightarrow> (('st, 'w) api_deps \<times> 'w) \<times> api_response" where
  "call_endpoint env ord loaded query ep = (\<lambda>(d, w).
     case ep of
       StatusEndpoint \<Rightarrow> ((d, w), Json (handle_status env d))
     | ClientsEndpoint \<Rightarrow> ((d, w), Json (handle_clients (ao_clients ord) d))
     | ClientEndpoint mac \<Rightarrow> ((d, w), Json (handle_client_show d mac))
     | WakeEndpoint mac \<Rightarrow> ((d, w), Json (handle_client_wake d mac))
     | MenusEndpoint \<Rightarrow> ((d, w), Json (handle_menus (ao_menus ord) d))
     | SessionsEndpoint \<Rightarrow> ((d, w), Json (handle_sessions env d))
     | ReloadEndpoint \<Rightarrow> (let (d', a) = handle_reload loaded d in ((d', w), Json a))
     | TestEndpoint \<Rightarrow> (let (d', w', a) = handle_test env w d in ((d', w'), Json a))
     | LogsEndpoint \<Rightarrow> ((d, w),
         case handle_logs env (query ''limit'') (query ''service'') (query ''mac'') d of
           None \<Rightarrow> Aborted | Some a \<Rightarrow> Json a))"

definition api_serve ::
  "api_env \<Rightarrow> api_orders \<Rightarrow> load_error + full_config \<Rightarrow> api_request \<Rightarrow>
   ('st, 'w) api_deps \<times> 'w \<Rightarrow> (('st, 'w) api_deps \<times> 'w) \<times> api_response" where
  "api_serve env ord loaded req dw =
     (case api_route (ar_method req) (ar_path req) of
        Endpoint ep \<Rightarrow> call_endpoint env ord loaded (ar_query req) ep dw
      | ApiNotFound \<Rightarrow> (dw, Plain (http_error ''404 page not found'' 404))
      | ApiMethodNotAllowed \<Rightarrow> (dw, Plain (http_error ''Method Not Allowed'' 405))
      | ApiRedirect p \<Rightarrow> (dw, Moved p))"

section \<open>The shape of answers\<close>

fun body_fits :: "api_endpoint \<Rightarrow> api_body \<Rightarrow> bool" where
  "body_fits StatusEndpoint (StatusBody _) = True"
| "body_fits ClientsEndpoint (ClientsBody _) = True"
| "body_fits (ClientEndpoint _) (ClientBody _) = True"
| "body_fits (WakeEndpoint _) (FieldsBody fs) = (map fst fs = [''status'', ''mac''])"
| "body_fits MenusEndpoint (MenusBody _) = True"
| "body_fits SessionsEndpoint (SessionsBody _) = True"
| "body_fits ReloadEndpoint (FieldsBody fs) = (fs = [(''status'', ''reloaded'')])"
| "body_fits TestEndpoint (HealthBody _) = True"
| "body_fits LogsEndpoint (LogsBody _) = True"
| "body_fits _ _ = False"

fun error_codes :: "api_endpoint \<Rightarrow> nat list" where
  "error_codes (ClientEndpoint _) = [400, 404]"
| "error_codes (WakeEndpoint _) = [400, 404]"
| "error_codes SessionsEndpoint = [500]"
| "error_codes ReloadEndpoint = [500, 501]"
| "error_codes TestEndpoint = [501]"
| "error_codes LogsEndpoint = [501]"
| "error_codes _ = []"

fun error_body :: "api_body \<Rightarrow> bool" where
  "error_body (FieldsBody fs) = (map fst fs = [''error''])"
| "error_body (ReloadFailedBody _) = True"
| "error_body _ = False"

fun answer_fits :: "api_endpoint \<Rightarrow> api_answer \<Rightarrow> bool" where
  "answer_fits ep (status, body) \<longleftrightarrow>
     status = 200 \<and> body_fits ep body \<or> status \<in> set (error_codes ep) \<and> error_body body"

definition response_fits :: "api_route \<Rightarrow> api_response \<Rightarrow> bool" where
  "response_fits r resp =
     (case (r, resp) of
        (Endpoint ep, Json a) \<Rightarrow> answer_fits ep a
      | (ApiNotFound, Plain h) \<Rightarrow> hr_status h = 404
      | (ApiMethodNotAllowed, Plain h) \<Rightarrow> hr_status h = 405
      | (ApiRedirect p, Moved q) \<Rightarrow> q = p
      | _ \<Rightarrow> False)"

section \<open>The state behind the interface\<close>

text \<open>The tables are those of one valid configuration, the histories keep their bounds.\<close>

definition api_state_ok :: "('st, 'w) api_deps \<Rightarrow> bool" where
  "api_state_ok d \<longleftrightarrow>
     (\<exists>cfg. consistent cfg \<and> full_config_validate cfg = None \<and> tables_of cfg (ad_registry d) (ad_menus d)) \<and>
     (\<forall>b. ad_logs d = Some b \<longrightarrow> (\<exists>sz. log_ok sz b)) \<and>
     (\<forall>c. ad_health d = Some c \<longrightarrow> (\<exists>cap. results_ok cap (ch_store c)))"

lemma handle_logs_fits:
  assumes "api_state_ok d"
  shows "\<exists>a. handle_logs env limit_str service mac d = Some a \<and> answer_fits LogsEndpoint a"
proof (cases "ad_logs d")
  case None
  then show ?thesis by (simp add: handle_logs_def error_json_def)
next
  case (Some b)
  then obtain sz where "log_ok sz b" using assms by (auto simp: api_state_ok_def)
  moreover have "0 < log_limit limit_str" by (auto simp: log_limit_def split: option.split)
  ultimately show ?thesis by (auto simp: handle_logs_def Some Let_def log_recent_view)
qed

lemma handle_reload_ok:
  assumes "api_state_ok d" and "\<And>cfg. loaded = Inr cfg \<Longrightarrow> consistent cfg"
  shows "api_state_ok (fst (handle_reload loaded d)) \<and> answer_fits ReloadEndpoint (snd (handle_reload loaded d))"
proof (cases "ad_reload d \<and> (\<exists>cfg. loaded = Inr cfg \<and> full_config_validate cfg = None)")
  case True
  then obtain cfg where cfg: "ad_reload d" "loaded = Inr cfg" "full_config_validate cfg = None" by blast
  then have "tables_of cfg (registry_reload (fc_clients cfg) (ad_registry d)) (menus_reload (fc_menus cfg) (ad_menus d))"
    by (simp add: tables_of_def find_client_reload menus_reload_eq)
  with cfg assms show ?thesis by (auto simp: handle_reload_def api_state_ok_def)
next
  case False
  with assms(1) show ?thesis
    by (auto simp: handle_reload_def error_json_def split: sum.split option.split)
qed

lemma handle_test_ok:
  assumes "api_state_ok d" and "handle_test env w d = (d', w', a)"
  shows "api_state_ok d' \<and> answer_fits TestEndpoint a"
proof (cases "ad_health d")
  case None
  with assms show ?thesis by (auto simp: handle_test_def error_json_def)
next
  case (Some c)
  with assms(1) obtain cap where "results_ok cap (ch_store c)" by (auto simp: api_state_ok_def)
  then have "results_ok cap (ch_store (fst (snd (run_once (ae_now env) c w))))"
    by (simp add: run_once_eq Let_def case_prod_beta' result_add_ok)
  with Some assms show ?thesis
    by (auto simp: handle_test_def api_state_ok_def case_prod_beta' Let_def)
qed

lemma plain_handlers_fit:
  "answer_fits StatusEndpoint (handle_status env d)"
  "answer_fits ClientsEndpoint (handle_clients corder d)"
  "answer_fits (ClientEndpoint mac) (handle_client_show d mac)"
  "answer_fits (WakeEndpoint mac) (handle_client_wake d mac)"
  "answer_fits MenusEndpoint (handle_menus morder d)"
  "answer_fits SessionsEndpoint (handle_sessions env d)"
  by (auto simp: handle_status_def handle_clients_def handle_client_show_def handle_client_wake_def
      handle_menus_def handle_sessions_def error_json_def split: sum.split)

lemma call_endpoint_ok:
  assumes "api_state_ok d" and "\<And>cfg. loaded = Inr cfg \<Longrightarrow> consistent cfg"
    and "call_endpoint env ord loaded query ep (d, w) = ((d', w'), r)"
  shows "api_state_ok d' \<and> response_fits (Endpoint ep) r"
proof (cases ep)
  case ReloadEndpoint
  with handle_reload_ok [OF assms(1,2), where loaded = loaded] assms(3) show ?thesis
    by (auto simp: call_endpoint_def response_fits_def case_prod_beta' Let_def)
next
  case TestEndpoint
  with assms(3) obtain a where "handle_test env w d = (d', w', a)" "r = Json a"
    by (auto simp: call_endpoint_def split: prod.splits)
  with handle_test_ok [OF assms(1)] TestEndpoint show ?thesis by (simp add: response_fits_def)
next
  case LogsEndpoint
  with handle_logs_fits [OF assms(1), of env "query ''limit''" "query ''service''" "query ''mac''"] assms show ?thesis
    by (auto simp: call_endpoint_def response_fits_def)
qed (use assms(1,3) plain_handlers_fit in \<open>auto simp: call_endpoint_def response_fits_def\<close>)

lemma api_serve_ok:
  assumes "api_state_ok d"
    and "api_serve env ord (load_dir rng unmarshal fs dir) req (d, w) = ((d', w'), r)"
  shows "api_state_ok d' \<and> response_fits (api_route (ar_method req) (ar_path req)) r"
proof (cases "api_route (ar_method req) (ar_path req)")
  case (Endpoint ep)
  with assms(2) have "call_endpoint env ord (load_dir rng unmarshal fs dir) (ar_query req) ep (d, w) = ((d', w'), r)"
    by (simp add: api_serve_def)
  from call_endpoint_ok [OF assms(1) load_dir_consistent this] Endpoint show ?thesis by simp
qed (use assms in \<open>auto simp: api_serve_def response_fits_def http_error_def\<close>)

lemma api_serve_logs:
  assumes "api_serve env ord loaded req (d, w) = ((d', w'), r)"
  shows "ad_logs d' = ad_logs d"
  using assms
  by (auto simp: api_serve_def call_endpoint_def handle_reload_def handle_test_def case_prod_beta' Let_def
      split: api_route.splits api_endpoint.splits sum.splits option.splits if_splits)

text \<open>The answers with a status of 500 or above, and those that the code gives them: a reload
  of a directory that does not load or is not valid, and a test where no health checks run.\<close>

definition failure_status :: "api_response \<Rightarrow> nat option" where
  "failure_status r =
     (case r of
        Json (status, body) \<Rightarrow> if 500 \<le> status then Some status else None
      | Plain h \<Rightarrow> if 500 \<le> hr_status h then Some (hr_status h) else None
      | _ \<Rightarrow> None)"

definition loads_valid :: "load_error + full_config \<Rightarrow> bool" where
  "loads_valid loaded = (case loaded of Inl err \<Rightarrow> False | Inr cfg \<Rightarrow> full_config_validate cfg = None)"

definition api_refusal :: "bool \<Rightarrow> load_error + full_config \<Rightarrow> api_request \<Rightarrow> nat option" where
  "api_refusal checked loaded req =
     (case api_route (ar_method req) (ar_path req) of
        Endpoint ReloadEndpoint \<Rightarrow> if loads_valid loaded then None else Some 500
      | Endpoint TestEndpoint \<Rightarrow> if checked then None else Some 501
      | _ \<Rightarrow> None)"

lemma sm_active_mem: "\<exists>ps. sm_active mem_ops m = Inr ps"
  by (simp add: sm_active_def mem.find_active_view)

lemma call_endpoint_failure:
  assumes "ad_ops d = mem_ops" and "ad_reload d" and "ad_logs d = Some b"
    and "call_endpoint env ord loaded query ep (d, w) = ((d', w'), r)"
  shows "failure_status r =
      (case ep of
         ReloadEndpoint \<Rightarrow> if loads_valid loaded then None else Some 500
       | TestEndpoint \<Rightarrow> if ad_health d \<noteq> None then None else Some 501
       | _ \<Rightarrow> None) \<and>
    map_option ch_interval (ad_health d') = map_option ch_interval (ad_health d)"
proof (cases ep)
  case SessionsEndpoint
  obtain ps where "sm_active mem_ops (ad_sessions d) = Inr ps" using sm_active_mem by blast
  with SessionsEndpoint assms show ?thesis
    by (auto simp: call_endpoint_def handle_sessions_def failure_status_def)
next
  case ReloadEndpoint
  with assms show ?thesis
    by (auto simp: call_endpoint_def handle_reload_def failure_status_def loads_valid_def split: sum.splits option.splits)
next
  case TestEndpoint
  with assms show ?thesis
    by (auto simp: call_endpoint_def handle_test_def error_json_def failure_status_def run_once_eq case_prod_beta' Let_def
        split: option.splits)
next
  case LogsEndpoint
  with assms show ?thesis
    by (auto simp: call_endpoint_def handle_logs_def failure_status_def Let_def split: option.splits)
qed (use assms in \<open>auto simp: call_endpoint_def handle_status_def handle_clients_def handle_client_show_def
  handle_client_wake_def handle_menus_def error_json_def failure_status_def split: sum.splits\<close>)

lemma api_serve_failure:
  assumes "ad_ops d = mem_ops" and "ad_reload d" and "ad_logs d = Some b"
    and "api_serve env ord loaded req (d, w) = ((d', w'), r)"
  shows "failure_status r = api_refusal (ad_health d \<noteq> None) loaded req"
    and "map_option ch_interval (ad_health d') = map_option ch_interval (ad_health d)"
proof -
  have "failure_status r = api_refusal (ad_health d \<noteq> None) loaded req \<and>
      map_option ch_interval (ad_health d') = map_option ch_interval (ad_health d)"
  proof (cases "api_route (ar_method req) (ar_path req)")
    case (Endpoint ep)
    with assms(4) have "call_endpoint env ord loaded (ar_query req) ep (d, w) = ((d', w'), r)"
      by (simp add: api_serve_def)
    from call_endpoint_failure [OF assms(1-3) this] Endpoint show ?thesis
      by (simp add: api_refusal_def split: api_endpoint.split)
  qed (use assms(4) in \<open>auto simp: api_serve_def api_refusal_def failure_status_def http_error_def\<close>)
  then show "failure_status r = api_refusal (ad_health d \<noteq> None) loaded req"
    "map_option ch_interval (ad_health d') = map_option ch_interval (ad_health d)" by simp_all
qed

section \<open>Properties\<close>

text \<open>C8 (api_answers_typed). In a state with the tables of a valid configuration and histories within their bounds
  every request to the management interface gets an answer of the type of its route: the
  value of the endpoint with status 200, an error object with a status of the endpoint, a redirect to
  the clean form of a path, or 404 and 405 outside the routes; no handler panics, and the state stays well-formed, also
  after a reload from any directory.\<close>

theorem api_answers_typed:
  assumes "api_state_ok d"
    and "api_serve env ord (load_dir rng unmarshal fs dir) req (d, w) = ((d', w'), r)"
  shows "api_state_ok d' \<and> response_fits (api_route (ar_method req) (ar_path req)) r"
  using assms by (rule api_serve_ok)

definition sample_env :: api_env where
  "sample_env = \<lparr>ae_now = 0, ae_version = [], ae_rfc3339 = \<lambda>_. [], ae_rfc3339_nano = \<lambda>_. []\<rparr>"

definition sample_orders :: api_orders where
  "sample_orders = \<lparr>ao_clients = \<lambda>m. m, ao_menus = \<lambda>m. m\<rparr>"

theorem api_answers_typed_witness:
  "\<exists>d w r. api_serve sample_env sample_orders (load_dir (\<lambda>m. m) sample_unmarshal sample_fs ''etc'')
      \<lparr>ar_method = ''POST'', ar_path = ''/api/v1/reload'', ar_query = \<lambda>_. []\<rparr> (sample_deps [], ()) = ((d, w), r) \<and>
     api_state_ok d \<and> response_fits (Endpoint ReloadEndpoint) r"
proof -
  let ?req = "\<lparr>ar_method = ''POST'', ar_path = ''/api/v1/reload'', ar_query = \<lambda>_. []\<rparr>"
  have "consistent sample_full_config"
    by (simp add: consistent_def sample_full_config_def empty_full_config_def used_entries_def
        client_is_wildcard_iff WildcardMAC_def mac_len_ok_def)
  moreover have "full_config_validate sample_full_config = None" by code_simp
  ultimately have "api_state_ok (sample_deps [])"
    using log.adds_ok [of _ "[]"] by (auto simp: api_state_ok_def sample_deps_def tables_of_def)
  moreover have "api_route ''POST'' ''/api/v1/reload'' = Endpoint ReloadEndpoint" by code_simp
  moreover obtain d w r where "api_serve sample_env sample_orders (load_dir (\<lambda>m. m) sample_unmarshal sample_fs ''etc'')
      ?req (sample_deps [], ()) = ((d, w), r)" by (metis prod.exhaust)
  ultimately show ?thesis
    using api_answers_typed [of "sample_deps []" sample_env sample_orders "\<lambda>m. m" sample_unmarshal sample_fs "''etc''" ?req]
    by auto
qed

end
