(* ===== verification/BootFile.thy ===== *)
theory BootFile
  imports TomlLoader
begin

text \<open>
  The analysis of boot loader files: \<open>internal/health/bootfile.go\<close>, on the model of the file
  system. Every index and slice of the code that could be out of range is written with \<open>at\<close> and
  \<open>slice\<close>, whose result \<^const>\<open>None\<close> is a panic. A problem carries the data of the code's message.
  The size of a directory, which depends on the file system, is an argument.
\<close>

section \<open>Reading a header\<close>

definition at :: "'a list \<Rightarrow> nat \<Rightarrow> 'a option" where
  "at xs i = (if i < length xs then Some (xs ! i) else None)"

definition slice :: "nat \<Rightarrow> nat \<Rightarrow> 'a list \<Rightarrow> 'a list option" where
  "slice i j xs = (if i \<le> j \<and> j \<le> length xs then Some (take (j - i) (drop i xs)) else None)"

definition byte_val :: "char \<Rightarrow> nat" where
  "byte_val c = of_char c"

text \<open>\<open>binary.LittleEndian\<close>; too few bytes panic.\<close>

definition uint16_le :: "string \<Rightarrow> nat option" where
  "uint16_le b =
     Option.bind (at b 1) (\<lambda>b1. map_option (\<lambda>b0. byte_val b0 + 256 * byte_val b1) (at b 0))"

definition uint32_le :: "string \<Rightarrow> nat option" where
  "uint32_le b =
     Option.bind (at b 3) (\<lambda>b3. Option.bind (at b 2) (\<lambda>b2. Option.bind (at b 1) (\<lambda>b1.
       map_option (\<lambda>b0. byte_val b0 + 256 * (byte_val b1 + 256 * (byte_val b2 + 256 * byte_val b3))) (at b 0))))"

definition pe_i386 :: nat where "pe_i386 = 0x014C"
definition pe_amd64 :: nat where "pe_amd64 = 0x8664"
definition pe_arm64 :: nat where "pe_arm64 = 0xAA64"

datatype boot_problem =
  CannotStat
| FileEmpty
| CannotReadFile
| NoPEHeader string
| PEHeaderTooShort
| PEOffsetBeyondData
| InvalidPESignature
| UnknownMachine nat
| ArchMismatch string string

record boot_file_info =
  bi_path :: string
  bi_size :: int
  bi_format :: string
  bi_arch :: string
  bi_has_ipxe :: bool
  bi_valid :: bool
  bi_problems :: "boot_problem list"

definition add_problem :: "boot_problem \<Rightarrow> boot_file_info \<Rightarrow> boot_file_info" where
  "add_problem p info = info\<lparr>bi_problems := bi_problems info @ [p]\<rparr>"

definition arch_matches :: "string \<Rightarrow> string \<Rightarrow> bool" where
  "arch_matches detected expected =
     (if expected \<in> {''x86_64'', ''uefi_x64'', ''UEFI x64''} then detected = ''x86_64''
      else if expected \<in> {''i386'', ''uefi_x86'', ''UEFI x86''} then detected = ''i386''
      else if expected \<in> {''arm64'', ''ARM64''} then detected = ''arm64''
      else if expected \<in> {''bios'', ''BIOS''} then True
      else detected = expected)"

definition hex4 :: "nat \<Rightarrow> string" where
  "hex4 n = map hex_char [n div 4096 mod 16, n div 256 mod 16, n div 16 mod 16, n mod 16]"

definition machine_arch :: "nat \<Rightarrow> string option" where
  "machine_arch machine =
     (if machine = pe_amd64 then Some ''x86_64''
      else if machine = pe_i386 then Some ''i386''
      else if machine = pe_arm64 then Some ''arm64''
      else None)"

definition check_machine :: "nat \<Rightarrow> string \<Rightarrow> boot_file_info \<Rightarrow> boot_file_info" where
  "check_machine machine expected_arch info =
     (case machine_arch machine of
        None \<Rightarrow> add_problem (UnknownMachine machine)
          (info\<lparr>bi_arch := ''unknown(0x'' @ hex4 machine @ '')''\<rparr>)
      | Some arch \<Rightarrow>
          let info = info\<lparr>bi_arch := arch, bi_valid := True\<rparr> in
          if expected_arch \<noteq> [] \<and> \<not> arch_matches arch expected_arch
          then add_problem (ArchMismatch arch expected_arch) (info\<lparr>bi_valid := False\<rparr>)
          else info)"

definition validate_pe :: "boot_file_info \<Rightarrow> string \<Rightarrow> string \<Rightarrow> boot_file_info option" where
  "validate_pe info header expected_arch =
     (if length header < 0x40 then Some (add_problem PEHeaderTooShort info)
      else
        Option.bind (Option.bind (slice 0x3C 0x40 header) uint32_le) (\<lambda>pe_offset.
        if pe_offset + 6 > length header then Some (add_problem PEOffsetBeyondData info)
        else
          Option.bind (at header pe_offset) (\<lambda>c0. Option.bind (at header (pe_offset + 1)) (\<lambda>c1.
          Option.bind (at header (pe_offset + 2)) (\<lambda>c2. Option.bind (at header (pe_offset + 3)) (\<lambda>c3.
          if c0 \<noteq> CHR ''P'' \<or> c1 \<noteq> CHR ''E'' \<or> c2 \<noteq> CHR 0x00 \<or> c3 \<noteq> CHR 0x00
          then Some (add_problem InvalidPESignature info)
          else
            Option.bind (Option.bind (slice (pe_offset + 4) (pe_offset + 6) header) uint16_le) (\<lambda>machine.
            Some (check_machine machine expected_arch info))))))))"

section \<open>The iPXE signature\<close>

definition ipxe_signatures :: "string list" where
  "ipxe_signatures = [''iPXE'', ''UNDI code segment'', ''gPXE'']"

definition matches_any_signature :: "string \<Rightarrow> bool" where
  "matches_any_signature data = list_ex (contains_str data) ipxe_signatures"

text \<open>The rest of the file after the header, in pieces; a short piece is the last one.\<close>

function scan_chunks :: "string \<Rightarrow> bool" where
  "scan_chunks rest =
     (if matches_any_signature (take 8192 rest) then True
      else if length rest < 8192 then False
      else scan_chunks (drop 8192 rest))"
  by pat_completeness auto
termination by (relation "measure length") auto

declare scan_chunks.simps [simp del]

definition scan_for_ipxe :: "string \<Rightarrow> string \<Rightarrow> bool" where
  "scan_for_ipxe data header = (if matches_any_signature header then True else scan_chunks (drop 4096 data))"

definition empty_info :: "string \<Rightarrow> boot_file_info" where
  "empty_info path = \<lparr>bi_path = path, bi_size = 0, bi_format = [], bi_arch = [], bi_has_ipxe = False,
     bi_valid = False, bi_problems = []\<rparr>"

definition inspect_header :: "boot_file_info \<Rightarrow> string \<Rightarrow> string \<Rightarrow> boot_file_info option" where
  "inspect_header info header expected_arch =
     (if has_prefix header ''MZ'' then validate_pe (info\<lparr>bi_format := ''PE/EFI''\<rparr>) header expected_arch
      else
        let info = info\<lparr>bi_format := ''PXE/BIOS''\<rparr> in
        Some (if expected_arch = ''bios'' then info\<lparr>bi_valid := True\<rparr>
              else add_problem (NoPEHeader expected_arch) info))"

definition validate_boot_file :: "int \<Rightarrow> file_system \<Rightarrow> string \<Rightarrow> string \<Rightarrow> boot_file_info option" where
  "validate_boot_file dir_size fs path expected_arch =
     (case fs_lookup fs path of
        None \<Rightarrow> Some (add_problem CannotStat (empty_info path))
      | Some DirNode \<Rightarrow>
          let info = (empty_info path)\<lparr>bi_size := dir_size\<rparr>
          in Some (add_problem (if dir_size = 0 then FileEmpty else CannotReadFile) info)
      | Some (FileNode data) \<Rightarrow>
          let info = (empty_info path)\<lparr>bi_size := int (length data)\<rparr> in
          if data = [] then Some (add_problem FileEmpty info)
          else
            let header = take 4096 data
            in map_option (\<lambda>info. info\<lparr>bi_has_ipxe := scan_for_ipxe data header\<rparr>)
                 (inspect_header info header expected_arch))"

section \<open>What makes a file valid\<close>

text \<open>The machine type in a header that has the structure of a PE file.\<close>

definition le16 :: "string \<Rightarrow> nat" where
  "le16 b = byte_val (b ! 0) + 256 * byte_val (b ! 1)"

definition pe_machine :: "string \<Rightarrow> nat option" where
  "pe_machine header =
     (if length header < 0x40 then None
      else
        let pe = drop (le16 (drop 0x3C header) + 65536 * le16 (drop 0x3E header)) header in
        if 6 \<le> length pe \<and> take 4 pe = [CHR ''P'', CHR ''E'', CHR 0x00, CHR 0x00] then Some (le16 (drop 4 pe)) else None)"

lemma at_Some [simp]: "i < length xs \<Longrightarrow> at xs i = Some (xs ! i)"
  by (simp add: at_def)

lemma slice_Some [simp]: "i \<le> j \<Longrightarrow> j \<le> length xs \<Longrightarrow> slice i j xs = Some (take (j - i) (drop i xs))"
  by (simp add: slice_def)

lemma check_machine_valid:
  assumes "\<not> bi_valid info" and "bi_problems info = []"
  shows "bi_valid (check_machine machine expected info) \<longleftrightarrow>
      (case machine_arch machine of None \<Rightarrow> False | Some arch \<Rightarrow> expected = [] \<or> arch_matches arch expected)"
    and "bi_valid (check_machine machine expected info) \<longleftrightarrow> bi_problems (check_machine machine expected info) = []"
  using assms by (auto simp: check_machine_def add_problem_def Let_def split: option.split)

lemma take_4_eq: "4 \<le> length xs \<Longrightarrow> take 4 xs = [a, b, c, d] \<longleftrightarrow> xs ! 0 = a \<and> xs ! 1 = b \<and> xs ! 2 = c \<and> xs ! 3 = d"
  by (cases xs rule: list.exhaust [case_names _ Cons]; (simp add: numeral_eq_Suc)?)
     (auto simp: Suc_le_length_iff numeral_eq_Suc)

lemma validate_pe_eq:
  "validate_pe info header expected =
     Some (case pe_machine header of
         Some machine \<Rightarrow> check_machine machine expected info
       | None \<Rightarrow> add_problem
           (if length header < 0x40 then PEHeaderTooShort
            else if le16 (drop 0x3C header) + 65536 * le16 (drop 0x3E header) + 6 > length header then PEOffsetBeyondData
            else InvalidPESignature) info)"
proof (cases "length header < 0x40")
  case True
  then show ?thesis by (simp add: validate_pe_def pe_machine_def)
next
  case len: False
  let ?off = "le16 (drop 0x3C header) + 65536 * le16 (drop 0x3E header)"
  have off: "Option.bind (slice 0x3C 0x40 header) uint32_le = Some ?off"
    using len by (simp add: uint32_le_def le16_def)
  show ?thesis
  proof (cases "?off + 6 > length header")
    case True
    then have "\<not> 6 \<le> length (drop ?off header)" by simp
    with len have "pe_machine header = None" unfolding pe_machine_def Let_def by simp
    with len off True show ?thesis by (simp add: validate_pe_def)
  next
    case False
    define off where "off = ?off"
    have fits: "off + 6 \<le> length header" using False by (simp add: off_def)
    have start: "Option.bind (slice 0x3C 0x40 header) uint32_le = Some off" using off by (simp add: off_def)
    have at: "at header off = Some (header ! off)" "at header (off + 1) = Some (header ! (off + 1))"
        "at header (off + 2) = Some (header ! (off + 2))" "at header (off + 3) = Some (header ! (off + 3))"
      using fits by simp_all
    have machine: "Option.bind (slice (off + 4) (off + 6) header) uint16_le = Some (le16 (drop 4 (drop off header)))"
      using fits by (simp add: uint16_le_def le16_def add.commute)
    have sig: "take 4 (drop off header) = [CHR ''P'', CHR ''E'', CHR 0x00, CHR 0x00] \<longleftrightarrow>
        \<not> (header ! off \<noteq> CHR ''P'' \<or> header ! (off + 1) \<noteq> CHR ''E'' \<or>
           header ! (off + 2) \<noteq> CHR 0x00 \<or> header ! (off + 3) \<noteq> CHR 0x00)"
      using fits by (subst take_4_eq) auto
    have "pe_machine header =
        (if take 4 (drop off header) = [CHR ''P'', CHR ''E'', CHR 0x00, CHR 0x00] then Some (le16 (drop 4 (drop off header))) else None)"
      using len fits by (simp add: pe_machine_def Let_def flip: off_def)
    moreover have "validate_pe info header expected =
        (if take 4 (drop off header) = [CHR ''P'', CHR ''E'', CHR 0x00, CHR 0x00]
         then Some (check_machine (le16 (drop 4 (drop off header))) expected info)
         else Some (add_problem InvalidPESignature info))"
      unfolding validate_pe_def start bind.bind_lunit at machine sig using len fits by simp
    ultimately show ?thesis using len fits by (simp flip: off_def)
  qed
qed

lemma inspect_header_valid:
  assumes "\<not> bi_valid info" and "bi_problems info = []"
  shows "\<exists>info'. inspect_header info header expected = Some info' \<and>
    (bi_valid info' \<longleftrightarrow>
      (if has_prefix header ''MZ''
       then (case Option.bind (pe_machine header) machine_arch of None \<Rightarrow> False | Some arch \<Rightarrow> expected = [] \<or> arch_matches arch expected)
       else expected = ''bios'')) \<and>
    (bi_valid info' \<longleftrightarrow> bi_problems info' = [])"
proof (cases "has_prefix header ''MZ''")
  case True
  let ?info = "info\<lparr>bi_format := ''PE/EFI''\<rparr>"
  have "\<not> bi_valid ?info" "bi_problems ?info = []" using assms by simp_all
  note valid = check_machine_valid [OF this]
  show ?thesis
    using True assms valid
    by (cases "pe_machine header") (simp_all add: inspect_header_def validate_pe_eq add_problem_def)
next
  case False
  then show ?thesis using assms by (simp add: inspect_header_def Let_def add_problem_def)
qed

lemma validate_boot_file_total: "validate_boot_file dir_size fs path expected \<noteq> None"
proof -
  have "inspect_header ((empty_info path)\<lparr>bi_size := n\<rparr>) header expected \<noteq> None" for n header
    using inspect_header_valid [of "(empty_info path)\<lparr>bi_size := n\<rparr>" header expected] by (auto simp: empty_info_def)
  then show ?thesis
    by (auto simp: validate_boot_file_def Let_def split: option.split fs_node.split)
qed

section \<open>Properties\<close>

text \<open>C18 (boot_file_valid_iff). The analysis never reads out of range, whatever the file holds. A file is
  valid exactly where it has no problem: it is not empty, and it is a PE file whose machine
  type is known and fits the expected architecture, or no PE file at all where a
  BIOS image is expected. For BIOS any PE file fits as well.\<close>

theorem boot_file_valid_iff:
  "\<exists>info. validate_boot_file dir_size fs path expected = Some info \<and>
     (bi_valid info \<longleftrightarrow> bi_problems info = []) \<and>
     (bi_valid info \<longleftrightarrow>
       (case fs_lookup fs path of
          Some (FileNode data) \<Rightarrow> data \<noteq> [] \<and>
            (if has_prefix data ''MZ''
             then (case Option.bind (pe_machine (take 4096 data)) machine_arch of
                     None \<Rightarrow> False | Some arch \<Rightarrow> expected \<in> {[], ''bios'', ''BIOS''} \<or> arch_matches arch expected)
             else expected = ''bios'')
        | _ \<Rightarrow> False))"
proof (cases "fs_lookup fs path")
  case None
  then show ?thesis by (simp add: validate_boot_file_def add_problem_def empty_info_def)
next
  case (Some node)
  have bios: "arch_matches arch ''bios''" "arch_matches arch ''BIOS''" for arch by (simp_all add: arch_matches_def)
  show ?thesis
  proof (cases node)
    case DirNode
    with Some show ?thesis by (simp add: validate_boot_file_def add_problem_def empty_info_def Let_def)
  next
    case (FileNode data)
    show ?thesis
    proof (cases "data = []")
      case True
      with Some FileNode show ?thesis by (simp add: validate_boot_file_def add_problem_def empty_info_def Let_def)
    next
      case False
      let ?info = "(empty_info path)\<lparr>bi_size := int (length data)\<rparr>"
      have fresh: "\<not> bi_valid ?info" "bi_problems ?info = []" by (simp_all add: empty_info_def)
      have mz: "has_prefix (take 4096 data) ''MZ'' = has_prefix data ''MZ''"
        by (cases data rule: list.exhaust; cases "tl data") (auto simp: has_prefix_def)
      from inspect_header_valid [OF fresh, of "take 4096 data" expected] obtain info' where info':
        "inspect_header ?info (take 4096 data) expected = Some info'"
        "bi_valid info' \<longleftrightarrow>
          (if has_prefix data ''MZ''
           then (case Option.bind (pe_machine (take 4096 data)) machine_arch of None \<Rightarrow> False | Some arch \<Rightarrow> expected = [] \<or> arch_matches arch expected)
           else expected = ''bios'')"
        "bi_valid info' \<longleftrightarrow> bi_problems info' = []"
        unfolding mz by blast
      have "bi_valid info' \<longleftrightarrow>
          (if has_prefix data ''MZ''
           then (case Option.bind (pe_machine (take 4096 data)) machine_arch of
                   None \<Rightarrow> False | Some arch \<Rightarrow> expected \<in> {[], ''bios'', ''BIOS''} \<or> arch_matches arch expected)
           else expected = ''bios'')"
        unfolding info'(2) using bios by (auto split: option.split)
      with False Some FileNode info'(1,3) show ?thesis
        by (simp add: validate_boot_file_def Let_def)
    qed
  qed
qed

lemma scan_chunks_iff:
  "scan_chunks rest \<longleftrightarrow> (\<exists>k. matches_any_signature (take 8192 (drop (8192 * k) rest)))"
proof (induction rest rule: scan_chunks.induct)
  case (1 rest)
  show ?case
  proof (cases "matches_any_signature (take 8192 rest)")
    case True
    then have "matches_any_signature (take 8192 (drop (8192 * 0) rest))" by simp
    moreover have "scan_chunks rest" using True by (subst scan_chunks.simps) simp
    ultimately show ?thesis by blast
  next
    case no: False
    have none: "\<not> matches_any_signature []"
      by (simp add: matches_any_signature_def ipxe_signatures_def)
    show ?thesis
    proof (cases "length rest < 8192")
      case True
      have "\<not> matches_any_signature (take 8192 (drop (8192 * k) rest))" for k
      proof (cases k)
        case 0
        then show ?thesis using no by simp
      next
        case (Suc j)
        then have "take 8192 (drop (8192 * k) rest) = []" using True by simp
        then show ?thesis using none by metis
      qed
      then show ?thesis using True no by (subst scan_chunks.simps) simp
    next
      case False
      have shift: "drop (8192 * k) (drop 8192 rest) = drop (8192 * Suc k) rest" for k by (simp add: add.commute)
      have "scan_chunks rest \<longleftrightarrow> scan_chunks (drop 8192 rest)"
        using no False by (subst scan_chunks.simps) simp
      also have "\<dots> \<longleftrightarrow> (\<exists>k. matches_any_signature (take 8192 (drop (8192 * Suc k) rest)))"
        unfolding 1(1) [OF no False] shift ..
      also have "\<dots> \<longleftrightarrow> (\<exists>k. matches_any_signature (take 8192 (drop (8192 * k) rest)))"
      proof
        assume "\<exists>k. matches_any_signature (take 8192 (drop (8192 * k) rest))"
        then obtain k where k: "matches_any_signature (take 8192 (drop (8192 * k) rest))" ..
        with no obtain j where "k = Suc j" by (cases k) auto
        with k show "\<exists>k. matches_any_signature (take 8192 (drop (8192 * Suc k) rest))" by blast
      qed blast
      finally show ?thesis .
    qed
  qed
qed

lemma contains_str_set: "contains_str s sub \<Longrightarrow> set sub \<subseteq> set s"
  by (auto simp: contains_str_iff)

lemma contains_str_length: "contains_str s sub \<Longrightarrow> length sub \<le> length s"
  by (auto simp: contains_str_iff)

lemma contains_take_drop: "contains_str (take n (drop m s)) sub \<Longrightarrow> contains_str s sub"
proof -
  assume "contains_str (take n (drop m s)) sub"
  then obtain a b where ab: "take n (drop m s) = a @ sub @ b" by (auto simp: contains_str_iff)
  have "s = take m s @ take n (drop m s) @ drop n (drop m s)" by (simp only: append_take_drop_id)
  then have "s = (take m s @ a) @ sub @ (b @ drop n (drop m s))" unfolding ab by simp
  then show ?thesis unfolding contains_str_iff by blast
qed

text \<open>A file with the signature across the end of the first piece.\<close>

definition straddling :: string where
  "straddling = replicate 4094 (CHR ''x'') @ ''iPXE''"

lemma straddling_parts: "take 4096 straddling = replicate 4094 (CHR ''x'') @ ''iP''" "drop 4096 straddling = ''XE''"
  by (simp_all add: straddling_def)

text \<open>The signature is found exactly where it lies within the first 4096 bytes or within
  one of the pieces of 8192 bytes after them; so what is found is in the file, but a signature across the border
  of two pieces is not found.\<close>

lemma ipxe_scan_spec:
  "(scan_for_ipxe data (take 4096 data) \<longleftrightarrow>
     matches_any_signature (take 4096 data) \<or>
     (\<exists>k. matches_any_signature (take 8192 (drop (4096 + 8192 * k) data)))) \<and>
   scan_for_ipxe data (take 4096 data) \<le> matches_any_signature data \<and>
   matches_any_signature straddling \<and> \<not> scan_for_ipxe straddling (take 4096 straddling)"
proof (intro conjI)
  show scan: "scan_for_ipxe data (take 4096 data) \<longleftrightarrow>
     matches_any_signature (take 4096 data) \<or>
     (\<exists>k. matches_any_signature (take 8192 (drop (4096 + 8192 * k) data)))"
    by (auto simp: scan_for_ipxe_def scan_chunks_iff add.commute)
  have "matches_any_signature (take n (drop m data)) \<Longrightarrow> matches_any_signature data" for n m
    unfolding matches_any_signature_def list_ex_iff using contains_take_drop by blast
  from this [of _ 0] this show "scan_for_ipxe data (take 4096 data) \<le> matches_any_signature data"
    unfolding scan le_bool_def by (metis drop0)
  have "contains_str straddling ''iPXE''" unfolding contains_str_iff straddling_def by (metis append_Nil2)
  then show "matches_any_signature straddling" by (simp add: matches_any_signature_def ipxe_signatures_def)
  have chars: "set (take 4096 straddling) \<subseteq> {CHR ''x'', CHR ''i'', CHR ''P''}"
    unfolding straddling_parts by (auto dest: in_set_replicate [THEN iffD1])
  have "\<not> contains_str (take 4096 straddling) sig" if "sig \<in> set ipxe_signatures" for sig
  proof
    assume "contains_str (take 4096 straddling) sig"
    then have "set sig \<subseteq> {CHR ''x'', CHR ''i'', CHR ''P''}" using chars contains_str_set by blast
    with that show False by (auto simp: ipxe_signatures_def)
  qed
  then have "\<not> matches_any_signature (take 4096 straddling)"
    by (auto simp: matches_any_signature_def list_ex_iff)
  moreover have "\<not> scan_chunks ''XE''"
    by (subst scan_chunks.simps) (simp add: matches_any_signature_def ipxe_signatures_def)
  ultimately show "\<not> scan_for_ipxe straddling (take 4096 straddling)"
    by (simp add: scan_for_ipxe_def straddling_parts(2))
qed

end
