(* ===== verification/Preflight.thy ===== *)
theory Preflight
  imports BootFile Health NetIP
begin

text \<open>
  The pre-flight checks: \<open>internal/health/preflight.go\<close>. What the checks ask of the system is the record
  \<open>pf_env\<close>: the file system with \<open>/proc\<close>, links, the network interfaces, whether a port can be bound
  (otherwise the error and whether it is one of permission), and the answers of the probe for other PXE
  servers. Waiting is left out.
\<close>

section \<open>The system\<close>

record pf_env =
  pe_fs :: file_system
  pe_dir_size :: int
  pe_link :: "string \<Rightarrow> string option"
  pe_iface :: "string \<Rightarrow> string + (bool \<times> ip option list)"
  pe_bind_udp :: "int \<Rightarrow> (string \<times> bool) option"
  pe_bind_tcp :: "int \<Rightarrow> (string \<times> bool) option"
  pe_pxe_servers :: "string \<Rightarrow> string + (ip \<times> string) list"

record preflight_result =
  pr_name :: string
  pr_status :: check_status
  pr_message :: string

section \<open>Network interface\<close>

text \<open>The first address that is an IP network with an IPv4 form.\<close>

fun first_ipv4 :: "ip option list \<Rightarrow> string" where
  "first_ipv4 [] = []"
| "first_ipv4 (None # addrs) = first_ipv4 addrs"
| "first_ipv4 (Some ip # addrs) = (if ip_to4 ip \<noteq> None then ip_string ip else first_ipv4 addrs)"

definition check_interface :: "pf_env \<Rightarrow> string \<Rightarrow> preflight_result" where
  "check_interface env name =
     (case pe_iface env name of
        Inl err \<Rightarrow> \<lparr>pr_name = ''interface'', pr_status = StatusFail,
          pr_message = ''interface '' @ name @ '': '' @ err\<rparr>
      | Inr (up, addrs) \<Rightarrow>
          if \<not> up then \<lparr>pr_name = ''interface'', pr_status = StatusFail,
            pr_message = ''interface '' @ name @ '' exists but is DOWN''\<rparr>
          else \<lparr>pr_name = ''interface'', pr_status = StatusOK,
            pr_message = ''interface '' @ name @ '' (UP, '' @ first_ipv4 addrs @ '')''\<rparr>)"

section \<open>Ports\<close>

definition upper_hex_char :: "nat \<Rightarrow> char" where
  "upper_hex_char n = ''0123456789ABCDEF'' ! n"

fun upper_hex :: "nat \<Rightarrow> string" where
  "upper_hex n = (if n < 16 then [upper_hex_char n] else upper_hex (n div 16) @ [upper_hex_char (n mod 16)])"

declare upper_hex.simps [simp del]

definition pad_zeros :: "nat \<Rightarrow> string \<Rightarrow> string" where
  "pad_zeros n s = replicate (n - length s) (CHR ''0'') @ s"

text \<open>The verb \<open>%04X\<close>; the sign counts for the width.\<close>

definition hex_port :: "int \<Rightarrow> string" where
  "hex_port p = (if p < 0 then CHR ''-'' # pad_zeros 3 (upper_hex (nat (- p))) else pad_zeros 4 (upper_hex (nat p)))"

text \<open>\<open>strings.Fields\<close>, \<open>strconv.ParseUint(s, 16, 32)\<close>.\<close>

definition fields :: "string \<Rightarrow> string list" where
  "fields s = filter (\<lambda>f. f \<noteq> []) (split_char (CHR '' '') (map (\<lambda>c. if space_char c then CHR '' '' else c) s))"

fun hex_digits_value :: "nat \<Rightarrow> string \<Rightarrow> nat option" where
  "hex_digits_value n [] = Some n"
| "hex_digits_value n (c # cs) =
     (case hex_val c of
        None \<Rightarrow> None
      | Some d \<Rightarrow> if 16 * n + d < 4294967296 then hex_digits_value (16 * n + d) cs else None)"

definition parse_uint_hex32 :: "string \<Rightarrow> nat option" where
  "parse_uint_hex32 s = (if s = [] then None else hex_digits_value 0 s)"

definition parse_hex_ipv4 :: "string \<Rightarrow> string" where
  "parse_hex_ipv4 hex_ip =
     (case parse_uint_hex32 hex_ip of
        None \<Rightarrow> hex_ip
      | Some val \<Rightarrow> joined ''.'' (map (\<lambda>i. dec_of_nat (val div 256 ^ i mod 256)) [0, 1, 2, 3]))"

definition is_pid :: "string \<times> bool \<Rightarrow> bool" where
  "is_pid entry \<longleftrightarrow> snd entry \<and> fst entry \<noteq> [] \<and>
     CHR ''0'' \<le> hd (fst entry) \<and> hd (fst entry) \<le> CHR ''9''"

definition socket_process :: "pf_env \<Rightarrow> string \<Rightarrow> string \<Rightarrow> string option" where
  "socket_process env target pid =
     (let fd_dir = path_join [''/proc'', pid, ''fd''] in
      case os_read_dir (pe_fs env) fd_dir of
        None \<Rightarrow> None
      | Some fds \<Rightarrow>
          if list_ex (\<lambda>(fd, _). pe_link env (path_join [fd_dir, fd]) = Some target) fds
          then Some (case os_read_file (pe_fs env) (path_join [''/proc'', pid, ''comm'']) of
              Some comm \<Rightarrow> trim_space comm | None \<Rightarrow> ''pid '' @ pid)
          else None)"

fun first_process :: "pf_env \<Rightarrow> string \<Rightarrow> (string \<times> bool) list \<Rightarrow> string" where
  "first_process env target [] = []"
| "first_process env target (entry # procs) =
     (if \<not> is_pid entry then first_process env target procs
      else case socket_process env target (fst entry) of
        Some name \<Rightarrow> name
      | None \<Rightarrow> first_process env target procs)"

definition find_process_by_socket_inode :: "pf_env \<Rightarrow> string \<Rightarrow> string" where
  "find_process_by_socket_inode env inode =
     (if inode = ''0'' then []
      else case os_read_dir (pe_fs env) ''/proc'' of
        None \<Rightarrow> []
      | Some procs \<Rightarrow> first_process env (''socket:['' @ inode @ '']'') procs)"

definition line_listener :: "pf_env \<Rightarrow> string \<Rightarrow> string \<Rightarrow> string option" where
  "line_listener env port_hex line =
     (let fs = fields line in
      if length fs < 10 then None
      else
        let parts = split_char (CHR '':'') (fs ! 1) in
        if length parts \<noteq> 2 \<or> parts ! 1 \<noteq> port_hex then None
        else
          let ip = parse_hex_ipv4 (parts ! 0);
              proc_name = find_process_by_socket_inode env (fs ! 9)
          in Some (if proc_name \<noteq> [] then proc_name @ '' ('' @ ip @ '')'' else ip))"

definition find_proc_net_listeners :: "pf_env \<Rightarrow> string \<Rightarrow> int \<Rightarrow> string list" where
  "find_proc_net_listeners env proc_file port =
     (case os_read_file (pe_fs env) proc_file of
        None \<Rightarrow> []
      | Some data \<Rightarrow> List.map_filter (line_listener env (hex_port port)) (split_char (CHR 0x0A) data))"

definition check_port ::
  "string \<Rightarrow> string list \<Rightarrow> (string \<times> bool) option \<Rightarrow> int \<Rightarrow> preflight_result" where
  "check_port proto listeners bind_error port =
     (let name = ''port '' @ dec_of_int port @ ''/'' @ proto in
      if listeners \<noteq> [] then
        \<lparr>pr_name = name, pr_status = StatusFail, pr_message = name @ '' in use by: '' @ joined '', '' listeners\<rparr>
      else case bind_error of
        Some (err, permission) \<Rightarrow>
          \<lparr>pr_name = name, pr_status = StatusFail,
           pr_message = (if permission \<or> contains_str err ''permission denied''
             then name @ '': permission denied (root or CAP_NET_BIND_SERVICE required)''
             else name @ '': '' @ err)\<rparr>
      | None \<Rightarrow> \<lparr>pr_name = name, pr_status = StatusOK, pr_message = name @ '' available''\<rparr>)"

definition check_udp_port :: "pf_env \<Rightarrow> int \<Rightarrow> preflight_result" where
  "check_udp_port env port =
     check_port ''udp'' (find_proc_net_listeners env ''/proc/net/udp'' port) (pe_bind_udp env port) port"

definition check_tcp_port :: "pf_env \<Rightarrow> int \<Rightarrow> preflight_result" where
  "check_tcp_port env port =
     check_port ''tcp'' (find_proc_net_listeners env ''/proc/net/tcp'' port) (pe_bind_tcp env port) port"

section \<open>Files\<close>

fun problem_text :: "string \<Rightarrow> boot_problem \<Rightarrow> string" where
  "problem_text path CannotStat = ''cannot read: stat '' @ path @ '': no such file or directory''"
| "problem_text path FileEmpty = ''file is empty''"
| "problem_text path CannotReadFile = ''cannot read: read '' @ path @ '': is a directory''"
| "problem_text path (NoPEHeader arch) = ''expected EFI binary for '' @ arch @ '', but file has no PE/MZ header''"
| "problem_text path PEHeaderTooShort = ''PE header too short''"
| "problem_text path PEOffsetBeyondData = ''PE offset beyond file data''"
| "problem_text path InvalidPESignature = ''invalid PE signature''"
| "problem_text path (UnknownMachine m) = ''unknown PE machine type: 0x'' @ pad_zeros 4 (upper_hex m)"
| "problem_text path (ArchMismatch a e) = ''architecture mismatch: file is '' @ a @ '', expected '' @ e"

definition report_boot_file :: "string \<Rightarrow> boot_file_info \<Rightarrow> preflight_result" where
  "report_boot_file label info =
     (let name = ''bootloader/'' @ label in
      case bi_problems info of
        p # _ \<Rightarrow> \<lparr>pr_name = name, pr_status = StatusFail,
          pr_message = label @ '': '' @ problem_text (bi_path info) p\<rparr>
      | [] \<Rightarrow>
          let msg = label @ '': '' @ bi_format info @ '' '' @ bi_arch info @ '' ('' @ dec_of_int (bi_size info) @ '' bytes)''
          in if bi_has_ipxe info then \<lparr>pr_name = name, pr_status = StatusOK, pr_message = msg @ '', iPXE''\<rparr>
             else \<lparr>pr_name = name, pr_status = StatusWarn, pr_message = msg @ '' (no iPXE signature found)''\<rparr>)"

text \<open>A panic of the analysis, which \<open>validate_boot_file_total\<close> excludes, would be \<^const>\<open>None\<close>.\<close>

definition check_boot_file :: "pf_env \<Rightarrow> string \<Rightarrow> string \<Rightarrow> string \<Rightarrow> preflight_result option" where
  "check_boot_file env label path expected_arch =
     (if fs_lookup (pe_fs env) path = None then
        Some \<lparr>pr_name = ''bootloader/'' @ label, pr_status = StatusFail,
          pr_message = label @ '': file not found at '' @ path\<rparr>
      else map_option (report_boot_file label) (validate_boot_file (pe_dir_size env) (pe_fs env) path expected_arch))"

definition check_data_dir :: "pf_env \<Rightarrow> string \<Rightarrow> preflight_result" where
  "check_data_dir env path =
     (case fs_lookup (pe_fs env) path of
        None \<Rightarrow> \<lparr>pr_name = ''data_dir'', pr_status = StatusFail,
          pr_message = ''data directory '' @ path @ '': stat '' @ path @ '': no such file or directory''\<rparr>
      | Some (FileNode _) \<Rightarrow> \<lparr>pr_name = ''data_dir'', pr_status = StatusFail,
          pr_message = ''data directory '' @ path @ '': not a directory''\<rparr>
      | Some DirNode \<Rightarrow> \<lparr>pr_name = ''data_dir'', pr_status = StatusOK,
          pr_message = ''data directory '' @ path @ '' readable''\<rparr>)"

section \<open>Other servers\<close>

definition check_pxe_conflict :: "pf_env \<Rightarrow> string \<Rightarrow> preflight_result" where
  "check_pxe_conflict env iface =
     (case pe_pxe_servers env iface of
        Inl err \<Rightarrow> \<lparr>pr_name = ''pxe_conflict'', pr_status = StatusWarn,
          pr_message = ''PXE conflict check skipped: '' @ err\<rparr>
      | Inr results \<Rightarrow>
          if results = [] then \<lparr>pr_name = ''pxe_conflict'', pr_status = StatusOK,
            pr_message = ''no competing PXE servers detected''\<rparr>
          else \<lparr>pr_name = ''pxe_conflict'', pr_status = StatusWarn,
            pr_message = dec_of_nat (length results) @ '' competing PXE server(s) detected:'' @
              concat (map (\<lambda>(ip, file). '' '' @ ip_string ip @
                (if file \<noteq> [] then '' (file='' @ file @ '')'' else [])) results)\<rparr>)"

section \<open>All checks\<close>

definition bootloader_files :: "bootloader_config \<Rightarrow> (string \<times> string \<times> string) list" where
  "bootloader_files bl =
     [(''UEFI x64'', bl_uefix64 bl, ''x86_64''), (''UEFI x86'', bl_uefix86 bl, ''i386''),
      (''BIOS'', bl_bios bl, ''bios''), (''ARM64'', bl_arm64 bl, ''arm64'')]"

definition run_preflight :: "pf_env \<Rightarrow> full_config \<Rightarrow> (preflight_result list \<times> bool) option" where
  "run_preflight env cfg =
     (let dir = path_join [sc_data_dir (fc_server cfg), bl_dir (fc_bootloader cfg)];
          ports =
            (if dp_enabled (fc_dhcp_proxy cfg)
             then [check_udp_port env (dp_port (fc_dhcp_proxy cfg)), check_udp_port env (dp_proxy_port (fc_dhcp_proxy cfg))]
             else []) @
            (if tc_enabled (fc_tftp cfg) then [check_udp_port env (tc_port (fc_tftp cfg))] else []) @
            (if hc_enabled (fc_http cfg) then [check_tcp_port env (hc_port (fc_http cfg))] else [])
      in map_option (\<lambda>files.
           let results = check_interface env (sc_interface (fc_server cfg)) # ports @ files @
                 [check_data_dir env (sc_data_dir (fc_server cfg))] @
                 (if dp_enabled (fc_dhcp_proxy cfg)
                  then [check_pxe_conflict env (sc_interface (fc_server cfg))] else [])
           in (results, list_all (\<lambda>r. pr_status r \<noteq> StatusFail) results))
         (those (map (\<lambda>(label, file, arch). check_boot_file env label (path_join [dir, file]) arch)
            (filter (\<lambda>(_, file, _). file \<noteq> []) (bootloader_files (fc_bootloader cfg))))))"

section \<open>When the checks pass\<close>

definition interface_up :: "pf_env \<Rightarrow> string \<Rightarrow> bool" where
  "interface_up env name = (case pe_iface env name of Inl _ \<Rightarrow> False | Inr (up, _) \<Rightarrow> up)"

text \<open>A line of a table of sockets with a local address that has this port. The state of the
  socket is the fourth field, and does not matter.\<close>

definition socket_on_port :: "int \<Rightarrow> string \<Rightarrow> bool" where
  "socket_on_port port line \<longleftrightarrow>
     10 \<le> length (fields line) \<and> (\<exists>addr. fields line ! 1 = addr @ '':'' @ hex_port port \<and> CHR '':'' \<notin> set addr)"

definition port_listed :: "pf_env \<Rightarrow> string \<Rightarrow> int \<Rightarrow> bool" where
  "port_listed env proc_file port \<longleftrightarrow>
     (\<exists>data. os_read_file (pe_fs env) proc_file = Some data \<and> list_ex (socket_on_port port) (split_char (CHR 0x0A) data))"

definition udp_free :: "pf_env \<Rightarrow> int \<Rightarrow> bool" where
  "udp_free env port \<longleftrightarrow> \<not> port_listed env ''/proc/net/udp'' port \<and> pe_bind_udp env port = None"

definition tcp_free :: "pf_env \<Rightarrow> int \<Rightarrow> bool" where
  "tcp_free env port \<longleftrightarrow> \<not> port_listed env ''/proc/net/tcp'' port \<and> pe_bind_tcp env port = None"

definition boot_file_fine :: "pf_env \<Rightarrow> string \<Rightarrow> string \<Rightarrow> bool" where
  "boot_file_fine env path arch =
     (case validate_boot_file (pe_dir_size env) (pe_fs env) path arch of
        None \<Rightarrow> False | Some info \<Rightarrow> bi_problems info = [])"

definition udp_ports :: "full_config \<Rightarrow> int list" where
  "udp_ports cfg =
     (if dp_enabled (fc_dhcp_proxy cfg) then [dp_port (fc_dhcp_proxy cfg), dp_proxy_port (fc_dhcp_proxy cfg)] else []) @
     (if tc_enabled (fc_tftp cfg) then [tc_port (fc_tftp cfg)] else [])"

definition tcp_ports :: "full_config \<Rightarrow> int list" where
  "tcp_ports cfg = (if hc_enabled (fc_http cfg) then [hc_port (fc_http cfg)] else [])"

definition configured_files :: "full_config \<Rightarrow> (string \<times> string \<times> string) list" where
  "configured_files cfg =
     map (\<lambda>(label, file, arch).
         (label, path_join [path_join [sc_data_dir (fc_server cfg), bl_dir (fc_bootloader cfg)], file], arch))
       (filter (\<lambda>(_, file, _). file \<noteq> []) (bootloader_files (fc_bootloader cfg)))"

lemma check_interface_status: "pr_status (check_interface env name) \<noteq> StatusFail \<longleftrightarrow> interface_up env name"
  by (auto simp: check_interface_def interface_up_def split: sum.split)

lemma check_port_status:
  "pr_status (check_port proto listeners bind_error port) \<noteq> StatusFail \<longleftrightarrow> listeners = [] \<and> bind_error = None"
  by (auto simp: check_port_def Let_def split: option.split)

lemma upper_hex_plain: "CHR '':'' \<notin> set (upper_hex n)"
proof (induction n rule: upper_hex.induct)
  case (1 n)
  have "CHR '':'' \<noteq> upper_hex_char k" if "k < 16" for k
    using that unfolding all_lt_16 by (auto simp: upper_hex_char_def)
  with 1 show ?case by (subst upper_hex.simps) simp
qed

lemma hex_port_plain: "CHR '':'' \<notin> set (hex_port port)"
  using upper_hex_plain by (auto simp: hex_port_def pad_zeros_def)

lemma split_char_two:
  assumes "c \<notin> set b"
  shows "length (split_char c s) = 2 \<and> split_char c s ! 1 = b \<longleftrightarrow> (\<exists>a. s = a @ c # b \<and> c \<notin> set a)"
proof
  assume "length (split_char c s) = 2 \<and> split_char c s ! 1 = b"
  then obtain a where split: "split_char c s = [a, b]" by (auto simp: length_Suc_conv numeral_2_eq_2)
  then have "c \<notin> set a" using split_char_chars [of a c s] by simp
  with split split_char_joined [of c s] show "\<exists>a. s = a @ c # b \<and> c \<notin> set a" by auto
qed (use assms in \<open>auto simp: split_char_append split_char_plain\<close>)

lemma line_listener_iff: "line_listener env (hex_port port) line = None \<longleftrightarrow> \<not> socket_on_port port line"
  using split_char_two [OF hex_port_plain [of port], of "fields line ! 1"]
  by (auto simp: line_listener_def socket_on_port_def Let_def)

lemma listeners_iff: "find_proc_net_listeners env proc_file port = [] \<longleftrightarrow> \<not> port_listed env proc_file port"
  by (auto simp: find_proc_net_listeners_def port_listed_def List.map_filter_def filter_empty_conv line_listener_iff
      list_ex_iff split: option.split)

lemma check_ports_status:
  "pr_status (check_udp_port env port) \<noteq> StatusFail \<longleftrightarrow> udp_free env port"
  "pr_status (check_tcp_port env port) \<noteq> StatusFail \<longleftrightarrow> tcp_free env port"
  by (simp_all add: check_udp_port_def check_tcp_port_def check_port_status listeners_iff udp_free_def tcp_free_def)

lemma check_data_dir_status:
  "pr_status (check_data_dir env path) \<noteq> StatusFail \<longleftrightarrow> fs_lookup (pe_fs env) path = Some DirNode"
  by (auto simp: check_data_dir_def split: option.split fs_node.split)

lemma check_pxe_conflict_status: "pr_status (check_pxe_conflict env iface) \<noteq> StatusFail"
  by (auto simp: check_pxe_conflict_def split: sum.split)

lemma check_boot_file_status:
  obtains r where "check_boot_file env label path arch = Some r"
    "pr_status r \<noteq> StatusFail \<longleftrightarrow> boot_file_fine env path arch"
proof (cases "fs_lookup (pe_fs env) path")
  case None
  then show ?thesis
    by (intro that) (auto simp: check_boot_file_def boot_file_fine_def validate_boot_file_def add_problem_def)
next
  case (Some node)
  obtain info where info: "validate_boot_file (pe_dir_size env) (pe_fs env) path arch = Some info"
    using validate_boot_file_total by fast
  have "pr_status (report_boot_file label info) \<noteq> StatusFail \<longleftrightarrow> bi_problems info = []"
    by (auto simp: report_boot_file_def Let_def split: list.split)
  with Some info show ?thesis
    by (intro that) (auto simp: check_boot_file_def boot_file_fine_def)
qed

lemma check_files_status:
  "\<exists>rs. those (map (\<lambda>(label, path, arch). check_boot_file env label path arch) files) = Some rs \<and>
     (list_all (\<lambda>r. pr_status r \<noteq> StatusFail) rs \<longleftrightarrow> list_all (\<lambda>(_, path, arch). boot_file_fine env path arch) files)"
proof (induction files)
  case Nil
  then show ?case by simp
next
  case (Cons f files)
  obtain label path arch where f: "f = (label, path, arch)" by (cases f)
  obtain r where "check_boot_file env label path arch = Some r"
    "pr_status r \<noteq> StatusFail \<longleftrightarrow> boot_file_fine env path arch"
    by (rule check_boot_file_status)
  with Cons show ?case by (auto simp: f)
qed

section \<open>The addresses of \<open>/proc\<close>\<close>

definition upper_hex_byte :: "byte \<Rightarrow> string" where
  "upper_hex_byte b = [upper_hex_char (unat b div 16), upper_hex_char (unat b mod 16)]"

lemma hex_val_upper [simp]: "n < 16 \<Longrightarrow> hex_val (upper_hex_char n) = Some n"
  unfolding all_lt_16 by (auto simp: hex_val_def upper_hex_char_def)

lemma hex_digits_value_byte:
  assumes "256 * n + unat b < 4294967296"
  shows "hex_digits_value n (upper_hex_byte b @ cs) = hex_digits_value (256 * n + unat b) cs"
proof -
  have "16 * n + unat b div 16 < 4294967296" using assms by linarith
  moreover have "16 * (16 * n + unat b div 16) + unat b mod 16 = 256 * n + unat b" by simp
  ultimately show ?thesis using assms by (simp add: upper_hex_byte_def add.commute)
qed

lemma run_preflight_eq:
  "\<exists>results. run_preflight env cfg = Some (results,
     interface_up env (sc_interface (fc_server cfg)) \<and>
     list_all (udp_free env) (udp_ports cfg) \<and> list_all (tcp_free env) (tcp_ports cfg) \<and>
     list_all (\<lambda>(_, path, arch). boot_file_fine env path arch) (configured_files cfg) \<and>
     fs_lookup (pe_fs env) (sc_data_dir (fc_server cfg)) = Some DirNode)"
proof -
  have files: "map (\<lambda>(label, file, arch). check_boot_file env label
      (path_join [path_join [sc_data_dir (fc_server cfg), bl_dir (fc_bootloader cfg)], file]) arch)
      (filter (\<lambda>(_, file, _). file \<noteq> []) (bootloader_files (fc_bootloader cfg))) =
    map (\<lambda>(label, path, arch). check_boot_file env label path arch) (configured_files cfg)"
    by (simp add: configured_files_def case_prod_beta')
  from check_files_status [of env "configured_files cfg"] obtain rs where rs:
    "those (map (\<lambda>(label, path, arch). check_boot_file env label path arch) (configured_files cfg)) = Some rs"
    "list_all (\<lambda>r. pr_status r \<noteq> StatusFail) rs \<longleftrightarrow> list_all (\<lambda>(_, path, arch). boot_file_fine env path arch) (configured_files cfg)"
    by blast
  show ?thesis
    unfolding run_preflight_def Let_def files rs(1)
    by (auto simp: check_interface_status check_ports_status check_data_dir_status check_pxe_conflict_status rs(2)
        udp_ports_def tcp_ports_def)
qed

section \<open>Properties\<close>

text \<open>C19 (preflight_passes_iff). The pre-flight checks always come to a result; they pass exactly where the interface exists and is
  up, no socket in whatever state is listed for a port of an enabled service and the port can be bound, every
  configured boot loader file is there and fits its architecture, and the data directory is a
  directory. Other PXE servers and a missing iPXE signature never make them fail. The code calls what it
  finds in the table listeners, but a connection that is established or being closed counts as well.\<close>

theorem preflight_passes_iff:
  "\<exists>results. run_preflight env cfg = Some (results,
     interface_up env (sc_interface (fc_server cfg)) \<and>
     list_all (udp_free env) (udp_ports cfg) \<and> list_all (tcp_free env) (tcp_ports cfg) \<and>
     list_all (\<lambda>(_, path, arch). boot_file_fine env path arch) (configured_files cfg) \<and>
     fs_lookup (pe_fs env) (sc_data_dir (fc_server cfg)) = Some DirNode)"
  by (rule run_preflight_eq)

text \<open>A connection from the port 80 that was closed and is in state \<open>TIME_WAIT\<close> (06) makes the check of
  this port fail, although the port can be bound.\<close>

definition time_wait_line :: string where
  "time_wait_line = ''   1: 0100007F:0050 0100007F:9C40 06 00000000:00000000 03:00000FFF 00000000     0        0 0 3''"

definition time_wait_env :: pf_env where
  "time_wait_env =
     \<lparr>pe_fs = \<lparr>fs_cwd = ''/'', fs_nodes = [(''/proc/net/tcp'', FileNode time_wait_line)]\<rparr>,
      pe_dir_size = 0, pe_link = (\<lambda>_. None), pe_iface = (\<lambda>_. Inl ''no such device''),
      pe_bind_udp = (\<lambda>_. None), pe_bind_tcp = (\<lambda>_. None), pe_pxe_servers = (\<lambda>_. Inr [])\<rparr>"

lemma time_wait_fails:
  "fields time_wait_line ! 3 = ''06'' \<and> pe_bind_tcp time_wait_env 80 = None \<and>
   pr_status (check_tcp_port time_wait_env 80) = StatusFail"
proof -
  have line: "fields time_wait_line = [''1:'', ''0100007F:0050'', ''0100007F:9C40'', ''06'', ''00000000:00000000'',
      ''03:00000FFF'', ''00000000'', ''0'', ''0'', ''0'', ''3'']" by code_simp
  have port: "hex_port 80 = ''0050''" by (simp add: hex_port_def pad_zeros_def upper_hex.simps upper_hex_char_def numeral_2_eq_2)
  have read: "os_read_file (pe_fs time_wait_env) ''/proc/net/tcp'' = Some time_wait_line"
    "split_char (CHR 0x0A) time_wait_line = [time_wait_line]" by code_simp+
  have "socket_on_port 80 time_wait_line"
    by (auto simp: socket_on_port_def line port intro: exI [of _ "''0100007F''"])
  then have "port_listed time_wait_env ''/proc/net/tcp'' 80" by (simp add: port_listed_def read)
  then have "pr_status (check_tcp_port time_wait_env 80) = StatusFail"
    using check_ports_status(2) [of time_wait_env 80] by (auto simp: tcp_free_def)
  then show ?thesis by (simp add: line time_wait_env_def)
qed

text \<open>An IPv4 address in the form of the kernel's tables, its four bytes in reverse order as
  upper case hexadecimal digits, is printed as the address.\<close>

lemma proc_address_roundtrip:
  "parse_hex_ipv4 (upper_hex_byte d @ upper_hex_byte c @ upper_hex_byte b @ upper_hex_byte a) = ip_string [a, b, c, d]"
proof -
  let ?s = "upper_hex_byte d @ upper_hex_byte c @ upper_hex_byte b @ upper_hex_byte a"
  let ?v = "256 * (256 * (256 * unat d + unat c) + unat b) + unat a"
  note bytes = unat_byte_lt [of a] unat_byte_lt [of b] unat_byte_lt [of c] unat_byte_lt [of d]
  have "hex_digits_value 0 ?s = Some ?v"
    using bytes by (simp add: hex_digits_value_byte hex_digits_value_byte [where cs = "[]", simplified])
  then have "parse_uint_hex32 ?s = Some ?v" by (simp add: parse_uint_hex32_def upper_hex_byte_def)
  moreover have "?v mod 256 = unat a" "?v div 256 mod 256 = unat b"
    "?v div 65536 mod 256 = unat c" "?v div 16777216 mod 256 = unat d"
  proof -
    have low: "(256 * x + y) mod 256 = y" "(256 * x + y) div 256 = x" if "y < 256" for x y :: nat
      using that by simp_all
    have up: "?v div 65536 = ?v div 256 div 256" "?v div 16777216 = ?v div 256 div 256 div 256"
      by (simp_all only: div_mult2_eq [symmetric]) simp_all
    show "?v mod 256 = unat a" using bytes(1) by (rule low(1))
    show "?v div 256 mod 256 = unat b" "?v div 65536 mod 256 = unat c" "?v div 16777216 mod 256 = unat d"
      unfolding up low(2) [OF bytes(1)] low(2) [OF bytes(2)] low(2) [OF bytes(3)]
      using bytes by (simp_all only: low(1)) simp
  qed
  moreover have "ip_to4 [a, b, c, d] = Some [a, b, c, d]" by (simp add: ip_to4_def)
  ultimately show ?thesis by (simp add: parse_hex_ipv4_def ip_string_ipv4)
qed

end
