(* ===== verification/Probes.thy ===== *)
theory Probes
  imports Health Dhcp Duration
begin

text \<open>
  The health probes (\<open>internal/health/file_probe.go\<close>, \<open>disk_probe.go\<close>, \<open>http_probe.go\<close>,
  \<open>tftp_probe.go\<close>, \<open>dhcp_probe.go\<close>). What a probe asks of the system is the record
  \<open>probe_os\<close>, an argument of the probes; every call may change the state \<open>'w\<close> of the outside
  world, the clock included. Two times are less than 292 years apart.
\<close>

section \<open>The system\<close>

datatype stat_result = Statted | NotExist | StatError string

record 'w probe_os =
  po_now :: "'w \<Rightarrow> int \<times> 'w"
  po_stat :: "string \<Rightarrow> 'w \<Rightarrow> stat_result \<times> 'w"
  po_statfs :: "string \<Rightarrow> 'w \<Rightarrow> (string + 64 word \<times> 64 word) \<times> 'w"
  po_get :: "string \<Rightarrow> int \<Rightarrow> 'w \<Rightarrow> (string + int) \<times> 'w"
  po_tftp_client :: "string \<Rightarrow> 'w \<Rightarrow> string option \<times> 'w"
  po_tftp_read :: "string \<Rightarrow> int \<Rightarrow> string \<Rightarrow> string \<Rightarrow> 'w \<Rightarrow> string option \<times> 'w"

definition time_since :: "'w probe_os \<Rightarrow> int \<Rightarrow> 'w \<Rightarrow> int \<times> 'w" where
  "time_since os start w = (let (t, w') = po_now os w in (t - start, w'))"

section \<open>Files\<close>

fun missing_files :: "'w probe_os \<Rightarrow> string list \<Rightarrow> 'w \<Rightarrow> string list \<times> 'w" where
  "missing_files os [] w = ([], w)"
| "missing_files os (path # paths) w =
     (let (st, w1) = po_stat os path w; (missing, w2) = missing_files os paths w1
      in (if st = NotExist then path # missing else missing, w2))"

definition file_probe_check :: "'w probe_os \<Rightarrow> string \<Rightarrow> string list \<Rightarrow> 'w \<Rightarrow> check_result \<times> 'w" where
  "file_probe_check os name paths w =
     (let (start, w1) = po_now os w;
          (missing, w2) = missing_files os paths w1;
          (dur, w3) = time_since os start w2;
          (status, msg) =
            (if missing \<noteq> [] then
               (StatusFail, dec_of_nat (length missing) @ '' of '' @ dec_of_nat (length paths) @
                  '' files missing: ['' @ joined '' '' missing @ '']'')
             else (StatusOK, ''all '' @ dec_of_nat (length paths) @ '' files present''))
      in (\<lparr>ck_name = name, ck_status = status, ck_message = msg, ck_duration = dur, ck_at = start\<rparr>, w3))"

definition NewFileProbe :: "'w probe_os \<Rightarrow> string \<Rightarrow> string list \<Rightarrow> 'w probe" where
  "NewFileProbe os name paths = \<lparr>pb_name = name, pb_check = file_probe_check os name paths\<rparr>"

section \<open>Disk space\<close>

text \<open>The free space is a product of 64-bit words and wraps around.\<close>

definition free_bytes :: "64 word \<times> 64 word \<Rightarrow> 64 word" where
  "free_bytes st = fst st * snd st"

definition disk_report :: "string \<Rightarrow> 64 word \<Rightarrow> string + 64 word \<times> 64 word \<Rightarrow> check_status \<times> string" where
  "disk_report path min_free res =
     (case res of
        Inl err \<Rightarrow> (StatusFail, ''statfs '' @ path @ '': '' @ err)
      | Inr st \<Rightarrow>
          let free = free_bytes st; free_mb = dec_of_nat (unat (free div (1024 * 1024))) in
          if free < min_free then
            (StatusWarn, path @ '': '' @ free_mb @ '' MB free (minimum: '' @
               dec_of_nat (unat (min_free div (1024 * 1024))) @ '' MB)'')
          else (StatusOK, path @ '': '' @ free_mb @ '' MB free''))"

definition disk_probe_check :: "'w probe_os \<Rightarrow> string \<Rightarrow> 64 word \<Rightarrow> 'w \<Rightarrow> check_result \<times> 'w" where
  "disk_probe_check os path min_free w =
     (let (start, w1) = po_now os w;
          (res, w2) = po_statfs os path w1;
          (dur, w3) = time_since os start w2;
          (status, msg) = disk_report path min_free res
      in (\<lparr>ck_name = ''disk'', ck_status = status, ck_message = msg, ck_duration = dur, ck_at = start\<rparr>, w3))"

definition NewDiskProbe :: "'w probe_os \<Rightarrow> string \<Rightarrow> 64 word \<Rightarrow> 'w probe" where
  "NewDiskProbe os path min_free =
     (let min_free = (if min_free = 0 then 100 * 1024 * 1024 else min_free)
      in \<lparr>pb_name = ''disk'', pb_check = disk_probe_check os path min_free\<rparr>)"

section \<open>The HTTP server\<close>

definition http_report :: "string \<Rightarrow> int \<Rightarrow> string + int \<Rightarrow> check_status \<times> string" where
  "http_report url dur res =
     (case res of
        Inl err \<Rightarrow> (StatusFail, ''GET '' @ url @ '': '' @ err)
      | Inr code \<Rightarrow>
          if code \<noteq> 200 then (StatusFail, ''GET '' @ url @ '': status '' @ dec_of_int code)
          else (StatusOK, ''GET '' @ url @ '': '' @ dec_of_int code @ '' ('' @
            duration_string (duration_round dur 1000000) @ '')''))"

definition http_probe_check :: "'w probe_os \<Rightarrow> string \<Rightarrow> int \<Rightarrow> 'w \<Rightarrow> check_result \<times> 'w" where
  "http_probe_check os url timeout w =
     (let (start, w1) = po_now os w;
          (res, w2) = po_get os url timeout w1;
          (dur, w3) = time_since os start w2;
          (status, msg) = http_report url dur res
      in (\<lparr>ck_name = ''http'', ck_status = status, ck_message = msg, ck_duration = dur, ck_at = start\<rparr>, w3))"

definition NewHTTPProbe :: "'w probe_os \<Rightarrow> string \<Rightarrow> int \<Rightarrow> 'w probe" where
  "NewHTTPProbe os url timeout =
     (let timeout = (if timeout = 0 then 5000000000 else timeout)
      in \<lparr>pb_name = ''http'', pb_check = http_probe_check os url timeout\<rparr>)"

section \<open>The TFTP server\<close>

definition tftp_report :: "string \<Rightarrow> string \<Rightarrow> int \<Rightarrow> string option \<Rightarrow> check_status \<times> string" where
  "tftp_report addr filename dur err =
     (let msg = ''TFTP read '' @ filename @ '' from '' @ addr @ '': '' in
      case err of
        Some e \<Rightarrow> (StatusFail, msg @ e)
      | None \<Rightarrow> (StatusOK, msg @ ''OK ('' @ duration_string (duration_round dur 1000000) @ '')''))"

definition tftp_probe_check :: "'w probe_os \<Rightarrow> string \<Rightarrow> string \<Rightarrow> int \<Rightarrow> 'w \<Rightarrow> check_result \<times> 'w" where
  "tftp_probe_check os addr filename timeout w =
     (let (start, w1) = po_now os w;
          (err, w2) = po_tftp_client os addr w1;
          (dur, w3) = time_since os start w2
      in case err of
           Some e \<Rightarrow> (\<lparr>ck_name = ''tftp'', ck_status = StatusFail,
             ck_message = ''TFTP client '' @ addr @ '': '' @ e, ck_duration = dur, ck_at = start\<rparr>, w3)
         | None \<Rightarrow>
             let (read_err, w4) = po_tftp_read os addr timeout filename ''octet'' w3;
                 (dur, w5) = time_since os start w4;
                 (status, msg) = tftp_report addr filename dur read_err
             in (\<lparr>ck_name = ''tftp'', ck_status = status, ck_message = msg,
                   ck_duration = dur, ck_at = start\<rparr>, w5))"

definition NewTFTPProbe :: "'w probe_os \<Rightarrow> string \<Rightarrow> string \<Rightarrow> int \<Rightarrow> 'w probe" where
  "NewTFTPProbe os addr filename timeout =
     (let timeout = (if timeout = 0 then 5000000000 else timeout)
      in \<lparr>pb_name = ''tftp'', pb_check = tftp_probe_check os addr filename timeout\<rparr>)"

section \<open>The DHCP proxy\<close>

definition dhcp_probe_check :: "'w probe_os \<Rightarrow> bool \<Rightarrow> int \<Rightarrow> 'w \<Rightarrow> check_result \<times> 'w" where
  "dhcp_probe_check os enabled port w =
     (let (start, w1) = po_now os w;
          msg = (if \<not> enabled then ''DHCP proxy disabled (skipped)''
                 else ''DHCP proxy configured on port '' @ dec_of_int port);
          (dur, w2) = time_since os start w1
      in (\<lparr>ck_name = ''dhcp'', ck_status = StatusOK, ck_message = msg, ck_duration = dur, ck_at = start\<rparr>, w2))"

definition NewDHCPProbe :: "'w probe_os \<Rightarrow> bool \<Rightarrow> int \<Rightarrow> 'w probe" where
  "NewDHCPProbe os enabled port = \<lparr>pb_name = ''dhcp'', pb_check = dhcp_probe_check os enabled port\<rparr>"

end
