(* ===== verification/Serve.thy ===== *)
theory Serve
  imports ApiRouter Preflight Probes
begin

text \<open>
  The command \<open>serve\<close> (\<open>internal/ui/cli/serve.go\<close>): the configuration is loaded, validated and checked, the
  services are made on one registry, one menu resolver and one session manager, and the
  started services handle requests and packets in any order, while the goroutine of the health checks
  makes its first run, sets up its timer and then runs at the ticks. The sockets of the DHCP
  proxy (\<open>Start\<close>, \<open>listenUDP\<close> of \<open>internal/service/dhcp/proxy.go\<close>), the start of the TFTP server and the HTTP server
  (\<open>internal/service/httpboot/server.go\<close>) are the ports they hold. Requests are handled one
  at a time here; theory \<open>BootService\<close> has the requests between the two halves of a reload.
\<close>

section \<open>Addresses\<close>

text \<open>\<open>net.ParseIP\<close> on texts without colons; the result \<open>nil\<close> is empty.\<close>

definition ip_octet :: "string \<Rightarrow> nat option" where
  "ip_octet s =
     (if s \<noteq> [] \<and> list_all is_digit s \<and> (length s = 1 \<or> hd s \<noteq> CHR ''0'') \<and> dec_val s \<le> 255
      then Some (dec_val s) else None)"

definition ParseIP :: "string \<Rightarrow> ip" where
  "ParseIP s =
     (case those (map ip_octet (split_char (CHR ''.'') s)) of
        Some [a, b, c, d] \<Rightarrow> ipv4 (of_nat a) (of_nat b) (of_nat c) (of_nat d)
      | _ \<Rightarrow> [])"

fun interface_ip :: "ip option list \<Rightarrow> string option" where
  "interface_ip [] = None"
| "interface_ip (None # addrs) = interface_ip addrs"
| "interface_ip (Some ip # addrs) = (if ip_to4 ip \<noteq> None then Some (ip_string ip) else interface_ip addrs)"

text \<open>An interface that is missing, or whose addresses cannot be read, is an error.\<close>

definition resolve_interface_ip :: "(string \<Rightarrow> string + string + ip option list) \<Rightarrow> string \<Rightarrow> string" where
  "resolve_interface_ip ifaces name =
     (case ifaces name of
        Inl _ \<Rightarrow> ''127.0.0.1''
      | Inr (Inl _) \<Rightarrow> ''127.0.0.1''
      | Inr (Inr addrs) \<Rightarrow> (case interface_ip addrs of Some ip \<Rightarrow> ip | None \<Rightarrow> ''127.0.0.1''))"

section \<open>Sockets\<close>

text \<open>The ports that are held, for the interface of the proxy and for all; binding any
  other port can fail as well.\<close>

definition listen_port :: "(int \<Rightarrow> string option) \<Rightarrow> int \<Rightarrow> int list \<Rightarrow> string + int list" where
  "listen_port bind port held =
     (if port \<noteq> 0 \<and> port \<in> set held then Inl ''address already in use''
      else case bind port of Some err \<Rightarrow> Inl err | None \<Rightarrow> Inr (port # held))"

datatype listen_error = ListenFailed int string

definition proxy_Start :: "(int \<Rightarrow> string option) \<Rightarrow> proxy_server \<Rightarrow> int list \<Rightarrow> int list \<times> listen_error option" where
  "proxy_Start bind p held =
     (case listen_port bind (dp_port (px_cfg p)) held of
        Inl err \<Rightarrow> (held, Some (ListenFailed (dp_port (px_cfg p)) err))
      | Inr held1 \<Rightarrow>
          (case listen_port bind (dp_proxy_port (px_cfg p)) held1 of
             Inl err \<Rightarrow> (remove1 (dp_port (px_cfg p)) held1, Some (ListenFailed (dp_proxy_port (px_cfg p)) err))
           | Inr held2 \<Rightarrow> (held2, None)))"

definition tftp_Start :: "(int \<Rightarrow> string option) \<Rightarrow> tftp_server \<Rightarrow> int list \<Rightarrow> int list \<times> listen_error option" where
  "tftp_Start bind s held =
     (case listen_port bind (tc_port (ts_cfg s)) held of
        Inl err \<Rightarrow> (held, Some (ListenFailed (tc_port (ts_cfg s)) err))
      | Inr held' \<Rightarrow> (held', None))"

record http_server =
  hv_addr :: string
  hv_read_timeout :: int
  hv_cfg :: http_config

definition NewHTTPServer :: "http_config \<Rightarrow> http_server" where
  "NewHTTPServer cfg =
     (let read_timeout = (if hc_read_timeout cfg = 0 then 30000000000 else hc_read_timeout cfg)
      in \<lparr>hv_addr = CHR '':'' # dec_of_int (hc_port cfg), hv_read_timeout = read_timeout, hv_cfg = cfg\<rparr>)"

text \<open>How serving ends, in plain text or with the certificate and the key.\<close>

datatype serve_end = ServerClosed | ServeFailed string

record http_listen =
  hl_plain :: serve_end
  hl_tls :: "string \<Rightarrow> string \<Rightarrow> serve_end"

definition serving_error :: "serve_end \<Rightarrow> string option" where
  "serving_error e = (case e of ServerClosed \<Rightarrow> None | ServeFailed err \<Rightarrow> Some err)"

definition http_Start :: "http_listen \<Rightarrow> http_server \<Rightarrow> string option" where
  "http_Start lst s =
     (let tls = hc_tls (hv_cfg s) in
      serving_error (if tls_enabled tls then hl_tls lst (tls_cert tls) (tls_key tls) else hl_plain lst))"

text \<open>Serving on a given listener never uses TLS; the end of a shutdown is awaited for five seconds.\<close>

definition http_StartOnListener :: "serve_end \<Rightarrow> string option" where
  "http_StartOnListener e = serving_error e"

definition http_Stop :: "(int \<Rightarrow> string option) \<Rightarrow> string option" where
  "http_Stop shutdown = shutdown 5000000000"

section \<open>Starting\<close>

text \<open>The error with which HTTP stops serving at once, if it does, is an argument; like that of TFTP it
  is only logged.\<close>

record 'w serve_env =
  sv_fs :: file_system
  sv_unmarshal :: "string \<Rightarrow> string + raw_file"
  sv_rng :: name_order
  sv_dir :: string
  sv_force :: bool
  sv_pf :: pf_env
  sv_ifaces :: "string \<Rightarrow> string + string + ip option list"
  sv_bind :: "int \<Rightarrow> string option"
  sv_http :: "http_server \<Rightarrow> string option"
  sv_now :: int
  sv_os :: "'w probe_os"

datatype serve_error =
  ConfigNotLoaded load_error
| ConfigInvalid config_error
| PreflightFailed "preflight_result list"
| PreflightPanic
| ProxyNotStarted listen_error

text \<open>The goroutine of the health checks has not come to its timer yet, or waits for ticks; where it
  panics, the process is gone.\<close>

datatype node_phase = CheckerPending | CheckerTicking | Crashed

text \<open>The started process: what the services share, and what each of them has of its own. The
  proxy, the boot scripts and the management interface hold pointers to the registry,
  the menus and the sessions, so these are kept once.\<close>

record 'w node =
  nd_registry :: registry
  nd_menus :: menu_resolver
  nd_sessions :: "addr list manager"
  nd_logs :: log_buffer
  nd_started_at :: int
  nd_proxy :: "proxy_server option"
  nd_tftp :: "tftp_server option"
  nd_vars :: "ipxe_vars option"
  nd_http :: "http_server option"
  nd_data_dir :: string
  nd_checker :: "'w checker option"
  nd_ports :: "int list"
  nd_phase :: node_phase

definition preflight_errors :: "pf_env \<Rightarrow> full_config \<Rightarrow> serve_error option" where
  "preflight_errors env cfg =
     (case run_preflight env cfg of
        None \<Rightarrow> Some PreflightPanic
      | Some (results, all_ok) \<Rightarrow> if \<not> all_ok then Some (PreflightFailed results) else None)"

definition load_config :: "'w serve_env \<Rightarrow> serve_error + full_config" where
  "load_config env =
     (case load_dir (sv_rng env) (sv_unmarshal env) (sv_fs env) (sv_dir env) of
        Inl err \<Rightarrow> Inl (ConfigNotLoaded err)
      | Inr cfg \<Rightarrow>
          (case full_config_validate cfg of
             Some err \<Rightarrow> Inl (ConfigInvalid err)
           | None \<Rightarrow>
               if he_startup_check (fc_health cfg) \<and> \<not> sv_force env then
                 (case preflight_errors (sv_pf env) cfg of Some err \<Rightarrow> Inl err | None \<Rightarrow> Inr cfg)
               else Inr cfg))"

definition new_proxy :: "full_config \<Rightarrow> string \<Rightarrow> registry \<Rightarrow> proxy_server" where
  "new_proxy cfg server_ip registry =
     \<lparr>px_cfg = fc_dhcp_proxy cfg, px_bl = fc_bootloader cfg, px_ip = ParseIP server_ip,
      px_iface = sc_interface (fc_server cfg), px_http_port = hc_port (fc_http cfg), px_srv = Some (Some registry)\<rparr>"

definition new_tftp :: "full_config \<Rightarrow> string \<Rightarrow> tftp_server" where
  "new_tftp cfg server_ip =
     (let s = NewTFTPServer (fc_tftp cfg) (sc_data_dir (fc_server cfg)) (bl_dir (fc_bootloader cfg)) in
      if hc_enabled (fc_http cfg) \<and> bl_chain_url (fc_bootloader cfg) \<noteq> [] then
        SetAutoexec \<lparr>ac_server_ip = server_ip, ac_http_port = hc_port (fc_http cfg),
          ac_chain_url = bl_chain_url (fc_bootloader cfg)\<rparr> s
      else s)"

definition loader_paths :: "full_config \<Rightarrow> string list" where
  "loader_paths cfg =
     (let loader_dir = path_join [sc_data_dir (fc_server cfg), bl_dir (fc_bootloader cfg)]; bl = fc_bootloader cfg
      in map (\<lambda>f. path_join [loader_dir, f])
           (filter (\<lambda>f. f \<noteq> []) [bl_uefix64 bl, bl_uefix86 bl, bl_bios bl, bl_arm64 bl]))"

definition health_url :: "full_config \<Rightarrow> string" where
  "health_url cfg = ''http://127.0.0.1:'' @ dec_of_int (hc_port (fc_http cfg)) @ ''/healthz''"

definition serve_probes :: "'w probe_os \<Rightarrow> full_config \<Rightarrow> 'w probe list" where
  "serve_probes os cfg =
     (let files = loader_paths cfg in
      (if files \<noteq> [] then [NewFileProbe os ''bootloader-files'' files] else []) @
      [NewDiskProbe os (sc_data_dir (fc_server cfg)) 0] @
      (if hc_enabled (fc_http cfg) then [NewHTTPProbe os (health_url cfg) 5000000000] else []))"

definition start_services :: "'w serve_env \<Rightarrow> full_config \<Rightarrow> serve_error + 'w node" where
  "start_services env cfg =
     (let registry = NewRegistry (fc_clients cfg);
          server_ip = resolve_interface_ip (sv_ifaces env) (sc_interface (fc_server cfg));
          proxy = new_proxy cfg server_ip registry;
          (ports, proxy_err) =
            (if dp_enabled (fc_dhcp_proxy cfg) then proxy_Start (sv_bind env) proxy [] else ([], None));
          tftp = new_tftp cfg server_ip;
          (ports', tftp_err) = (if tc_enabled (fc_tftp cfg) then tftp_Start (sv_bind env) tftp ports else (ports, None))
      in case proxy_err of
           Some err \<Rightarrow> Inl (ProxyNotStarted err)
         | None \<Rightarrow>
             Inr \<lparr>nd_registry = registry, nd_menus = NewMenuResolver (fc_menus cfg),
               nd_sessions = \<lparr>sm_store = [], sm_heap = [], sm_counter = 0\<rparr>, nd_logs = NewLogBuffer 1000,
               nd_started_at = sv_now env,
               nd_proxy = (if dp_enabled (fc_dhcp_proxy cfg) then Some proxy else None),
               nd_tftp = (if tc_enabled (fc_tftp cfg) \<and> tftp_err = None then Some tftp else None),
               nd_vars = (if hc_enabled (fc_http cfg)
                 then Some \<lparr>iv_server_ip = server_ip, iv_http_port = hc_port (fc_http cfg), iv_mac = [], iv_custom = None\<rparr>
                 else None),
               nd_http = (if hc_enabled (fc_http cfg) \<and> sv_http env (NewHTTPServer (fc_http cfg)) = None
                 then Some (NewHTTPServer (fc_http cfg)) else None),
               nd_data_dir = sc_data_dir (fc_server cfg),
               nd_checker = (if he_enabled (fc_health cfg)
                 then Some (NewChecker (serve_probes (sv_os env) cfg) (NewResultStore 100) (he_interval (fc_health cfg)))
                 else None),
               nd_ports = ports', nd_phase = CheckerPending\<rparr>)"

definition run_serve :: "'w serve_env \<Rightarrow> serve_error + 'w node" where
  "run_serve env = sum_bind (load_config env) (start_services env)"

section \<open>Requests\<close>

definition node_handler :: "'w node \<Rightarrow> ipxe_vars \<Rightarrow> handler" where
  "node_handler n vars = \<lparr>hd_registry = nd_registry n, hd_menus = nd_menus n, hd_vars = vars\<rparr>"

definition node_deps :: "'w node \<Rightarrow> (addr list, 'w) api_deps" where
  "node_deps n =
     \<lparr>ad_registry = nd_registry n, ad_menus = nd_menus n, ad_ops = mem_ops, ad_sessions = nd_sessions n,
      ad_health = nd_checker n, ad_logs = Some (nd_logs n), ad_started_at = nd_started_at n, ad_reload = True\<rparr>"

text \<open>The state after a call of the management interface, which changes the tables and the checker.\<close>

definition put_deps :: "(addr list, 'w) api_deps \<Rightarrow> 'w node \<Rightarrow> 'w node" where
  "put_deps d n = n\<lparr>nd_registry := ad_registry d, nd_menus := ad_menus d, nd_checker := ad_health d\<rparr>"

datatype 'm node_event =
  HttpRequest api_request file_system
| DhcpPacket "udp_addr option" 'm
| TftpRead string file_system
| CheckerStart int
| HealthTick int

datatype 'm node_answer =
  NotListening
| BootAnswer http_answer
| ApiResponse api_response
| DhcpOutcome "'m proxy_outcome"
| TftpOutcome tftp_result
| Checked
| ProcessPanic
| NotRunning

text \<open>What the handlers are given: the orders of maps, the texts of times, the reader of TOML
  and the directory of the configuration.\<close>

record 'm node_env =
  ne_vars :: var_order
  ne_orders :: api_orders
  ne_api :: api_env
  ne_rng :: name_order
  ne_unmarshal :: "string \<Rightarrow> string + raw_file"
  ne_dir :: string
  ne_dhcp :: "'m dhcp_lib"

definition node_http :: "'m node_env \<Rightarrow> api_request \<Rightarrow> file_system \<Rightarrow> 'w node \<times> 'w \<Rightarrow> ('w node \<times> 'w) \<times> 'm node_answer" where
  "node_http env req fs = (\<lambda>(n, w).
     case (nd_http n, nd_vars n) of
       (Some _, Some vars) \<Rightarrow>
         (let (h, a) = serve_boot (ne_vars env) fs (nd_data_dir n) (node_handler n vars) (ar_method req) (ar_path req) in
          if a = ApiAnswer then
            (let loaded = load_dir (ne_rng env) (ne_unmarshal env) fs (ne_dir env);
                 ((d, w'), r) = api_serve (ne_api env) (ne_orders env) loaded req (node_deps n, w)
             in ((put_deps d n, w'), ApiResponse r))
          else ((n\<lparr>nd_registry := hd_registry h, nd_menus := hd_menus h\<rparr>, w), BootAnswer a))
     | _ \<Rightarrow> ((n, w), NotListening))"

text \<open>\<open>checker.Start\<close> up to its loop, and the ticks after that. A panic of this goroutine, which
  nothing recovers, ends the process.\<close>

definition node_checker_start :: "int \<Rightarrow> 'w node \<times> 'w \<Rightarrow> ('w node \<times> 'w) \<times> 'm node_answer" where
  "node_checker_start now = (\<lambda>(n, w).
     case (nd_checker n, nd_phase n) of
       (Some c, CheckerPending) \<Rightarrow>
         (case checker_start now [] c w of
            None \<Rightarrow> ((n\<lparr>nd_phase := Crashed\<rparr>, w), ProcessPanic)
          | Some (c', w') \<Rightarrow> ((n\<lparr>nd_checker := Some c', nd_phase := CheckerTicking\<rparr>, w'), Checked))
     | _ \<Rightarrow> ((n, w), NotListening))"

definition node_health_tick :: "int \<Rightarrow> 'w node \<times> 'w \<Rightarrow> ('w node \<times> 'w) \<times> 'm node_answer" where
  "node_health_tick now = (\<lambda>(n, w).
     case (nd_checker n, nd_phase n) of
       (Some c, CheckerTicking) \<Rightarrow>
         (let (hr, c', w') = run_once now c w in ((n\<lparr>nd_checker := Some c'\<rparr>, w'), Checked))
     | _ \<Rightarrow> ((n, w), NotListening))"

definition node_step :: "'m node_env \<Rightarrow> 'm node_event \<Rightarrow> 'w node \<times> 'w \<Rightarrow> ('w node \<times> 'w) \<times> 'm node_answer" where
  "node_step env e = (\<lambda>(n, w).
     if nd_phase n = Crashed then ((n, w), NotRunning)
     else case e of
       HttpRequest req fs \<Rightarrow> node_http env req fs (n, w)
     | DhcpPacket peer msg \<Rightarrow> ((n, w),
         case nd_proxy n of
           None \<Rightarrow> NotListening
         | Some p \<Rightarrow> DhcpOutcome (handle_message (ne_dhcp env) (p\<lparr>px_srv := Some (Some (nd_registry n))\<rparr>) peer msg))
     | TftpRead filename fs \<Rightarrow> ((n, w),
         case nd_tftp n of None \<Rightarrow> NotListening | Some t \<Rightarrow> TftpOutcome (read_handler fs t filename))
     | CheckerStart now \<Rightarrow> node_checker_start now (n, w)
     | HealthTick now \<Rightarrow> node_health_tick now (n, w))"

fun node_run :: "'m node_env \<Rightarrow> 'm node_event list \<Rightarrow> 'w node \<times> 'w \<Rightarrow> ('w node \<times> 'w) \<times> 'm node_answer list" where
  "node_run env [] nw = (nw, [])"
| "node_run env (e # es) nw =
     (let (nw1, a) = node_step env e nw; (nw2, as) = node_run env es nw1 in (nw2, a # as))"

section \<open>The address of the server\<close>

lemma hd_dec_of_nat: "0 < n \<Longrightarrow> hd (dec_of_nat n) \<noteq> CHR ''0''"
proof (induction n rule: dec_of_nat.induct)
  case (1 n)
  have digit: "dec_digit k \<noteq> CHR ''0''" if "0 < k" "k < 10" for k
    using that unfolding all_lt_10 by (auto simp: dec_digit_def)
  show ?case
  proof (cases "n < 10")
    case True
    with 1 digit show ?thesis by (subst dec_of_nat.simps) simp
  next
    case False
    with 1 have "hd (dec_of_nat (n div 10)) \<noteq> CHR ''0''" by simp
    with False show ?thesis by (subst dec_of_nat.simps) simp
  qed
qed

lemma ip_octet_dec: "n \<le> 255 \<Longrightarrow> ip_octet (dec_of_nat n) = Some n"
proof -
  assume "n \<le> 255"
  moreover have "length (dec_of_nat 0) = 1" by (subst dec_of_nat.simps) simp
  ultimately show ?thesis
    using hd_dec_of_nat [of n] dec_of_nat_is_digit by (cases "n = 0") (auto simp: ip_octet_def list_all_iff)
qed

lemma joined_join_str: "joined sep ss = join_str sep ss"
  by (induction sep ss rule: joined.induct) simp_all

lemma ParseIP_ip_string:
  assumes "ip_to4 ip = Some bs"
  shows "ParseIP (ip_string ip) = v4_prefix @ bs"
proof -
  obtain a b c d where bs: "bs = [a, b, c, d]"
    using ip_to4_length [OF assms] by (auto simp: length_Suc_conv numeral_eq_Suc)
  have "CHR ''.'' \<notin> set (dec_of_nat n)" for n
    using dec_of_nat_digits [of n] by (auto simp: dec_digits_def)
  then have "split_char (CHR ''.'') (ip_string ip) = map (\<lambda>b. dec_of_nat (unat b)) bs"
    unfolding ip_string_ipv4 [OF assms] joined_join_str bs by (intro split_char_join) simp_all
  moreover have "ip_octet (dec_of_nat (unat x)) = Some (unat x)" for x :: byte
    using unsigned_less [of x, where 'a = nat] by (intro ip_octet_dec) simp
  ultimately show ?thesis by (simp add: ParseIP_def bs ipv4_def)
qed

lemma interface_ip_string: "interface_ip addrs = Some s \<Longrightarrow> \<exists>ip bs. s = ip_string ip \<and> ip_to4 ip = Some bs"
  by (induction addrs rule: interface_ip.induct) (auto split: if_splits)

lemma resolve_interface_ip_string:
  "\<exists>ip bs. resolve_interface_ip ifaces name = ip_string ip \<and> ip_to4 ip = Some bs"
proof -
  have "''127.0.0.1'' = ip_string (ipv4 127 0 0 1)" by code_simp
  then have "\<exists>ip bs. ''127.0.0.1'' = ip_string ip \<and> ip_to4 ip = Some bs"
    using ip_to4_ipv4 by blast
  then show ?thesis
    by (auto simp: resolve_interface_ip_def split: sum.split option.split dest: interface_ip_string)
qed

lemma server_ip_roundtrip:
  "ip_to4 (ParseIP (resolve_interface_ip ifaces name)) \<noteq> None"
  "ip_string (ParseIP (resolve_interface_ip ifaces name)) = resolve_interface_ip ifaces name"
proof -
  obtain ip bs where ip: "resolve_interface_ip ifaces name = ip_string ip" "ip_to4 ip = Some bs"
    using resolve_interface_ip_string by blast
  have to4: "ip_to4 (v4_prefix @ bs) = Some bs"
    using ip_to4_length [OF ip(2)] by (simp add: ip_to4_def v4_prefix_def)
  then show "ip_to4 (ParseIP (resolve_interface_ip ifaces name)) \<noteq> None"
    "ip_string (ParseIP (resolve_interface_ip ifaces name)) = resolve_interface_ip ifaces name"
    unfolding ip(1) ParseIP_ip_string [OF ip(2)]
    by (simp_all add: ip_string_ipv4 [OF ip(2)] ip_string_ipv4 [OF to4])
qed

section \<open>What a started process is made of\<close>

lemma proxy_Start_ok:
  "snd (proxy_Start bind p []) = None \<longleftrightarrow>
     bind (dp_port (px_cfg p)) = None \<and> bind (dp_proxy_port (px_cfg p)) = None \<and>
     (dp_proxy_port (px_cfg p) = 0 \<or> dp_proxy_port (px_cfg p) \<noteq> dp_port (px_cfg p))"
  by (auto simp: proxy_Start_def listen_port_def split: option.split)

lemma load_config_ok:
  "load_config env = Inr cfg \<longleftrightarrow>
     load_dir (sv_rng env) (sv_unmarshal env) (sv_fs env) (sv_dir env) = Inr cfg \<and> full_config_validate cfg = None \<and>
     (he_startup_check (fc_health cfg) \<and> \<not> sv_force env \<longrightarrow> (\<exists>results. run_preflight (sv_pf env) cfg = Some (results, True)))"
  by (auto simp: load_config_def preflight_errors_def split: sum.split option.split if_splits)

lemma start_services_ok:
  "(\<exists>n. start_services env cfg = Inr n) \<longleftrightarrow>
     (dp_enabled (fc_dhcp_proxy cfg) \<longrightarrow>
        snd (proxy_Start (sv_bind env) (new_proxy cfg
          (resolve_interface_ip (sv_ifaces env) (sc_interface (fc_server cfg))) (NewRegistry (fc_clients cfg))) []) = None)"
  by (simp add: start_services_def Let_def case_prod_beta' split: option.split)

text \<open>The parts of a process that was started from a configuration.\<close>

definition started_from :: "'w serve_env \<Rightarrow> full_config \<Rightarrow> 'w node \<Rightarrow> bool" where
  "started_from env cfg n \<longleftrightarrow>
     (let server_ip = resolve_interface_ip (sv_ifaces env) (sc_interface (fc_server cfg)) in
      nd_registry n = NewRegistry (fc_clients cfg) \<and> nd_menus n = NewMenuResolver (fc_menus cfg) \<and>
      nd_proxy n = (if dp_enabled (fc_dhcp_proxy cfg)
        then Some (new_proxy cfg server_ip (NewRegistry (fc_clients cfg))) else None) \<and>
      (\<forall>t. nd_tftp n = Some t \<longrightarrow> tc_enabled (fc_tftp cfg) \<and> t = new_tftp cfg server_ip) \<and>
      nd_vars n = (if hc_enabled (fc_http cfg)
        then Some \<lparr>iv_server_ip = server_ip, iv_http_port = hc_port (fc_http cfg), iv_mac = [], iv_custom = None\<rparr> else None) \<and>
      nd_checker n = (if he_enabled (fc_health cfg)
        then Some (NewChecker (serve_probes (sv_os env) cfg) (NewResultStore 100) (he_interval (fc_health cfg))) else None) \<and>
      nd_logs n = NewLogBuffer 1000 \<and> nd_phase n = CheckerPending)"

lemma start_services_parts: "start_services env cfg = Inr n \<Longrightarrow> started_from env cfg n"
  by (auto simp: start_services_def started_from_def Let_def case_prod_beta' split: option.splits if_splits)

lemma run_serve_parts:
  assumes "run_serve env = Inr n"
  obtains cfg where "load_config env = Inr cfg" and "started_from env cfg n"
  using assms start_services_parts by (auto simp: run_serve_def sum_bind_Inr_iff)

section \<open>The state of a running process\<close>















lemma checker_start_run:
  assumes "run_once now c w = (hr, c', w')"
  shows "checker_start now [] c w = (if ch_interval c \<le> 0 then None else Some (c', w'))"
proof -
  have "ch_interval c' = ch_interval c" using assms by (auto simp: run_once_eq Let_def case_prod_beta')
  with assms show ?thesis by (simp add: checker_start_def)
qed






section \<open>A sample process\<close>

definition serve_raw :: raw_file where
  "serve_raw = sample_raw
     \<lparr>rf_dhcp_proxy := Some \<lparr>rd_enabled = Some True, rd_port = 67, rd_proxy_port = 4011, rd_vendor_class = []\<rparr>,
      rf_http := Some \<lparr>rh_enabled = Some True, rh_port = 80, rh_read_timeout = [], rh_tls = None\<rparr>,
      rf_health := Some \<lparr>rhe_enabled = Some True, rhe_interval = [], rhe_startup_check = None\<rparr>,
      rf_bootloader := Some \<lparr>rbl_dir = ''bootloader'', rbl_uefix64 = ''ipxe.efi'', rbl_uefix86 = [],
        rbl_bios = [], rbl_arm64 = [], rbl_chain_url = chain_template\<rparr>\<rparr>"

definition serve_unmarshal :: "string \<Rightarrow> string + raw_file" where
  "serve_unmarshal data = (if data = ''sample'' then Inr serve_raw else Inl ''unexpected'')"

definition sample_os :: "unit probe_os" where
  "sample_os =
     \<lparr>po_now = (\<lambda>w. (0, w)), po_stat = (\<lambda>_ w. (Statted, w)), po_statfs = (\<lambda>_ w. (Inr (2, 4096), w)),
      po_get = (\<lambda>_ _ w. (Inr 200, w)), po_tftp_client = (\<lambda>_ w. (None, w)), po_tftp_read = (\<lambda>_ _ _ _ w. (None, w))\<rparr>"

definition sample_pf :: pf_env where
  "sample_pf =
     \<lparr>pe_fs = sample_fs, pe_dir_size = 0, pe_link = (\<lambda>_. None), pe_iface = (\<lambda>_. Inl ''no such device''),
      pe_bind_udp = (\<lambda>_. None), pe_bind_tcp = (\<lambda>_. None), pe_pxe_servers = (\<lambda>_. Inr [])\<rparr>"

definition sample_serve :: "unit serve_env" where
  "sample_serve =
     \<lparr>sv_fs = sample_fs, sv_unmarshal = serve_unmarshal, sv_rng = (\<lambda>m. m), sv_dir = ''etc'', sv_force = True,
      sv_pf = sample_pf, sv_ifaces = (\<lambda>_. Inr (Inr [None, Some [10, 0, 0, 1]])), sv_bind = (\<lambda>_. None),
      sv_http = (\<lambda>_. None), sv_now = 0, sv_os = sample_os\<rparr>"

definition sample_node_env :: "sample_packet node_env" where
  "sample_node_env =
     \<lparr>ne_vars = (\<lambda>_ m. m), ne_orders = sample_orders, ne_api = sample_env, ne_rng = (\<lambda>m. m),
      ne_unmarshal = serve_unmarshal, ne_dir = ''etc'', ne_dhcp = sample_lib\<rparr>"

definition started_with :: "('w node \<Rightarrow> bool) \<Rightarrow> serve_error + 'w node \<Rightarrow> bool" where
  "started_with P r = (case r of Inl _ \<Rightarrow> False | Inr n \<Rightarrow> P n)"

lemma started_with_obtain: "started_with P r \<Longrightarrow> \<exists>n. r = Inr n \<and> P n"
  by (auto simp: started_with_def split: sum.splits)

section \<open>Properties\<close>

text \<open>C14 (serve_starts_iff). The command comes up exactly where the configuration loads and is valid, the pre-flight
  checks pass or are skipped by \<open>--force\<close> or by the configuration, and the DHCP proxy,
  if enabled, can bind its two ports, which must differ; it then serves the tables of
  this configuration. Ports of TFTP and HTTP that are taken do not keep it from starting.\<close>

theorem serve_starts_iff:
  "((\<exists>n. run_serve env = Inr n) \<longleftrightarrow>
     (\<exists>cfg results. load_dir (sv_rng env) (sv_unmarshal env) (sv_fs env) (sv_dir env) = Inr cfg \<and>
        full_config_validate cfg = None \<and>
        (\<not> he_startup_check (fc_health cfg) \<or> sv_force env \<or> run_preflight (sv_pf env) cfg = Some (results, True)) \<and>
        (\<not> dp_enabled (fc_dhcp_proxy cfg) \<or>
           sv_bind env (dp_port (fc_dhcp_proxy cfg)) = None \<and> sv_bind env (dp_proxy_port (fc_dhcp_proxy cfg)) = None \<and>
           (dp_proxy_port (fc_dhcp_proxy cfg) = 0 \<or> dp_proxy_port (fc_dhcp_proxy cfg) \<noteq> dp_port (fc_dhcp_proxy cfg))))) \<and>
   (\<forall>n. run_serve env = Inr n \<longrightarrow>
      (\<exists>cfg. load_dir (sv_rng env) (sv_unmarshal env) (sv_fs env) (sv_dir env) = Inr cfg \<and>
         tables_of cfg (nd_registry n) (nd_menus n)))"
proof (intro conjI allI impI)
  fix n
  assume "run_serve env = Inr n"
  then obtain cfg where "load_config env = Inr cfg" "started_from env cfg n" by (rule run_serve_parts)
  then show "\<exists>cfg. load_dir (sv_rng env) (sv_unmarshal env) (sv_fs env) (sv_dir env) = Inr cfg \<and>
      tables_of cfg (nd_registry n) (nd_menus n)"
    by (auto simp: load_config_ok started_from_def tables_of_def Let_def)
next
  have "(\<exists>n. run_serve env = Inr n) \<longleftrightarrow> (\<exists>cfg. load_config env = Inr cfg \<and> (\<exists>n. start_services env cfg = Inr n))"
    by (auto simp: run_serve_def sum_bind_Inr_iff)
  then show "(\<exists>n. run_serve env = Inr n) \<longleftrightarrow>
     (\<exists>cfg results. load_dir (sv_rng env) (sv_unmarshal env) (sv_fs env) (sv_dir env) = Inr cfg \<and>
        full_config_validate cfg = None \<and>
        (\<not> he_startup_check (fc_health cfg) \<or> sv_force env \<or> run_preflight (sv_pf env) cfg = Some (results, True)) \<and>
        (\<not> dp_enabled (fc_dhcp_proxy cfg) \<or>
           sv_bind env (dp_port (fc_dhcp_proxy cfg)) = None \<and> sv_bind env (dp_proxy_port (fc_dhcp_proxy cfg)) = None \<and>
           (dp_proxy_port (fc_dhcp_proxy cfg) = 0 \<or> dp_proxy_port (fc_dhcp_proxy cfg) \<noteq> dp_port (fc_dhcp_proxy cfg))))"
    by (simp add: load_config_ok start_services_ok proxy_Start_ok new_proxy_def) blast
qed

theorem serve_starts_iff_witness:
  "\<exists>n cfg. run_serve sample_serve = Inr n \<and> load_dir (\<lambda>m. m) serve_unmarshal sample_fs ''etc'' = Inr cfg \<and>
     tables_of cfg (nd_registry n) (nd_menus n)"
proof -
  have "started_with (\<lambda>n. True) (run_serve sample_serve)" by code_simp
  then obtain n where "run_serve sample_serve = Inr n" using started_with_obtain by blast
  with serve_starts_iff [of sample_serve] show ?thesis by (auto simp: sample_serve_def)
qed



text \<open>With health checks at a negative interval, which validation accepts, the process ends when they start.\<close>

lemma negative_interval_crash:
  "\<exists>n. start_services sample_serve (sample_full_config\<lparr>fc_health := \<lparr>he_enabled = True, he_interval = -1, he_startup_check = False\<rparr>\<rparr>) = Inr n \<and>
     full_config_validate (sample_full_config\<lparr>fc_health := \<lparr>he_enabled = True, he_interval = -1, he_startup_check = False\<rparr>\<rparr>) = None \<and>
     snd (node_run sample_node_env [HealthTick 0, CheckerStart 0, TftpRead ''ipxe.efi'' sample_fs] (n, ())) =
       [NotListening, ProcessPanic, NotRunning]"
proof -
  let ?cfg = "sample_full_config\<lparr>fc_health := \<lparr>he_enabled = True, he_interval = -1, he_startup_check = False\<rparr>\<rparr>"
  have valid: "full_config_validate ?cfg = None" by code_simp
  obtain n where n: "start_services sample_serve ?cfg = Inr n"
    using start_services_ok [of sample_serve ?cfg] by (auto simp: sample_full_config_def empty_full_config_def)
  obtain c where c: "nd_checker n = Some c" "ch_interval c = -1" "nd_phase n = CheckerPending"
    using start_services_parts [OF n] by (auto simp: started_from_def NewChecker_def Let_def)
  obtain hr c' w' where "run_once 0 c () = (hr, c', w')" by (metis prod_cases3)
  from checker_start_run [OF this] c have "snd (node_run sample_node_env
      [HealthTick 0, CheckerStart 0, TftpRead ''ipxe.efi'' sample_fs] (n, ())) = [NotListening, ProcessPanic, NotRunning]"
    by (simp add: node_step_def node_checker_start_def node_health_tick_def)
  with n valid show ?thesis by blast
qed

text \<open>C2 (served_boot_chain). A booting machine meets one server. In a started process with the standard chain
  URL, all three services enabled, the URL that the DHCP proxy gives to iPXE, the URL in
  the script that TFTP generates and the variables of the boot scripts have the same address
  and port; the URL for a machine's address is routed to the boot script handler with this
  address.\<close>

theorem served_boot_chain:
  assumes "run_serve env = Inr n" and "nd_proxy n = Some p" and "nd_tftp n = Some t" and "nd_vars n = Some vars"
    and "bl_chain_url (px_bl p) = chain_template" and "mac_len_ok (length bs)"
  defines "base \<equiv> ''http://'' @ iv_server_ip vars @ '':'' @ dec_of_int (iv_http_port vars)"
    and "path \<equiv> abs_path [''boot'', mac_string (Some bs), ''menu.ipxe'']"
  shows "resolve_chain_url p (mac_string (Some bs)) = base @ path \<and>
    snd (serve_boot rng fs (nd_data_dir n) (node_handler n vars) ''GET'' path) =
      Answer (snd (serve_http rng (node_handler n vars) (mac_string (Some bs)))) \<and>
    read_handler fs t ''autoexec.ipxe'' =
      (let script = ''#!ipxe'' @ nl @ ''chain --autofree '' @ base @ abs_path [''boot'', ''${net0/mac}'', ''menu.ipxe''] @ nl
       in Transfer (length script) script)"
proof -
  obtain cfg where cfg: "started_from env cfg n" using assms(1) by (rule run_serve_parts)
  define server_ip where "server_ip = resolve_interface_ip (sv_ifaces env) (sc_interface (fc_server cfg))"
  have vars: "hc_enabled (fc_http cfg)" "iv_server_ip vars = server_ip" "iv_http_port vars = hc_port (fc_http cfg)"
    and p: "p = new_proxy cfg server_ip (NewRegistry (fc_clients cfg))" and t: "t = new_tftp cfg server_ip"
    using cfg assms(2-4) by (auto simp: started_from_def server_ip_def Let_def split: if_splits)
  obtain addr where addr: "ip_to4 (px_ip p) = Some addr"
    using server_ip_roundtrip(1) by (auto simp: p new_proxy_def server_ip_def)
  have ip: "ip_string (px_ip p) = server_ip" "px_http_port p = iv_http_port vars"
    by (simp_all add: p new_proxy_def server_ip_def server_ip_roundtrip(2) vars(3))
  have "bl_chain_url (fc_bootloader cfg) = chain_template" using assms(5) by (simp add: p new_proxy_def)
  then have auto: "ts_autoexec t = Some \<lparr>ac_server_ip = server_ip, ac_http_port = iv_http_port vars, ac_chain_url = chain_template\<rparr>"
    using vars by (simp add: t new_tftp_def SetAutoexec_def chain_template_def)
  have "path_clean ''autoexec.ipxe'' = ''autoexec.ipxe''" by code_simp
  then have "read_handler fs t ''autoexec.ipxe'' =
      serve_autoexec \<lparr>ac_server_ip = server_ip, ac_http_port = iv_http_port vars, ac_chain_url = chain_template\<rparr>"
    by (simp add: read_handler_def auto)
  with boot_chain [OF addr assms(5,6), of rng fs "nd_data_dir n" "node_handler n vars"] show ?thesis
    unfolding base_def path_def ip vars(2) by simp
qed

theorem served_boot_chain_witness:
  "\<exists>n p. run_serve sample_serve = Inr n \<and> nd_proxy n = Some p \<and>
     resolve_chain_url p ''01:02:03:04:05:06'' = ''http://10.0.0.1:80/boot/01:02:03:04:05:06/menu.ipxe''"
proof -
  have "started_with (\<lambda>n. case nd_proxy n of None \<Rightarrow> False | Some p \<Rightarrow> bl_chain_url (px_bl p) = chain_template \<and>
      nd_tftp n \<noteq> None \<and> (case nd_vars n of None \<Rightarrow> False | Some vars \<Rightarrow>
        iv_server_ip vars = ''10.0.0.1'' \<and> dec_of_int (iv_http_port vars) = ''80'')) (run_serve sample_serve)"
    by code_simp
  then obtain n where n: "run_serve sample_serve = Inr n" and parts: "case nd_proxy n of None \<Rightarrow> False | Some p \<Rightarrow>
      bl_chain_url (px_bl p) = chain_template \<and> nd_tftp n \<noteq> None \<and> (case nd_vars n of None \<Rightarrow> False | Some vars \<Rightarrow>
        iv_server_ip vars = ''10.0.0.1'' \<and> dec_of_int (iv_http_port vars) = ''80'')"
    using started_with_obtain by blast
  from parts obtain p t vars where pt: "nd_proxy n = Some p" "nd_tftp n = Some t" "nd_vars n = Some vars"
    "bl_chain_url (px_bl p) = chain_template" "iv_server_ip vars = ''10.0.0.1''" "dec_of_int (iv_http_port vars) = ''80''"
    by (auto split: option.splits)
  have "mac_len_ok (length [1, 2, 3, 4, 5, 6 :: byte])" by (simp add: mac_len_ok_def)
  from served_boot_chain [OF n pt(1-4) this] pt(5,6)
  have "resolve_chain_url p (mac_string (Some [1, 2, 3, 4, 5, 6])) =
      ''http://10.0.0.1:80'' @ abs_path [''boot'', mac_string (Some [1, 2, 3, 4, 5, 6]), ''menu.ipxe'']" by simp
  moreover have "mac_string (Some [1, 2, 3, 4, 5, 6]) = ''01:02:03:04:05:06''" by code_simp
  ultimately show ?thesis using n pt(1) by (auto simp: abs_path_def slash_def)
qed



end
