(* ===== verification/Wizard.thy ===== *)
theory Wizard
  imports TomlWriter NetIP
begin

text \<open>
  The data of the setup wizard: \<open>internal/ui/cli/wizard/state.go\<close>, the downloads of
  \<open>download.go\<close> and the network interfaces of \<open>netutil.go\<close>. What a download gets from the network
  is an argument; the interfaces are a list with their flags and addresses.
\<close>

section \<open>Downloads\<close>

record ipxe_arch =
  ia_label :: string
  ia_filename :: string
  ia_url :: string

definition DefaultIPXEBaseURL :: string where
  "DefaultIPXEBaseURL = ''https://boot.ipxe.org''"

definition IPXEVariantFull :: string where "IPXEVariantFull = ''full''"
definition IPXEVariantSNPOnly :: string where "IPXEVariantSNPOnly = ''snponly''"

definition IPXEArchitectures :: "string \<Rightarrow> string \<Rightarrow> ipxe_arch list" where
  "IPXEArchitectures base_url variant =
     (let efi_binary = (if variant = IPXEVariantSNPOnly then ''snponly.efi'' else ''ipxe.efi'') in
      [\<lparr>ia_label = ''UEFI x64'', ia_filename = ''ipxe.efi'', ia_url = base_url @ ''/x86_64-efi/'' @ efi_binary\<rparr>,
       \<lparr>ia_label = ''UEFI x86'', ia_filename = ''ipxe-i386.efi'', ia_url = base_url @ ''/i386-efi/'' @ efi_binary\<rparr>,
       \<lparr>ia_label = ''BIOS'', ia_filename = ''undionly.kpxe'', ia_url = base_url @ ''/x86_64-pcbios/undionly.kpxe''\<rparr>,
       \<lparr>ia_label = ''ARM64'', ia_filename = ''ipxe-arm64.efi'', ia_url = base_url @ ''/arm64-efi/'' @ efi_binary\<rparr>])"

definition DefaultNetbootBaseURL :: string where
  "DefaultNetbootBaseURL = ''https://github.com/netbootxyz/netboot.xyz/releases/latest/download''"

definition NetbootAssets :: "string \<Rightarrow> ipxe_arch list" where
  "NetbootAssets base_url =
     [\<lparr>ia_label = ''BIOS/UEFI (lkrn)'', ia_filename = ''netboot.xyz.lkrn'', ia_url = base_url @ ''/netboot.xyz.lkrn''\<rparr>,
      \<lparr>ia_label = ''UEFI x64'', ia_filename = ''netboot.xyz.efi'', ia_url = base_url @ ''/netboot.xyz.efi''\<rparr>,
      \<lparr>ia_label = ''ARM64'', ia_filename = ''netboot.xyz-arm64.efi'', ia_url = base_url @ ''/netboot.xyz-arm64.efi''\<rparr>]"

text \<open>The answer to \<open>http.Get\<close>: an error, or the status, what could be read of the body and the error that
  ended the reading.\<close>

type_synonym http_get = "string \<Rightarrow> string + (nat \<times> string \<times> string option)"

datatype download_error =
  Downloading string string
| DownloadStatus string nat
| CreatingFile string
| WritingDownload string string
| EmptyDownload string

record download_result =
  dr_arch :: ipxe_arch
  dr_size :: int
  dr_err :: "download_error option"

text \<open>A file is created before the body is copied, and keeps what was copied before an error.\<close>

definition download_one :: "http_get \<Rightarrow> ipxe_arch \<Rightarrow> string \<Rightarrow> file_system \<Rightarrow> download_result \<times> file_system" where
  "download_one get arch dest_dir fs =
     (let res = \<lparr>dr_arch = arch, dr_size = 0, dr_err = None\<rparr>;
          failed = (\<lambda>e. res\<lparr>dr_err := Some e\<rparr>) in
      case get (ia_url arch) of
        Inl err \<Rightarrow> (failed (Downloading (ia_filename arch) err), fs)
      | Inr (status, body, read_error) \<Rightarrow>
          if status \<noteq> 200 then (failed (DownloadStatus (ia_filename arch) status), fs)
          else
            let path = path_join [dest_dir, ia_filename arch] in
            (case os_write_file path body fs of
               None \<Rightarrow> (failed (CreatingFile path), fs)
             | Some fs' \<Rightarrow>
                 (case read_error of
                    Some err \<Rightarrow> (failed (WritingDownload path err), fs')
                  | None \<Rightarrow> if body = [] then (failed (EmptyDownload (ia_filename arch)), fs')
                            else (res\<lparr>dr_size := int (length body)\<rparr>, fs'))))"

text \<open>\<open>os.MkdirAll\<close>: every missing directory on the way is made; a file in the way is an error.\<close>

fun make_dirs :: "string list \<Rightarrow> string list \<Rightarrow> (string, fs_node) gomap \<Rightarrow> (string, fs_node) gomap option" where
  "make_dirs done [] nodes = Some nodes"
| "make_dirs done (e # es) nodes =
     (let here = done @ [e] in
      case map_of nodes (abs_path here) of
        Some DirNode \<Rightarrow> make_dirs here es nodes
      | Some (FileNode _) \<Rightarrow> None
      | None \<Rightarrow> make_dirs here es (AList.update (abs_path here) DirNode nodes))"

definition os_mkdir_all :: "string \<Rightarrow> file_system \<Rightarrow> file_system option" where
  "os_mkdir_all p fs =
     (if p = [] then None
      else map_option (\<lambda>nodes. fs\<lparr>fs_nodes := nodes\<rparr>)
        (make_dirs [] (path_elems (path_abs (fs_cwd fs) p)) (fs_nodes fs)))"

datatype downloads_error = CreatingBootloaderDir | DownloadsFailed nat nat

fun download_loop :: "http_get \<Rightarrow> ipxe_arch list \<Rightarrow> string \<Rightarrow> file_system \<Rightarrow> download_result list \<times> file_system" where
  "download_loop get [] dest_dir fs = ([], fs)"
| "download_loop get (arch # archs) dest_dir fs =
     (let (res, fs1) = download_one get arch dest_dir fs;
          (rest, fs2) = download_loop get archs dest_dir fs1
      in (res # rest, fs2))"

text \<open>The results are those the progress callback gets.\<close>

definition DownloadIPXEFiles ::
  "http_get \<Rightarrow> ipxe_arch list \<Rightarrow> string \<Rightarrow> file_system \<Rightarrow> downloads_error option \<times> download_result list \<times> file_system" where
  "DownloadIPXEFiles get archs dest_dir fs =
     (case os_mkdir_all dest_dir fs of
        None \<Rightarrow> (Some CreatingBootloaderDir, [], fs)
      | Some fs1 \<Rightarrow>
          (let (results, fs2) = download_loop get archs dest_dir fs1;
               failed = length (filter (\<lambda>r. dr_err r \<noteq> None) results)
           in (if failed > 0 then Some (DownloadsFailed failed (length archs)) else None, results, fs2)))"

section \<open>Network interfaces\<close>

record net_iface =
  ni_name :: string
  ni_up :: bool
  ni_loopback :: bool
  ni_addrs :: "string + ip option list"

text \<open>An address is \<^const>\<open>None\<close> where it is no IP network.\<close>

fun iface_ipv4 :: "ip option list \<Rightarrow> string" where
  "iface_ipv4 [] = []"
| "iface_ipv4 (None # addrs) = iface_ipv4 addrs"
| "iface_ipv4 (Some ip # addrs) = (case ip_to4 ip of Some v4 \<Rightarrow> ip_string v4 | None \<Rightarrow> iface_ipv4 addrs)"

record net_interface =
  nf_name :: string
  nf_ip :: string

definition iface_label :: "net_interface \<Rightarrow> string" where
  "iface_label n = (if nf_ip n \<noteq> [] then nf_name n @ '' ('' @ nf_ip n @ '')'' else nf_name n)"

definition usable_interface :: "net_iface \<Rightarrow> net_interface option" where
  "usable_interface iface =
     (if \<not> ni_up iface then None
      else if ni_loopback iface then None
      else case ni_addrs iface of
        Inl _ \<Rightarrow> None
      | Inr addrs \<Rightarrow>
          if iface_ipv4 addrs = [] then None
          else Some \<lparr>nf_name = ni_name iface, nf_ip = iface_ipv4 addrs\<rparr>)"

definition DetectInterfaces :: "string + net_iface list \<Rightarrow> string + net_interface list" where
  "DetectInterfaces interfaces =
     sum_bind interfaces (\<lambda>ifaces. Inr (List.map_filter usable_interface ifaces))"

lemma usable_interface_name: "usable_interface iface = Some n \<Longrightarrow> nf_name n = ni_name iface"
  by (auto simp: usable_interface_def split: if_splits sum.splits)

section \<open>The state of the wizard\<close>

definition NetbootSkip :: string where "NetbootSkip = ''skip''"
definition NetbootRemote :: string where "NetbootRemote = ''remote''"
definition NetbootSelfHosted :: string where "NetbootSelfHosted = ''self-hosted''"

record menu_state =
  wm_name :: string
  wm_label :: string
  wm_type :: string
  wm_kernel :: string
  wm_initrd :: string
  wm_cmdline :: string
  wm_chain :: string
  wm_http_path :: string
  wm_http_files :: string

record client_state =
  wc_mac :: string
  wc_name :: string
  wc_entries :: "string list"
  wc_default :: string
  wc_timeout :: int

record wizard_state =
  wz_config_dir :: string
  wz_interface :: string
  wz_server_ip :: string
  wz_data_dir :: string
  wz_dhcp_enabled :: bool
  wz_dhcp_port :: int
  wz_dhcp_proxy_port :: int
  wz_tftp_enabled :: bool
  wz_tftp_port :: int
  wz_http_enabled :: bool
  wz_http_port :: int
  wz_download_ipxe :: bool
  wz_ipxe_variant :: string
  wz_ipxe_base_url :: string
  wz_ipxe_archs :: "string list"
  wz_bootloader_dir :: string
  wz_netboot_mode :: string
  wz_netboot_base_url :: string
  wz_netboot_dir :: string
  wz_menus :: "menu_state list"
  wz_clients :: "client_state list"

text \<open>The zero values of the structs.\<close>

definition empty_menu_state :: menu_state where
  "empty_menu_state = \<lparr>wm_name = [], wm_label = [], wm_type = [], wm_kernel = [], wm_initrd = [], wm_cmdline = [],
     wm_chain = [], wm_http_path = [], wm_http_files = []\<rparr>"

definition empty_client_state :: client_state where
  "empty_client_state = \<lparr>wc_mac = [], wc_name = [], wc_entries = [], wc_default = [], wc_timeout = 0\<rparr>"

definition DefaultState :: wizard_state where
  "DefaultState =
     \<lparr>wz_config_dir = [], wz_interface = [], wz_server_ip = [], wz_data_dir = ''./data'',
      wz_dhcp_enabled = True, wz_dhcp_port = 67, wz_dhcp_proxy_port = 4011,
      wz_tftp_enabled = True, wz_tftp_port = 69, wz_http_enabled = True, wz_http_port = 8080,
      wz_download_ipxe = False, wz_ipxe_variant = IPXEVariantFull, wz_ipxe_base_url = DefaultIPXEBaseURL,
      wz_ipxe_archs = [], wz_bootloader_dir = ''bootloader'',
      wz_netboot_mode = NetbootSkip, wz_netboot_base_url = DefaultNetbootBaseURL, wz_netboot_dir = ''netboot'',
      wz_menus = [empty_menu_state\<lparr>wm_name := ''local-disk'', wm_label := ''Boot from local disk'', wm_type := ''exit''\<rparr>],
      wz_clients = [empty_client_state\<lparr>wc_mac := ''*'', wc_name := ''default'', wc_entries := [''local-disk'']\<rparr>]\<rparr>"

definition MenuNames :: "wizard_state \<Rightarrow> string list" where
  "MenuNames s = map wm_name (wz_menus s)"

definition arch_index :: "(string, nat) gomap" where
  "arch_index = [(''uefi_x64'', 0), (''uefi_x86'', 1), (''bios'', 2), (''arm64'', 3)]"

definition IPXEDownloadArchs :: "wizard_state \<Rightarrow> ipxe_arch list" where
  "IPXEDownloadArchs s =
     (let available = IPXEArchitectures (wz_ipxe_base_url s) (wz_ipxe_variant s)
      in List.map_filter (\<lambda>sel. case map_of arch_index sel of
           Some idx \<Rightarrow> if idx < length available then Some (available ! idx) else None
         | None \<Rightarrow> None) (wz_ipxe_archs s))"

text \<open>The addresses of the interface are the argument; an error is an interface that cannot be asked.\<close>

definition ServerIPForConfig :: "(string \<Rightarrow> string + ip option list) \<Rightarrow> wizard_state \<Rightarrow> string" where
  "ServerIPForConfig iface_addrs s =
     (if wz_server_ip s \<noteq> [] then wz_server_ip s
      else case iface_addrs (wz_interface s) of
        Inl _ \<Rightarrow> ''0.0.0.0''
      | Inr addrs \<Rightarrow> (let ip = iface_ipv4 addrs in if ip = [] then ''0.0.0.0'' else ip))"

section \<open>From the state to a configuration\<close>

definition set_arch_file :: "string \<Rightarrow> bootloader_config \<Rightarrow> bootloader_config" where
  "set_arch_file arch bl =
     (if arch = ''uefi_x64'' then bl\<lparr>bl_uefix64 := ''ipxe.efi''\<rparr>
      else if arch = ''uefi_x86'' then bl\<lparr>bl_uefix86 := ''ipxe-i386.efi''\<rparr>
      else if arch = ''bios'' then bl\<lparr>bl_bios := ''undionly.kpxe''\<rparr>
      else if arch = ''arm64'' then bl\<lparr>bl_arm64 := ''ipxe-arm64.efi''\<rparr>
      else bl)"

text \<open>An unknown type is the zero value of the enumeration.\<close>

definition menu_of_state :: "menu_state \<Rightarrow> menu_entry" where
  "menu_of_state m =
     \<lparr>me_name = wm_name m, me_label = wm_label m, me_description = [],
      me_type = (case ParseMenuType (wm_type m) of Inr t \<Rightarrow> t | Inl _ \<Rightarrow> MenuInstall),
      me_http = \<lparr>mh_files = wm_http_files m, mh_path = wm_http_path m, mh_upstream = []\<rparr>,
      me_boot = empty_boot_params\<lparr>bp_kernel := wm_kernel m, bp_initrd := wm_initrd m, bp_cmdline := wm_cmdline m,
        bp_chain := wm_chain m\<rparr>,
      me_source = []\<rparr>"

text \<open>An address that does not parse is \<open>nil\<close>.\<close>

definition client_of_state :: "client_state \<Rightarrow> client" where
  "client_of_state c =
     \<lparr>cl_mac = (case ParseMAC (wc_mac c) of Inr mac \<Rightarrow> mac | Inl _ \<Rightarrow> None), cl_name = wc_name c,
      cl_menu = \<lparr>mc_entries = wc_entries c, mc_default = wc_default c, mc_timeout = wc_timeout c\<rparr>,
      cl_bootloader = None, cl_vars = None, cl_enabled = True, cl_source = []\<rparr>"

definition StateToConfig :: "wizard_state \<Rightarrow> full_config" where
  "StateToConfig s =
     \<lparr>fc_server = \<lparr>sc_interface = wz_interface s, sc_data_dir = wz_data_dir s,
        sc_logging = \<lparr>lc_level = ''info'', lc_format = ''pretty''\<rparr>\<rparr>,
      fc_dhcp_proxy = \<lparr>dp_enabled = wz_dhcp_enabled s, dp_port = wz_dhcp_port s,
        dp_proxy_port = wz_dhcp_proxy_port s, dp_vendor_class = []\<rparr>,
      fc_tftp = \<lparr>tc_enabled = wz_tftp_enabled s, tc_port = wz_tftp_port s, tc_block_size = 512,
        tc_timeout = 5 * 1000000000, tc_retries = 0\<rparr>,
      fc_http = \<lparr>hc_enabled = wz_http_enabled s, hc_port = wz_http_port s, hc_read_timeout = 30 * 1000000000,
        hc_tls = \<lparr>tls_enabled = False, tls_cert = [], tls_key = []\<rparr>\<rparr>,
      fc_health = \<lparr>he_enabled = True, he_interval = 30 * 1000000000, he_startup_check = True\<rparr>,
      fc_bootloader = fold set_arch_file (wz_ipxe_archs s)
        \<lparr>bl_dir = wz_bootloader_dir s, bl_uefix64 = [], bl_uefix86 = [], bl_bios = [], bl_arm64 = [],
         bl_chain_url = ''http://${server_ip}:${http_port}/boot/${mac}/menu.ipxe''\<rparr>,
      fc_menus = map menu_of_state (wz_menus s),
      fc_clients = map client_of_state (wz_clients s)\<rparr>"

section \<open>From a configuration to the state\<close>

definition archs_of_bootloader :: "bootloader_config \<Rightarrow> string list" where
  "archs_of_bootloader bl =
     (if bl_uefix64 bl \<noteq> [] then [''uefi_x64''] else []) @
     (if bl_uefix86 bl \<noteq> [] then [''uefi_x86''] else []) @
     (if bl_bios bl \<noteq> [] then [''bios''] else []) @
     (if bl_arm64 bl \<noteq> [] then [''arm64''] else [])"

definition state_of_menu :: "menu_entry \<Rightarrow> menu_state" where
  "state_of_menu m =
     \<lparr>wm_name = me_name m, wm_label = me_label m, wm_type = menu_type_string (me_type m),
      wm_kernel = bp_kernel (me_boot m), wm_initrd = bp_initrd (me_boot m), wm_cmdline = bp_cmdline (me_boot m),
      wm_chain = bp_chain (me_boot m), wm_http_path = mh_path (me_http m), wm_http_files = mh_files (me_http m)\<rparr>"

definition state_of_client :: "client \<Rightarrow> client_state" where
  "state_of_client c =
     \<lparr>wc_mac = (if client_is_wildcard c then ''*'' else mac_string (cl_mac c)), wc_name = cl_name c,
      wc_entries = mc_entries (cl_menu c), wc_default = mc_default (cl_menu c), wc_timeout = mc_timeout (cl_menu c)\<rparr>"

definition ConfigToState :: "full_config \<Rightarrow> wizard_state" where
  "ConfigToState cfg =
     \<lparr>wz_config_dir = [], wz_interface = sc_interface (fc_server cfg), wz_server_ip = [],
      wz_data_dir = sc_data_dir (fc_server cfg),
      wz_dhcp_enabled = dp_enabled (fc_dhcp_proxy cfg), wz_dhcp_port = dp_port (fc_dhcp_proxy cfg),
      wz_dhcp_proxy_port = dp_proxy_port (fc_dhcp_proxy cfg),
      wz_tftp_enabled = tc_enabled (fc_tftp cfg), wz_tftp_port = tc_port (fc_tftp cfg),
      wz_http_enabled = hc_enabled (fc_http cfg), wz_http_port = hc_port (fc_http cfg),
      wz_download_ipxe = False, wz_ipxe_variant = IPXEVariantFull, wz_ipxe_base_url = DefaultIPXEBaseURL,
      wz_ipxe_archs = archs_of_bootloader (fc_bootloader cfg), wz_bootloader_dir = bl_dir (fc_bootloader cfg),
      wz_netboot_mode = [], wz_netboot_base_url = [], wz_netboot_dir = [],
      wz_menus = map state_of_menu (fc_menus cfg), wz_clients = map state_of_client (fc_clients cfg)\<rparr>"

section \<open>Editing without a change\<close>

text \<open>What is left of a configuration that goes through the state of the wizard: what is set to a default, and
  what is dropped.\<close>

definition default_file :: "string \<Rightarrow> string \<Rightarrow> string" where
  "default_file name file = (if file = [] then [] else name)"

definition rewritten_bootloader :: "bootloader_config \<Rightarrow> bootloader_config" where
  "rewritten_bootloader bl =
     \<lparr>bl_dir = bl_dir bl, bl_uefix64 = default_file ''ipxe.efi'' (bl_uefix64 bl),
      bl_uefix86 = default_file ''ipxe-i386.efi'' (bl_uefix86 bl), bl_bios = default_file ''undionly.kpxe'' (bl_bios bl),
      bl_arm64 = default_file ''ipxe-arm64.efi'' (bl_arm64 bl),
      bl_chain_url = ''http://${server_ip}:${http_port}/boot/${mac}/menu.ipxe''\<rparr>"

definition rewritten_menu :: "menu_entry \<Rightarrow> menu_entry" where
  "rewritten_menu m =
     m\<lparr>me_description := [], me_source := [], me_http := (me_http m)\<lparr>mh_upstream := []\<rparr>,
       me_boot := (me_boot m)\<lparr>bp_loader := [], bp_files := [], bp_binary := [], bp_image := []\<rparr>\<rparr>"

definition rewritten_client :: "client \<Rightarrow> client" where
  "rewritten_client c = c\<lparr>cl_bootloader := None, cl_vars := None, cl_enabled := True, cl_source := []\<rparr>"

definition rewritten_config :: "full_config \<Rightarrow> full_config" where
  "rewritten_config cfg =
     cfg\<lparr>fc_server := (fc_server cfg)\<lparr>sc_logging := \<lparr>lc_level = ''info'', lc_format = ''pretty''\<rparr>\<rparr>,
       fc_dhcp_proxy := (fc_dhcp_proxy cfg)\<lparr>dp_vendor_class := []\<rparr>,
       fc_tftp := (fc_tftp cfg)\<lparr>tc_block_size := 512, tc_timeout := 5000000000, tc_retries := 0\<rparr>,
       fc_http := (fc_http cfg)\<lparr>hc_read_timeout := 30000000000, hc_tls := \<lparr>tls_enabled = False, tls_cert = [], tls_key = []\<rparr>\<rparr>,
       fc_health := \<lparr>he_enabled = True, he_interval = 30000000000, he_startup_check = True\<rparr>,
       fc_bootloader := rewritten_bootloader (fc_bootloader cfg),
       fc_menus := map rewritten_menu (fc_menus cfg),
       fc_clients := map rewritten_client (fc_clients cfg)\<rparr>"

lemma fold_archs_of_bootloader:
  "fold set_arch_file (archs_of_bootloader bl)
     \<lparr>bl_dir = d, bl_uefix64 = [], bl_uefix86 = [], bl_bios = [], bl_arm64 = [], bl_chain_url = u\<rparr> =
   \<lparr>bl_dir = d, bl_uefix64 = default_file ''ipxe.efi'' (bl_uefix64 bl),
      bl_uefix86 = default_file ''ipxe-i386.efi'' (bl_uefix86 bl), bl_bios = default_file ''undionly.kpxe'' (bl_bios bl),
      bl_arm64 = default_file ''ipxe-arm64.efi'' (bl_arm64 bl), bl_chain_url = u\<rparr>"
  by (simp add: archs_of_bootloader_def set_arch_file_def default_file_def)

lemma menu_of_state_of_menu:
  assumes "\<forall>i. me_type m \<noteq> MenuTypeOther i"
  shows "menu_of_state (state_of_menu m) = rewritten_menu m"
proof -
  have "(case ParseMenuType (menu_type_string (me_type m)) of Inr t \<Rightarrow> t | Inl _ \<Rightarrow> MenuInstall) = me_type m"
    using assms by (cases "me_type m") (simp_all del: menu_type_string.simps)
  then show ?thesis
    by (simp add: menu_of_state_def state_of_menu_def rewritten_menu_def empty_boot_params_def)
qed

lemma client_of_state_of_client:
  assumes "cl_mac c = Some bs" and "mac_len_ok (length bs)"
  shows "client_of_state (state_of_client c) = rewritten_client c"
proof -
  have "ParseMAC ''*'' = Inr WildcardMAC" by code_simp
  then have "ParseMAC (wc_mac (state_of_client c)) = Inr (cl_mac c)"
    using assms ParseMAC_bytes_string [of bs]
    by (auto simp: state_of_client_def client_is_wildcard_iff)
  then show ?thesis
    by (simp add: client_of_state_def rewritten_client_def) (simp add: state_of_client_def)
qed

text \<open>C35 (wizard_edit_keeps). Editing a configuration without a change keeps the interface, the data
  directory, the ports, what is enabled, the names, labels and types of the menu entries with kernel, initrd, command
  line, chain target and HTTP location, and the address, name and menu of every client. Everything else
  is lost: logging, timeouts, TLS and health settings are the defaults, the boot loader files and the chain URL
  the standard ones, and descriptions, binaries, images and further files of the entries and the variables and boot
  loader overrides of the clients are dropped; a disabled client is enabled.\<close>

theorem wizard_edit_keeps:
  assumes "\<forall>m \<in> set (fc_menus cfg). \<forall>i. me_type m \<noteq> MenuTypeOther i"
    and "\<forall>c \<in> set (fc_clients cfg). \<exists>bs. cl_mac c = Some bs \<and> mac_len_ok (length bs)"
  shows "StateToConfig (ConfigToState cfg) = rewritten_config cfg"
proof -
  have "map (\<lambda>m. menu_of_state (state_of_menu m)) (fc_menus cfg) = map rewritten_menu (fc_menus cfg)"
    using assms(1) by (intro map_cong [OF refl] menu_of_state_of_menu) blast
  moreover have "map (\<lambda>c. client_of_state (state_of_client c)) (fc_clients cfg) = map rewritten_client (fc_clients cfg)"
    using assms(2) by (intro map_cong [OF refl]) (blast intro: client_of_state_of_client)
  ultimately show ?thesis
    by (simp add: StateToConfig_def ConfigToState_def rewritten_config_def rewritten_bootloader_def comp_def
        fold_archs_of_bootloader)
qed

text \<open>A valid configuration with a tool that is a binary, which the wizard makes invalid.\<close>

definition tool_config :: full_config where
  "tool_config = sample_full_config
     \<lparr>fc_menus := [\<lparr>me_name = ''local'', me_label = ''Tool'', me_description = ''d'', me_type = MenuTool,
        me_http = empty_menu_http, me_boot = empty_boot_params\<lparr>bp_binary := ''memtest.bin''\<rparr>, me_source = ''a.toml''\<rparr>]\<rparr>"

theorem wizard_edit_keeps_witness:
  "StateToConfig (ConfigToState tool_config) = rewritten_config tool_config \<and>
   full_config_validate tool_config = None \<and> full_config_validate (rewritten_config tool_config) \<noteq> None"
proof (intro conjI)
  show "StateToConfig (ConfigToState tool_config) = rewritten_config tool_config"
  proof (rule wizard_edit_keeps)
    have "cl_mac c = Some [0, 0, 0, 0, 0, 0]" if "c \<in> set (fc_clients tool_config)" for c
      using that by (simp add: tool_config_def sample_full_config_def WildcardMAC_def)
    moreover have "mac_len_ok (length [0, 0, 0, 0, 0, 0 :: byte])" by (simp add: mac_len_ok_def)
    ultimately show "\<forall>c \<in> set (fc_clients tool_config). \<exists>bs. cl_mac c = Some bs \<and> mac_len_ok (length bs)" by blast
  qed (simp add: tool_config_def)
  show "full_config_validate tool_config = None"
    by (simp add: tool_config_def sample_full_config_def empty_full_config_def validates bootable_def empty_boot_params_def port_ok_def WildcardMAC_def)
  show "full_config_validate (rewritten_config tool_config) \<noteq> None"
    by (simp add: tool_config_def validates rewritten_config_def rewritten_menu_def bootable_def empty_boot_params_def)
qed

end
