(* ===== verification/WizardSteps.thy ===== *)
theory WizardSteps
  imports Wizard
begin

text \<open>
  The dialogue of the setup wizard: \<open>internal/ui/cli/wizard/prompt.go\<close> and \<open>steps.go\<close>. The form
  library is not part of the repository: the record \<open>form_lib\<close>, over a type \<open>'u\<close> of
  the user's side, is an argument of the definitions, and \<open>form_lib_ok\<close> is what its documentation
  says. A dialogue is a function on the user's side; its result is \<^const>\<open>None\<close> where
  a loop of questions does not end. Output to the terminal is left out.
\<close>

section \<open>Dialogues\<close>

datatype dialog_error = FormError string | DialogPanic

type_synonym ('u, 'a) dialog = "'u \<Rightarrow> ((dialog_error + 'a) \<times> 'u) option"

definition dlg_return :: "'a \<Rightarrow> ('u, 'a) dialog" where
  "dlg_return a u = Some (Inr a, u)"

definition dlg_panic :: "('u, 'a) dialog" where
  "dlg_panic u = Some (Inl DialogPanic, u)"

definition dlg_bind :: "('u, 'a) dialog \<Rightarrow> ('a \<Rightarrow> ('u, 'b) dialog) \<Rightarrow> ('u, 'b) dialog" where
  "dlg_bind m f u =
     Option.bind (m u) (\<lambda>(r, u'). case r of Inl e \<Rightarrow> Some (Inl e, u') | Inr a \<Rightarrow> f a u')"

text \<open>A loop: the body returns the new state and whether the loop goes on.\<close>

partial_function (option) dlg_loop ::
  "('s \<Rightarrow> ('u, 's \<times> bool) dialog) \<Rightarrow> 's \<Rightarrow> 'u \<Rightarrow> ((dialog_error + 's) \<times> 'u) option" where
  "dlg_loop body s u =
     Option.bind (body s u) (\<lambda>(r, u').
       case r of
         Inl e \<Rightarrow> Some (Inl e, u')
       | Inr (s', continue) \<Rightarrow> if continue then dlg_loop body s' u' else Some (Inr s', u'))"

declare dlg_loop.simps [code]

section \<open>Prompts\<close>

text \<open>The questions of the form library: a text with its initial value and the validator, a choice of yes or
  no, one of several labels with the initial choice, some of several labels with the initial marks.\<close>

record 'u form_lib =
  fl_input :: "string \<Rightarrow> string \<Rightarrow> (string \<Rightarrow> bool) \<Rightarrow> 'u \<Rightarrow> (string + string) \<times> 'u"
  fl_confirm :: "string \<Rightarrow> bool \<Rightarrow> 'u \<Rightarrow> (string + bool) \<times> 'u"
  fl_select :: "string \<Rightarrow> string list \<Rightarrow> nat option \<Rightarrow> 'u \<Rightarrow> (string + nat) \<times> 'u"
  fl_multi :: "string \<Rightarrow> string list \<Rightarrow> bool list \<Rightarrow> 'u \<Rightarrow> (string + bool list) \<times> 'u"

definition Input :: "'u form_lib \<Rightarrow> string \<Rightarrow> string \<Rightarrow> string \<Rightarrow> (string \<Rightarrow> bool) \<Rightarrow> ('u, string) dialog" where
  "Input lib title default_val val valid u =
     (let (r, u') = fl_input lib title (if val = [] \<and> default_val \<noteq> [] then default_val else val) valid u
      in Some (wrap_error FormError r, u'))"

definition Confirm :: "'u form_lib \<Rightarrow> string \<Rightarrow> bool \<Rightarrow> ('u, bool) dialog" where
  "Confirm lib title val u =
     (let (r, u') = fl_confirm lib title val u in Some (wrap_error FormError r, u'))"

fun index_where :: "('a \<Rightarrow> bool) \<Rightarrow> 'a list \<Rightarrow> nat option" where
  "index_where P [] = None"
| "index_where P (x # xs) = (if P x then Some 0 else map_option Suc (index_where P xs))"

type_synonym 'v choices = "(string \<times> 'v) list"

definition Select :: "'u form_lib \<Rightarrow> string \<Rightarrow> 'v choices \<Rightarrow> 'v \<Rightarrow> ('u, 'v) dialog" where
  "Select lib title opts val u =
     (let (r, u') = fl_select lib title (map fst opts) (index_where (\<lambda>o'. snd o' = val) opts) u
      in Some (case r of
          Inl e \<Rightarrow> Inl (FormError e)
        | Inr i \<Rightarrow> Inr (if i < length opts then snd (opts ! i) else val), u'))"

definition MultiSelect :: "'u form_lib \<Rightarrow> string \<Rightarrow> 'v choices \<Rightarrow> 'v list \<Rightarrow> ('u, 'v list) dialog" where
  "MultiSelect lib title opts vals u =
     (let (r, u') = fl_multi lib title (map fst opts) (map (\<lambda>o'. snd o' \<in> set vals) opts) u
      in Some (case r of
          Inl e \<Rightarrow> Inl (FormError e)
        | Inr marks \<Rightarrow> Inr (map (snd \<circ> fst) (filter snd (zip opts marks))), u'))"

text \<open>The validators.\<close>

definition non_empty :: "string \<Rightarrow> bool" where
  "non_empty v \<longleftrightarrow> v \<noteq> []"

definition slug :: "string \<Rightarrow> bool" where
  "slug v \<longleftrightarrow> v \<noteq> [] \<and> \<not> contains_str v '' ''"

definition valid_mac :: "string \<Rightarrow> bool" where
  "valid_mac v \<longleftrightarrow> \<not> isl (ParseMAC v)"

definition non_negative :: "string \<Rightarrow> bool" where
  "non_negative v = (case go_atoi v of None \<Rightarrow> False | Some n \<Rightarrow> \<not> n < 0)"

definition port_number :: "string \<Rightarrow> bool" where
  "port_number v = (case go_atoi v of None \<Rightarrow> False | Some n \<Rightarrow> \<not> (n < 1 \<or> n > 65535))"

definition any_text :: "string \<Rightarrow> bool" where
  "any_text v = True"

text \<open>A number after its validation; the code ignores the error of the second conversion.\<close>

definition parsed_number :: "string \<Rightarrow> int" where
  "parsed_number v = (case go_atoi v of Some n \<Rightarrow> n | None \<Rightarrow> 0)"

definition input_port :: "'u form_lib \<Rightarrow> string \<Rightarrow> int \<Rightarrow> ('u, int) dialog" where
  "input_port lib title port =
     dlg_bind (Input lib title (dec_of_int port) (dec_of_int port) port_number) (\<lambda>port_str.
     dlg_return (parsed_number port_str))"

section \<open>Server, boot loader and services\<close>

definition step_interface ::
  "'u form_lib \<Rightarrow> string + net_iface list \<Rightarrow> wizard_state \<Rightarrow> ('u, wizard_state) dialog" where
  "step_interface lib interfaces s =
     (let manual = dlg_bind (Input lib ''Network interface'' ''eth0'' (wz_interface s) non_empty) (\<lambda>v.
            dlg_return (s\<lparr>wz_interface := v\<rparr>))
      in case DetectInterfaces interfaces of
        Inl _ \<Rightarrow> manual
      | Inr ifaces \<Rightarrow>
          if ifaces = [] then manual
          else
            let opts = map (\<lambda>iface. (iface_label iface, nf_name iface)) ifaces;
                current = (if wz_interface s = [] then nf_name (hd ifaces) else wz_interface s)
            in dlg_bind (Select lib ''Network interface'' opts current) (\<lambda>v.
               dlg_return (s\<lparr>wz_interface := v,
                 wz_server_ip := (case find (\<lambda>iface. nf_name iface = v) ifaces of
                     Some iface \<Rightarrow> nf_ip iface | None \<Rightarrow> wz_server_ip s)\<rparr>)))"

definition step_data_dir :: "'u form_lib \<Rightarrow> wizard_state \<Rightarrow> ('u, wizard_state) dialog" where
  "step_data_dir lib s =
     dlg_bind (Input lib ''Data directory (boot files, etc.)'' ''./data'' (wz_data_dir s) non_empty) (\<lambda>v.
     dlg_return (s\<lparr>wz_data_dir := v\<rparr>))"

definition variant_options :: "string choices" where
  "variant_options =
     [(''Full (recommended, better hardware support)'', IPXEVariantFull),
      (''SNP Only (minimal, smaller download)'', IPXEVariantSNPOnly)]"

definition arch_options :: "string choices" where
  "arch_options =
     [(''UEFI x64'', ''uefi_x64''), (''UEFI x86'', ''uefi_x86''), (''BIOS (Legacy)'', ''bios''), (''ARM64'', ''arm64'')]"

definition step_bootloader :: "'u form_lib \<Rightarrow> wizard_state \<Rightarrow> ('u, wizard_state) dialog" where
  "step_bootloader lib s =
     dlg_bind (Confirm lib ''Download iPXE bootloader files?'' True) (\<lambda>download.
     let s1 = s\<lparr>wz_download_ipxe := download\<rparr> in
     if \<not> download then dlg_return s1
     else
       dlg_bind (Select lib ''iPXE build variant'' variant_options (wz_ipxe_variant s1)) (\<lambda>variant.
       let archs0 = (if wz_ipxe_archs s1 = [] then [''uefi_x64'', ''bios''] else wz_ipxe_archs s1) in
       dlg_bind (MultiSelect lib ''Architectures to download'' arch_options archs0) (\<lambda>archs.
       dlg_bind (Input lib ''iPXE download base URL'' DefaultIPXEBaseURL (wz_ipxe_base_url s1) non_empty) (\<lambda>url.
       dlg_return (s1\<lparr>wz_ipxe_variant := variant, wz_ipxe_archs := archs, wz_ipxe_base_url := url\<rparr>)))))"

text \<open>A service: whether it is enabled and, where it is, its ports.\<close>

definition services_dhcp :: "'u form_lib \<Rightarrow> wizard_state \<Rightarrow> ('u, wizard_state) dialog" where
  "services_dhcp lib s =
     dlg_bind (Confirm lib ''Enable DHCP proxy?'' (wz_dhcp_enabled s)) (\<lambda>enabled.
     let s1 = s\<lparr>wz_dhcp_enabled := enabled\<rparr> in
     if \<not> enabled then dlg_return s1
     else
       dlg_bind (input_port lib ''DHCP port'' (wz_dhcp_port s1)) (\<lambda>p.
       dlg_bind (input_port lib ''DHCP proxy port (PXE option 43/60)'' (wz_dhcp_proxy_port s1)) (\<lambda>q.
       dlg_return (s1\<lparr>wz_dhcp_port := p, wz_dhcp_proxy_port := q\<rparr>))))"

definition services_tftp :: "'u form_lib \<Rightarrow> wizard_state \<Rightarrow> ('u, wizard_state) dialog" where
  "services_tftp lib s =
     dlg_bind (Confirm lib ''Enable TFTP server?'' (wz_tftp_enabled s)) (\<lambda>enabled.
     let s1 = s\<lparr>wz_tftp_enabled := enabled\<rparr> in
     if \<not> enabled then dlg_return s1
     else dlg_bind (input_port lib ''TFTP port'' (wz_tftp_port s1)) (\<lambda>p. dlg_return (s1\<lparr>wz_tftp_port := p\<rparr>)))"

definition services_http :: "'u form_lib \<Rightarrow> wizard_state \<Rightarrow> ('u, wizard_state) dialog" where
  "services_http lib s =
     dlg_bind (Confirm lib ''Enable HTTP server?'' (wz_http_enabled s)) (\<lambda>enabled.
     let s1 = s\<lparr>wz_http_enabled := enabled\<rparr> in
     if \<not> enabled then dlg_return s1
     else dlg_bind (input_port lib ''HTTP port'' (wz_http_port s1)) (\<lambda>p. dlg_return (s1\<lparr>wz_http_port := p\<rparr>)))"

definition step_services :: "'u form_lib \<Rightarrow> wizard_state \<Rightarrow> ('u, wizard_state) dialog" where
  "step_services lib s = dlg_bind (services_dhcp lib s) (\<lambda>s1. dlg_bind (services_tftp lib s1) (services_http lib))"

section \<open>The entry for netboot.xyz\<close>

definition detect_netboot :: "wizard_state \<Rightarrow> string" where
  "detect_netboot s =
     (case find (\<lambda>m. wm_name m = ''netboot-xyz'' \<and> wm_type m = ''chain'') (wz_menus s) of
        None \<Rightarrow> wz_netboot_mode s
      | Some m \<Rightarrow>
          if contains_str (wm_chain m) ''boot.netboot.xyz'' then NetbootRemote
          else if wm_chain m \<noteq> [] then NetbootSelfHosted
          else wz_netboot_mode s)"

definition netboot_options :: "string choices" where
  "netboot_options =
     [(''Remote (chain to boot.netboot.xyz, requires internet)'', NetbootRemote),
      (''Self-hosted (download files, serve locally)'', NetbootSelfHosted), (''Skip'', NetbootSkip)]"

text \<open>The entries of every client without a name.\<close>

definition drop_entry :: "string \<Rightarrow> client_state \<Rightarrow> client_state" where
  "drop_entry name c = c\<lparr>wc_entries := filter (\<lambda>e. e \<noteq> name) (wc_entries c)\<rparr>"

definition remove_netboot :: "wizard_state \<Rightarrow> wizard_state" where
  "remove_netboot s =
     s\<lparr>wz_menus := filter (\<lambda>m. wm_name m \<noteq> ''netboot-xyz'') (wz_menus s),
       wz_clients := map (drop_entry ''netboot-xyz'') (wz_clients s)\<rparr>"

definition add_netboot_to_clients :: "wizard_state \<Rightarrow> wizard_state" where
  "add_netboot_to_clients s =
     s\<lparr>wz_clients := map (\<lambda>c. c\<lparr>wc_entries := wc_entries c @ [''netboot-xyz'']\<rparr>) (wz_clients s)\<rparr>"

definition remote_entry :: menu_state where
  "remote_entry = empty_menu_state\<lparr>wm_name := ''netboot-xyz'', wm_label := ''netboot.xyz'', wm_type := ''chain'',
     wm_chain := ''https://boot.netboot.xyz''\<rparr>"

definition self_hosted_entry :: menu_state where
  "self_hosted_entry = empty_menu_state\<lparr>wm_name := ''netboot-xyz'', wm_label := ''netboot.xyz (local)'', wm_type := ''chain'',
     wm_chain := ''http://${server_ip}:${http_port}/netboot/netboot.xyz.lkrn'',
     wm_http_path := ''/netboot/'', wm_http_files := ''netboot/''\<rparr>"

definition step_netboot :: "'u form_lib \<Rightarrow> wizard_state \<Rightarrow> ('u, wizard_state) dialog" where
  "step_netboot lib s =
     dlg_bind (Select lib ''Add netboot.xyz to your boot menu?'' netboot_options (detect_netboot s)) (\<lambda>mode.
     let s1 = remove_netboot (s\<lparr>wz_netboot_mode := mode\<rparr>) in
     if mode = NetbootRemote then
       dlg_return (add_netboot_to_clients (s1\<lparr>wz_menus := wz_menus s1 @ [remote_entry]\<rparr>))
     else if mode = NetbootSelfHosted then
       dlg_bind (Input lib ''netboot.xyz download URL'' DefaultNetbootBaseURL (wz_netboot_base_url s1) non_empty) (\<lambda>url.
       dlg_return (add_netboot_to_clients
         (s1\<lparr>wz_netboot_base_url := url, wz_menus := wz_menus s1 @ [self_hosted_entry]\<rparr>)))
     else dlg_return s1)"

section \<open>Menu entries\<close>

definition type_options :: "string choices" where
  "type_options =
     [(''Install (full OS installation)'', ''install''), (''Live (RAM-based live system)'', ''live''),
      (''Tool (diagnostic/utility)'', ''tool''), (''Chain (chainload external iPXE menu)'', ''chain''),
      (''Exit (boot from local disk)'', ''exit'')]"

text \<open>The questions for a kernel, with the defaults of a new or of an edited entry.\<close>

definition prompt_kernel ::
  "'u form_lib \<Rightarrow> string \<Rightarrow> string \<Rightarrow> string \<Rightarrow> string \<Rightarrow> menu_state \<Rightarrow> ('u, menu_state) dialog" where
  "prompt_kernel lib kern initrd cmdline path m =
     dlg_bind (Input lib ''Kernel filename'' kern (wm_kernel m) any_text) (\<lambda>k.
     dlg_bind (Input lib ''Initrd filename'' initrd (wm_initrd m) any_text) (\<lambda>i.
     dlg_bind (Input lib ''Kernel command line (optional)'' cmdline (wm_cmdline m) any_text) (\<lambda>c.
     dlg_bind (Input lib ''HTTP path prefix (e.g. /installers/ubuntu/)'' path (wm_http_path m) any_text) (\<lambda>h.
     dlg_return (m\<lparr>wm_kernel := k, wm_initrd := i, wm_cmdline := c, wm_http_path := h\<rparr>)))))"

definition prompt_menu_entry :: "'u form_lib \<Rightarrow> ('u, menu_state) dialog" where
  "prompt_menu_entry lib =
     dlg_bind (Input lib ''Menu name (slug)'' ''ubuntu-install'' [] slug) (\<lambda>name.
     dlg_bind (Input lib ''Menu label (display text)'' ''Ubuntu 24.04 Install'' [] non_empty) (\<lambda>label.
     dlg_bind (Select lib ''Menu type'' type_options ''install'') (\<lambda>mtype.
     let m = empty_menu_state\<lparr>wm_name := name, wm_label := label, wm_type := mtype\<rparr> in
     if mtype = ''chain'' then
       dlg_bind (Input lib ''Chain URL'' ''https://boot.netboot.xyz'' (wm_chain m) non_empty) (\<lambda>url.
       dlg_return (m\<lparr>wm_chain := url\<rparr>))
     else if mtype \<noteq> ''exit'' then prompt_kernel lib ''vmlinuz'' ''initrd'' [] [] m
     else dlg_return m)))"

definition prompt_menu_entry_edit :: "'u form_lib \<Rightarrow> menu_state \<Rightarrow> ('u, menu_state) dialog" where
  "prompt_menu_entry_edit lib m0 =
     dlg_bind (Input lib ''Menu name (slug)'' (wm_name m0) (wm_name m0) slug) (\<lambda>name.
     dlg_bind (Input lib ''Menu label (display text)'' (wm_label m0) (wm_label m0) non_empty) (\<lambda>label.
     dlg_bind (Select lib ''Menu type'' type_options (wm_type m0)) (\<lambda>mtype.
     let m = m0\<lparr>wm_name := name, wm_label := label, wm_type := mtype\<rparr> in
     if mtype = ''chain'' then
       dlg_bind (Input lib ''Chain URL'' (wm_chain m) (wm_chain m) non_empty) (\<lambda>url.
       dlg_return (m\<lparr>wm_chain := url, wm_kernel := [], wm_initrd := [], wm_cmdline := []\<rparr>))
     else if mtype \<noteq> ''exit'' then
       dlg_bind (prompt_kernel lib (wm_kernel m) (wm_initrd m) (wm_cmdline m) (wm_http_path m) m) (\<lambda>m.
       dlg_return (m\<lparr>wm_chain := []\<rparr>))
     else dlg_return (m\<lparr>wm_kernel := [], wm_initrd := [], wm_cmdline := [], wm_chain := []\<rparr>))))"

definition step_menus :: "'u form_lib \<Rightarrow> wizard_state \<Rightarrow> ('u, wizard_state) dialog" where
  "step_menus lib =
     dlg_loop (\<lambda>s.
       dlg_bind (Confirm lib ''Add a boot menu entry?'' False) (\<lambda>add.
       if \<not> add then dlg_return (s, False)
       else dlg_bind (prompt_menu_entry lib) (\<lambda>m. dlg_return (s\<lparr>wz_menus := wz_menus s @ [m]\<rparr>, True))))"

datatype menu_action = MenuAdd | MenuEdit | MenuRemove | MenuDone

definition menu_label :: "menu_state \<Rightarrow> string" where
  "menu_label m = wm_name m @ '' ('' @ wm_type m @ ''): '' @ wm_label m"

definition menu_actions :: "wizard_state \<Rightarrow> menu_action choices" where
  "menu_actions s =
     (''Add new menu entry'', MenuAdd) #
     (if wz_menus s \<noteq> [] then [(''Edit existing menu entry'', MenuEdit), (''Remove menu entry'', MenuRemove)] else []) @
     [(''Done'', MenuDone)]"

text \<open>A new name of an entry is carried over to the clients.\<close>

definition rename_entry :: "string \<Rightarrow> string \<Rightarrow> client_state \<Rightarrow> client_state" where
  "rename_entry old_name new_name c =
     c\<lparr>wc_entries := map (\<lambda>e. if e = old_name then new_name else e) (wc_entries c),
       wc_default := (if wc_default c = old_name then new_name else wc_default c)\<rparr>"

definition edit_menu :: "'u form_lib \<Rightarrow> wizard_state \<Rightarrow> ('u, wizard_state) dialog" where
  "edit_menu lib s =
     dlg_bind (Select lib ''Which menu entry to edit?'' (map (\<lambda>i. (menu_label (wz_menus s ! i), i)) [0..<length (wz_menus s)]) 0) (\<lambda>idx.
     if \<not> idx < length (wz_menus s) then dlg_panic
     else
       let old_name = wm_name (wz_menus s ! idx) in
       dlg_bind (prompt_menu_entry_edit lib (wz_menus s ! idx)) (\<lambda>m.
       let s1 = s\<lparr>wz_menus := (wz_menus s)[idx := m]\<rparr> in
       dlg_return (if old_name \<noteq> wm_name m
         then s1\<lparr>wz_clients := map (rename_entry old_name (wm_name m)) (wz_clients s1)\<rparr> else s1)))"

definition forget_entry :: "string \<Rightarrow> client_state \<Rightarrow> client_state" where
  "forget_entry name c =
     (let c' = drop_entry name c
      in if wc_default c' = name then c'\<lparr>wc_default := []\<rparr> else c')"

definition remove_at :: "nat \<Rightarrow> 'a list \<Rightarrow> 'a list" where
  "remove_at i xs = take i xs @ drop (Suc i) xs"

definition remove_menu :: "'u form_lib \<Rightarrow> wizard_state \<Rightarrow> ('u, wizard_state) dialog" where
  "remove_menu lib s =
     (let opts = map (\<lambda>i. (menu_label (wz_menus s ! i), i))
            (filter (\<lambda>i. wm_name (wz_menus s ! i) \<noteq> ''local-disk'') [0..<length (wz_menus s)])
      in if opts = [] then dlg_return s
         else
           dlg_bind (Select lib ''Which menu entry to remove?'' opts (snd (hd opts))) (\<lambda>idx.
           let removed = wm_name (wz_menus s ! idx) in
           dlg_bind (Confirm lib (''Remove \"'' @ removed @ ''\"?'') False) (\<lambda>confirm.
           dlg_return (if \<not> confirm then s
             else s\<lparr>wz_menus := remove_at idx (wz_menus s),
                    wz_clients := map (forget_entry removed) (wz_clients s)\<rparr>))))"

definition step_menus_edit :: "'u form_lib \<Rightarrow> wizard_state \<Rightarrow> ('u, wizard_state) dialog" where
  "step_menus_edit lib =
     dlg_loop (\<lambda>s.
       dlg_bind (Select lib ''What would you like to do?'' (menu_actions s) MenuDone) (\<lambda>action.
       case action of
         MenuAdd \<Rightarrow> dlg_bind (prompt_menu_entry lib) (\<lambda>m. dlg_return (s\<lparr>wz_menus := wz_menus s @ [m]\<rparr>, True))
       | MenuEdit \<Rightarrow> dlg_bind (edit_menu lib s) (\<lambda>s'. dlg_return (s', True))
       | MenuRemove \<Rightarrow> dlg_bind (remove_menu lib s) (\<lambda>s'. dlg_return (s', True))
       | MenuDone \<Rightarrow> dlg_return (s, False)))"

section \<open>Clients\<close>

definition entry_options :: "string list \<Rightarrow> string choices" where
  "entry_options names = map (\<lambda>n. (n, n)) names"

definition set_default_and_timeout ::
  "'u form_lib \<Rightarrow> string \<Rightarrow> string \<Rightarrow> string \<Rightarrow> client_state \<Rightarrow> ('u, client_state) dialog" where
  "set_default_and_timeout lib timeout_default timeout current c =
     dlg_bind (Select lib ''Default boot entry'' (entry_options (wc_entries c)) current) (\<lambda>d.
     dlg_bind (Input lib ''Boot timeout (seconds, 0 = wait forever)'' timeout_default timeout non_negative) (\<lambda>t.
     dlg_return (c\<lparr>wc_default := d, wc_timeout := parsed_number t\<rparr>)))"

definition prompt_client :: "'u form_lib \<Rightarrow> string choices \<Rightarrow> ('u, client_state) dialog" where
  "prompt_client lib menu_opts =
     dlg_bind (Input lib ''MAC address'' ''aa:bb:cc:dd:ee:ff'' [] valid_mac) (\<lambda>mac.
     dlg_bind (Input lib ''Hostname'' ''server-1'' [] non_empty) (\<lambda>name.
     dlg_bind (MultiSelect lib ''Menu entries'' menu_opts []) (\<lambda>entries.
     let c = empty_client_state\<lparr>wc_mac := mac, wc_name := name, wc_entries := entries\<rparr> in
     if length entries > 1 then set_default_and_timeout lib ''30'' ''30'' (wc_default c) c
     else dlg_return c)))"

definition prompt_client_edit :: "'u form_lib \<Rightarrow> string choices \<Rightarrow> client_state \<Rightarrow> ('u, client_state) dialog" where
  "prompt_client_edit lib menu_opts c0 =
     dlg_bind (Input lib ''Hostname'' (wc_name c0) (wc_name c0) non_empty) (\<lambda>name.
     dlg_bind (MultiSelect lib ''Menu entries'' menu_opts (wc_entries c0)) (\<lambda>entries.
     let c = c0\<lparr>wc_name := name, wc_entries := entries\<rparr> in
     if length entries > 1 then
       let current = (if list_ex (\<lambda>e. e = wc_default c) entries then wc_default c else hd entries);
           timeout = dec_of_int (wc_timeout c)
       in set_default_and_timeout lib timeout timeout current c
     else dlg_return (c\<lparr>wc_default := [], wc_timeout := 0\<rparr>)))"

definition ends_with_wildcard :: "client_state list \<Rightarrow> bool" where
  "ends_with_wildcard cs \<longleftrightarrow> cs \<noteq> [] \<and> wc_mac (last cs) = ''*''"

text \<open>The menu entries of the client for all other machines, which comes last.\<close>

definition configure_wildcard :: "'u form_lib \<Rightarrow> wizard_state \<Rightarrow> ('u, wizard_state) dialog" where
  "configure_wildcard lib s =
     (if ends_with_wildcard (wz_clients s) then
        let wildcard = last (wz_clients s) in
        dlg_bind (MultiSelect lib ''Menu entries for default client'' (entry_options (MenuNames s)) (wc_entries wildcard)) (\<lambda>entries.
        dlg_return (s\<lparr>wz_clients := butlast (wz_clients s) @ [wildcard\<lparr>wc_entries := entries\<rparr>]\<rparr>))
      else dlg_return s)"

text \<open>Inserting before the last client panics where there is none.\<close>

definition step_clients :: "'u form_lib \<Rightarrow> wizard_state \<Rightarrow> ('u, wizard_state) dialog" where
  "step_clients lib s0 =
     (let menu_opts = entry_options (MenuNames s0) in
      dlg_bind (configure_wildcard lib s0) (dlg_loop (\<lambda>s.
        dlg_bind (Confirm lib ''Add a specific client (by MAC)?'' False) (\<lambda>add.
        if \<not> add then dlg_return (s, False)
        else
          dlg_bind (prompt_client lib menu_opts) (\<lambda>c.
          if wz_clients s = [] then dlg_panic
          else dlg_return (s\<lparr>wz_clients := butlast (wz_clients s) @ [c, last (wz_clients s)]\<rparr>, True))))))"

datatype client_action = ClientAdd | ClientEdit | ClientRemove | ClientDone

definition client_label :: "client_state \<Rightarrow> string" where
  "client_label c = wc_name c @ '' ('' @ wc_mac c @ '')''"

definition client_actions :: "wizard_state \<Rightarrow> client_action choices" where
  "client_actions s =
     (''Add new client'', ClientAdd) #
     (if wz_clients s \<noteq> [] then [(''Edit existing client'', ClientEdit)] else []) @
     (if list_ex (\<lambda>c. wc_mac c \<noteq> ''*'') (wz_clients s) then [(''Remove client'', ClientRemove)] else []) @
     [(''Done'', ClientDone)]"

definition insert_client :: "client_state \<Rightarrow> client_state list \<Rightarrow> client_state list" where
  "insert_client c cs = (if ends_with_wildcard cs then butlast cs @ [c, last cs] else cs @ [c])"

definition edit_client :: "'u form_lib \<Rightarrow> wizard_state \<Rightarrow> ('u, wizard_state) dialog" where
  "edit_client lib s =
     dlg_bind (Select lib ''Which client to edit?'' (map (\<lambda>i. (client_label (wz_clients s ! i), i)) [0..<length (wz_clients s)]) 0) (\<lambda>idx.
     if \<not> idx < length (wz_clients s) then dlg_panic
     else
       dlg_bind (prompt_client_edit lib (entry_options (MenuNames s)) (wz_clients s ! idx)) (\<lambda>c.
       dlg_return (s\<lparr>wz_clients := (wz_clients s)[idx := c]\<rparr>)))"

definition remove_client :: "'u form_lib \<Rightarrow> wizard_state \<Rightarrow> ('u, wizard_state) dialog" where
  "remove_client lib s =
     (let opts = map (\<lambda>i. (client_label (wz_clients s ! i), i))
            (filter (\<lambda>i. wc_mac (wz_clients s ! i) \<noteq> ''*'') [0..<length (wz_clients s)])
      in if opts = [] then dlg_return s
         else
           dlg_bind (Select lib ''Which client to remove?'' opts (snd (hd opts))) (\<lambda>idx.
           let c = wz_clients s ! idx in
           dlg_bind (Confirm lib (''Remove \"'' @ wc_name c @ ''\" ('' @ wc_mac c @ '')?'') False) (\<lambda>confirm.
           dlg_return (if \<not> confirm then s else s\<lparr>wz_clients := remove_at idx (wz_clients s)\<rparr>))))"

definition step_clients_edit :: "'u form_lib \<Rightarrow> wizard_state \<Rightarrow> ('u, wizard_state) dialog" where
  "step_clients_edit lib =
     dlg_loop (\<lambda>s.
       dlg_bind (Select lib ''What would you like to do?'' (client_actions s) ClientDone) (\<lambda>action.
       case action of
         ClientAdd \<Rightarrow>
           dlg_bind (prompt_client lib (entry_options (MenuNames s))) (\<lambda>c.
           dlg_return (s\<lparr>wz_clients := insert_client c (wz_clients s)\<rparr>, True))
       | ClientEdit \<Rightarrow> dlg_bind (edit_client lib s) (\<lambda>s'. dlg_return (s', True))
       | ClientRemove \<Rightarrow> dlg_bind (remove_client lib s) (\<lambda>s'. dlg_return (s', True))
       | ClientDone \<Rightarrow> dlg_return (s, False)))"

section \<open>The whole wizard\<close>

text \<open>The summary asks whether to write the configuration and ignores the answer.\<close>

definition step_summary :: "'u form_lib \<Rightarrow> wizard_state \<Rightarrow> ('u, wizard_state) dialog" where
  "step_summary lib s = dlg_bind (Confirm lib ''Write configuration?'' True) (\<lambda>_. dlg_return s)"

type_synonym 'u wizard_step = "wizard_state \<Rightarrow> ('u, wizard_state) dialog"

definition wizard_steps :: "'u form_lib \<Rightarrow> string + net_iface list \<Rightarrow> (string \<times> 'u wizard_step) list" where
  "wizard_steps lib interfaces =
     [(''Network Interface'', step_interface lib interfaces), (''Data Directory'', step_data_dir lib),
      (''iPXE Bootloader'', step_bootloader lib), (''Services'', step_services lib), (''netboot.xyz'', step_netboot lib),
      (''Boot Menus'', step_menus lib), (''Clients'', step_clients lib), (''Summary'', step_summary lib)]"

datatype wizard_error =
  StepFailed string string
| WizardPanic
| FormFailed string
| CreatingConfigDir
| WritingConfig write_error

fun step_error :: "string \<Rightarrow> dialog_error \<Rightarrow> wizard_error" where
  "step_error name (FormError e) = StepFailed name e"
| "step_error name DialogPanic = WizardPanic"

fun run_steps ::
  "(string \<times> 'u wizard_step) list \<Rightarrow> wizard_state \<Rightarrow> 'u \<Rightarrow> ((wizard_error + wizard_state) \<times> 'u) option" where
  "run_steps [] s u = Some (Inr s, u)"
| "run_steps ((name, step) # steps) s u =
     Option.bind (step s u) (\<lambda>(r, u').
       case r of Inl e \<Rightarrow> Some (Inl (step_error name e), u') | Inr s' \<Rightarrow> run_steps steps s' u')"

definition wizard_downloads :: "http_get \<Rightarrow> wizard_state \<Rightarrow> string \<Rightarrow> file_system \<Rightarrow> file_system" where
  "wizard_downloads get s config_dir fs =
     (let fs1 = (if wz_download_ipxe s \<and> wz_ipxe_archs s \<noteq> []
            then snd (snd (DownloadIPXEFiles get (IPXEDownloadArchs s)
              (path_join [config_dir, wz_data_dir s, wz_bootloader_dir s]) fs))
            else fs);
          fs2 = (if wz_netboot_mode s = NetbootSelfHosted
            then snd (snd (DownloadIPXEFiles get (NetbootAssets (wz_netboot_base_url s))
              (path_join [config_dir, wz_data_dir s, wz_netboot_dir s]) fs1))
            else fs1)
      in case os_mkdir_all (path_join [config_dir, wz_data_dir s]) fs2 of Some fs3 \<Rightarrow> fs3 | None \<Rightarrow> fs2)"

definition wizard_Run ::
  "'u form_lib \<Rightarrow> string + net_iface list \<Rightarrow> (raw_file \<Rightarrow> string + string) \<Rightarrow> http_get \<Rightarrow> string \<Rightarrow> file_system \<Rightarrow> 'u \<Rightarrow>
   ((wizard_error + full_config) \<times> file_system \<times> 'u) option" where
  "wizard_Run lib interfaces marshal get config_dir fs u =
     map_option (\<lambda>(r, u').
       case r of
         Inl e \<Rightarrow> (Inl e, fs, u')
       | Inr s \<Rightarrow>
           let cfg = StateToConfig s in
           (case os_mkdir_all config_dir fs of
              None \<Rightarrow> (Inl CreatingConfigDir, fs, u')
            | Some fs1 \<Rightarrow>
                (case write_config marshal cfg config_dir fs1 of
                   Inl e \<Rightarrow> (Inl (WritingConfig e), fs1, u')
                 | Inr fs2 \<Rightarrow> (Inr cfg, wizard_downloads get s config_dir fs2, u'))))
       (run_steps (wizard_steps lib interfaces) (DefaultState\<lparr>wz_config_dir := config_dir\<rparr>) u)"

section \<open>Editing\<close>

datatype edit_section = EditServer | EditServices | EditBootloader | EditNetboot | EditMenus | EditClients | EditSave

definition edit_sections :: "edit_section choices" where
  "edit_sections =
     [(''Server (interface, data directory)'', EditServer), (''Services (DHCP, TFTP, HTTP)'', EditServices),
      (''Bootloader (iPXE files)'', EditBootloader), (''netboot.xyz'', EditNetboot), (''Menu entries'', EditMenus),
      (''Clients'', EditClients), (''Save and exit'', EditSave)]"

text \<open>A dialogue whose error the caller ignores; a panic is none of its results.\<close>

definition dlg_ignore :: "('u, 'a) dialog \<Rightarrow> ('u, unit) dialog" where
  "dlg_ignore m u = map_option (\<lambda>(r, u'). (Inr (), u')) (m u)"

text \<open>The file is saved beside before it is replaced, without regard to errors.\<close>

definition backup_config :: "string \<Rightarrow> file_system \<Rightarrow> file_system" where
  "backup_config config_dir fs =
     (let src = config_path config_dir in
      case os_read_file fs src of
        None \<Rightarrow> fs
      | Some data \<Rightarrow> (case os_write_file (src @ ''.bak'') data fs of Some fs' \<Rightarrow> fs' | None \<Rightarrow> fs))"

definition save_config ::
  "(raw_file \<Rightarrow> string + string) \<Rightarrow> string \<Rightarrow> wizard_state \<Rightarrow> file_system \<Rightarrow> (wizard_error + full_config) \<times> file_system" where
  "save_config marshal config_dir s fs =
     (let cfg = StateToConfig s; fs1 = backup_config config_dir fs in
      case write_config marshal cfg config_dir fs1 of
        Inl e \<Rightarrow> (Inl (WritingConfig e), fs1)
      | Inr fs2 \<Rightarrow> (Inr cfg, fs2))"

text \<open>The state of the loop: that of the wizard and, after saving, the outcome with the file system.\<close>

type_synonym edit_state = "wizard_state \<times> ((wizard_error + full_config) \<times> file_system) option"

definition edit_section_step ::
  "'u form_lib \<Rightarrow> string + net_iface list \<Rightarrow> (raw_file \<Rightarrow> string + string) \<Rightarrow> string \<Rightarrow> file_system \<Rightarrow>
   edit_state \<Rightarrow> ('u, edit_state \<times> bool) dialog" where
  "edit_section_step lib interfaces marshal config_dir fs st =
     (let s = fst st; go_on = (\<lambda>m. dlg_bind m (\<lambda>s'. dlg_return ((s', None), True))) in
      dlg_bind (Select lib ''What would you like to edit?'' edit_sections EditSave) (\<lambda>section.
      case section of
        EditServer \<Rightarrow> go_on (dlg_bind (step_interface lib interfaces s) (step_data_dir lib))
      | EditServices \<Rightarrow> go_on (step_services lib s)
      | EditBootloader \<Rightarrow> go_on (step_bootloader lib s)
      | EditNetboot \<Rightarrow> go_on (step_netboot lib s)
      | EditMenus \<Rightarrow> go_on (step_menus_edit lib s)
      | EditClients \<Rightarrow> go_on (step_clients_edit lib s)
      | EditSave \<Rightarrow>
          dlg_bind (dlg_ignore (step_summary lib s)) (\<lambda>_.
          dlg_bind (Confirm lib ''Save configuration?'' True) (\<lambda>write_it.
          dlg_return (if \<not> write_it then ((s, None), True)
            else ((s, Some (save_config marshal config_dir s fs)), False))))))"

fun edit_error :: "dialog_error \<Rightarrow> wizard_error" where
  "edit_error (FormError e) = FormFailed e"
| "edit_error DialogPanic = WizardPanic"

definition wizard_RunEdit ::
  "'u form_lib \<Rightarrow> string + net_iface list \<Rightarrow> (raw_file \<Rightarrow> string + string) \<Rightarrow> string \<Rightarrow> full_config \<Rightarrow> file_system \<Rightarrow> 'u \<Rightarrow>
   ((wizard_error + full_config) \<times> file_system \<times> 'u) option" where
  "wizard_RunEdit lib interfaces marshal config_dir existing fs u =
     (let s = (ConfigToState existing)\<lparr>wz_config_dir := config_dir\<rparr> in
      map_option (\<lambda>(r, u').
        case r of
          Inl e \<Rightarrow> (Inl (edit_error e), fs, u')
        | Inr (s', Some (outcome, fs')) \<Rightarrow> (outcome, fs', u')
        | Inr (s', None) \<Rightarrow> (Inl WizardPanic, fs, u'))
        (dlg_bind (dlg_ignore (step_summary lib s)) (\<lambda>_.
           dlg_loop (edit_section_step lib interfaces marshal config_dir fs) (s, None)) u))"

end
