(* ===== verification/WizardRun.thy ===== *)
theory WizardRun
  imports WizardSteps
begin

text \<open>
  What the dialogue of the setup wizard guarantees. A user who answers only finitely many questions
  before giving up is a measure \<open>left\<close> that every answer decreases. The predicate \<open>dlg_ok\<close>
  says that a dialogue ends without a panic, with a result of which something is known; it is
  proved with one rule for each way to put dialogues together, and for loops by induction on the
  measure.
\<close>

section \<open>The form library\<close>

definition answer_ok :: "('u \<Rightarrow> nat) \<Rightarrow> 'u \<Rightarrow> ('a \<Rightarrow> bool) \<Rightarrow> (string + 'a) \<times> 'u \<Rightarrow> bool" where
  "answer_ok left u P = (\<lambda>(r, u'). case r of Inl _ \<Rightarrow> left u' \<le> left u | Inr a \<Rightarrow> left u' < left u \<and> P a)"

definition form_lib_ok :: "'u form_lib \<Rightarrow> ('u \<Rightarrow> nat) \<Rightarrow> bool" where
  "form_lib_ok lib left \<longleftrightarrow>
     (\<forall>title val valid u. answer_ok left u valid (fl_input lib title val valid u)) \<and>
     (\<forall>title val u. answer_ok left u (\<lambda>_. True) (fl_confirm lib title val u)) \<and>
     (\<forall>title labels current u. answer_ok left u (\<lambda>i. labels = [] \<or> i < length labels) (fl_select lib title labels current u)) \<and>
     (\<forall>title labels marks u. answer_ok left u (\<lambda>ms. length ms = length labels) (fl_multi lib title labels marks u))"

section \<open>Dialogues that end\<close>

definition dlg_ok :: "('u \<Rightarrow> nat) \<Rightarrow> nat \<Rightarrow> ('u, 'a) dialog \<Rightarrow> ('a \<Rightarrow> bool) \<Rightarrow> bool" where
  "dlg_ok left k m Q \<longleftrightarrow>
     (\<forall>u. \<exists>r u'. m u = Some (r, u') \<and>
       (case r of Inl e \<Rightarrow> e \<noteq> DialogPanic \<and> left u' \<le> left u | Inr a \<Rightarrow> left u' + k \<le> left u \<and> Q a))"

lemma dlg_okE:
  assumes "dlg_ok left k m Q"
  obtains (error) e u' where "m u = Some (Inl (FormError e), u')" and "left u' \<le> left u"
  | (result) a u' where "m u = Some (Inr a, u')" and "left u' + k \<le> left u" and "Q a"
proof -
  from assms obtain r u' where *: "m u = Some (r, u')"
    "case r of Inl e \<Rightarrow> e \<noteq> DialogPanic \<and> left u' \<le> left u | Inr a \<Rightarrow> left u' + k \<le> left u \<and> Q a"
    unfolding dlg_ok_def by blast
  show ?thesis
  proof (cases r)
    case (Inl e)
    with * that(1) show ?thesis by (cases e) auto
  next
    case (Inr a)
    with * that(2) show ?thesis by auto
  qed
qed

named_theorems dlg_rules

lemma dlg_ok_mono: "dlg_ok left k m P \<Longrightarrow> j \<le> k \<Longrightarrow> (\<And>a. P a \<Longrightarrow> Q a) \<Longrightarrow> dlg_ok left j m Q"
  unfolding dlg_ok_def by (fastforce split: sum.splits)

lemma dlg_ok_weaken: "dlg_ok left 1 m Q \<Longrightarrow> dlg_ok left 0 m Q"
  by (erule dlg_ok_mono) auto

lemma dlg_ok_return [dlg_rules]: "Q a \<Longrightarrow> dlg_ok left 0 (dlg_return a) Q"
  by (simp add: dlg_ok_def dlg_return_def)

lemma dlg_ok_bind:
  assumes m: "dlg_ok left k m P" and f: "\<And>a. P a \<Longrightarrow> dlg_ok left j (f a) Q"
  shows "dlg_ok left (k + j) (dlg_bind m f) Q"
  unfolding dlg_ok_def
proof
  fix u
  show "\<exists>r u'. dlg_bind m f u = Some (r, u') \<and>
    (case r of Inl e \<Rightarrow> e \<noteq> DialogPanic \<and> left u' \<le> left u | Inr a \<Rightarrow> left u' + (k + j) \<le> left u \<and> Q a)"
  proof (rule dlg_okE [OF m, of u])
    fix e u' assume "m u = Some (Inl (FormError e), u')" "left u' \<le> left u"
    then show ?thesis by (simp add: dlg_bind_def)
  next
    fix a u' assume a: "m u = Some (Inr a, u')" "left u' + k \<le> left u" "P a"
    show ?thesis
      by (rule dlg_okE [OF f [OF a(3)], of u']) (use a(1,2) in \<open>auto simp: dlg_bind_def\<close>)
  qed
qed

lemma dlg_ok_bind_ask:
  assumes "dlg_ok left 1 m P" and "\<And>a. P a \<Longrightarrow> dlg_ok left 0 (f a) Q" and "k \<le> 1"
  shows "dlg_ok left k (dlg_bind m f) Q"
  by (rule dlg_ok_mono [OF dlg_ok_bind [OF assms(1), of 0 f Q]]) (use assms(2,3) in simp_all)

lemma dlg_ok_bind_free:
  assumes "dlg_ok left 0 m P" and "\<And>a. P a \<Longrightarrow> dlg_ok left k (f a) Q"
  shows "dlg_ok left k (dlg_bind m f) Q"
  using dlg_ok_bind [OF assms] by simp

lemma dlg_ok_loop:
  assumes body: "\<And>s. I s \<Longrightarrow> dlg_ok left 1 (body s) (\<lambda>(s', continue). if continue then I s' else Q s')"
    and "I s"
  shows "dlg_ok left 0 (dlg_loop body s) Q"
proof -
  have "\<exists>r u'. dlg_loop body s u = Some (r, u') \<and>
      (case r of Inl e \<Rightarrow> e \<noteq> DialogPanic \<and> left u' \<le> left u | Inr a \<Rightarrow> left u' \<le> left u \<and> Q a)" if "I s" for s u
    using that
  proof (induction "left u" arbitrary: s u rule: less_induct)
    case less
    show ?case
    proof (rule dlg_okE [OF body [OF less.prems], of u])
      fix e u' assume "body s u = Some (Inl (FormError e), u')" "left u' \<le> left u"
      then show ?thesis by (subst dlg_loop.simps) simp
    next
      fix a u' assume *: "body s u = Some (Inr a, u')" "left u' + 1 \<le> left u"
        "(\<lambda>(s', continue). if continue then I s' else Q s') a"
      obtain s' continue where a: "a = (s', continue)" by (cases a)
      show ?thesis
      proof (cases continue)
        case False
        with * a show ?thesis by (subst dlg_loop.simps) simp
      next
        case True
        with * a have "left u' < left u" "I s'" by simp_all
        from less.hyps [OF this] obtain r u'' where
          "dlg_loop body s' u' = Some (r, u'')"
          "case r of Inl e \<Rightarrow> e \<noteq> DialogPanic \<and> left u'' \<le> left u' | Inr a \<Rightarrow> left u'' \<le> left u' \<and> Q a" by blast
        with *(1) a True \<open>left u' < left u\<close> show ?thesis
          by (subst dlg_loop.simps) (auto split: sum.splits)
      qed
    qed
  qed
  from this [OF \<open>I s\<close>] show ?thesis unfolding dlg_ok_def add_0_right by blast
qed

lemma dlg_ok_ignore: "dlg_ok left k m Q \<Longrightarrow> dlg_ok left 0 (dlg_ignore m) (\<lambda>_. True)"
  unfolding dlg_ok_def dlg_ignore_def by (fastforce split: sum.splits)

section \<open>Prompts\<close>

lemma answer_dlg_ok:
  assumes "\<And>u. answer_ok left u P (ask u)"
    and "\<And>u. m u = Some (map_sum FormError f (fst (ask u)), snd (ask u))" and "\<And>a. P a \<Longrightarrow> Q (f a)"
  shows "dlg_ok left 1 m Q"
  unfolding dlg_ok_def
proof
  fix u
  obtain r u' where ask: "ask u = (r, u')" by (cases "ask u")
  with assms(1) [of u] have "case r of Inl _ \<Rightarrow> left u' \<le> left u | Inr a \<Rightarrow> left u' < left u \<and> P a"
    by (simp add: answer_ok_def)
  with assms(2) [of u] ask assms(3) show "\<exists>r u'. m u = Some (r, u') \<and>
      (case r of Inl e \<Rightarrow> e \<noteq> DialogPanic \<and> left u' \<le> left u | Inr a \<Rightarrow> left u' + 1 \<le> left u \<and> Q a)"
    by (cases r) simp_all
qed

lemma Input_ok:
  assumes "form_lib_ok lib left" and "\<And>v. valid v \<Longrightarrow> Q v"
  shows "dlg_ok left 1 (Input lib title default_val val valid) Q"
  using assms(1) assms(2) unfolding form_lib_ok_def
  by (intro answer_dlg_ok [of left valid "fl_input lib title (if val = [] \<and> default_val \<noteq> [] then default_val else val) valid" _ "\<lambda>v. v"])
     (auto simp: Input_def wrap_error_def split: prod.split sum.split)

lemma Confirm_ok:
  assumes "form_lib_ok lib left" and "\<And>v. Q v"
  shows "dlg_ok left 1 (Confirm lib title val) Q"
  using assms unfolding form_lib_ok_def
  by (intro answer_dlg_ok [of left "\<lambda>_. True" "fl_confirm lib title val" _ "\<lambda>v. v"])
     (auto simp: Confirm_def wrap_error_def split: prod.split sum.split)

lemma Select_ok:
  assumes "form_lib_ok lib left" and "opts \<noteq> []" and "\<And>v. v \<in> snd ` set opts \<Longrightarrow> Q v"
  shows "dlg_ok left 1 (Select lib title opts val) Q"
proof (rule answer_dlg_ok)
  let ?ask = "fl_select lib title (map fst opts) (index_where (\<lambda>o'. snd o' = val) opts)"
  show "answer_ok left u (\<lambda>i. map fst opts = [] \<or> i < length (map fst opts)) (?ask u)" for u
    using assms(1) unfolding form_lib_ok_def by blast
  show "Select lib title opts val u = Some (map_sum FormError (\<lambda>i. if i < length opts then snd (opts ! i) else val) (fst (?ask u)), snd (?ask u))" for u
    by (auto simp: Select_def split: prod.split sum.split)
qed (use assms(2,3) in auto)

lemma MultiSelect_ok:
  assumes "form_lib_ok lib left" and "\<And>vs. set vs \<subseteq> snd ` set opts \<Longrightarrow> Q vs"
  shows "dlg_ok left 1 (MultiSelect lib title opts vals) Q"
proof (rule answer_dlg_ok)
  let ?ask = "fl_multi lib title (map fst opts) (map (\<lambda>o'. snd o' \<in> set vals) opts)"
  show "answer_ok left u (\<lambda>ms. length ms = length (map fst opts)) (?ask u)" for u
    using assms(1) unfolding form_lib_ok_def by blast
  show "MultiSelect lib title opts vals u =
      Some (map_sum FormError (\<lambda>marks. map (snd \<circ> fst) (filter snd (zip opts marks))) (fst (?ask u)), snd (?ask u))" for u
    by (auto simp: MultiSelect_def split: prod.split sum.split)
  show "Q (map (snd \<circ> fst) (filter snd (zip opts marks)))" for marks
    by (rule assms(2)) (force dest: set_zip_leftD)
qed

text \<open>The prompts at the start of a dialogue; the last three lemmas take a dialogue apart that is a choice.\<close>

lemma Input_bind [dlg_rules]:
  fixes valid :: "string \<Rightarrow> bool"
  shows "form_lib_ok lib left \<Longrightarrow> k \<le> 1 \<Longrightarrow> (\<And>v. valid v \<Longrightarrow> dlg_ok left 0 (f v) Q) \<Longrightarrow>
   dlg_ok left k (dlg_bind (Input lib title default_val val valid) f) Q"
  by (rule dlg_ok_bind_ask [OF Input_ok [where Q = valid and valid = valid]]) simp_all

lemma Confirm_bind [dlg_rules]:
  "form_lib_ok lib left \<Longrightarrow> k \<le> 1 \<Longrightarrow> (\<And>v. dlg_ok left 0 (f v) Q) \<Longrightarrow>
   dlg_ok left k (dlg_bind (Confirm lib title val) f) Q"
  by (rule dlg_ok_bind_ask [OF Confirm_ok [where Q = "\<lambda>_. True"]]) simp_all

lemma Select_bind [dlg_rules]:
  fixes opts :: "'v choices"
  shows "form_lib_ok lib left \<Longrightarrow> k \<le> 1 \<Longrightarrow> opts \<noteq> [] \<Longrightarrow> (\<And>v. v \<in> snd ` set opts \<Longrightarrow> dlg_ok left 0 (f v) Q) \<Longrightarrow>
   dlg_ok left k (dlg_bind (Select lib title opts val) f) Q"
  by (rule dlg_ok_bind_ask [OF Select_ok [where Q = "\<lambda>v. v \<in> snd ` set opts"]]) simp_all

lemma MultiSelect_bind [dlg_rules]:
  fixes opts :: "'v choices"
  shows "form_lib_ok lib left \<Longrightarrow> k \<le> 1 \<Longrightarrow> (\<And>vs. set vs \<subseteq> snd ` set opts \<Longrightarrow> dlg_ok left 0 (f vs) Q) \<Longrightarrow>
   dlg_ok left k (dlg_bind (MultiSelect lib title opts vals) f) Q"
  by (rule dlg_ok_bind_ask [OF MultiSelect_ok [where Q = "\<lambda>vs. set vs \<subseteq> snd ` set opts"]]) simp_all

lemma dlg_ok_if [dlg_rules]:
  "(b \<Longrightarrow> dlg_ok left k m Q) \<Longrightarrow> (\<not> b \<Longrightarrow> dlg_ok left k n Q) \<Longrightarrow> dlg_ok left k (if b then m else n) Q"
  by simp

lemma dlg_ok_let [dlg_rules]: "dlg_ok left k (f a) Q \<Longrightarrow> dlg_ok left k (let x = a in f x) Q"
  by simp

section \<open>What the wizard keeps\<close>

text \<open>The default entry of a client: not restricted, one of its entries or none, or none.\<close>

datatype default_mode = AnyDefault | ListedDefault | NoDefault

definition default_ok :: "default_mode \<Rightarrow> client_state \<Rightarrow> bool" where
  "default_ok mode c \<longleftrightarrow>
     mode = AnyDefault \<or> wc_default c = [] \<or> mode = ListedDefault \<and> wc_default c \<in> set (wc_entries c)"

text \<open>Every entry of a menu that the wizard lists has a name, a label, a known type and, for a chain, a target; every
  client an address, a name, a timeout that is not negative, entries that are listed and a default according to the mode.
  The ports of an enabled service are in range. Where the clients have no defaults yet, there is at least one.\<close>

definition type_known :: "string \<Rightarrow> bool" where
  "type_known t \<longleftrightarrow> t \<in> snd ` set type_options"

definition menu_state_ok :: "menu_state \<Rightarrow> bool" where
  "menu_state_ok m \<longleftrightarrow> wm_name m \<noteq> [] \<and> wm_label m \<noteq> [] \<and> type_known (wm_type m) \<and>
     (wm_type m = ''chain'' \<longrightarrow> wm_chain m \<noteq> [])"

definition client_state_ok :: "default_mode \<Rightarrow> string set \<Rightarrow> client_state \<Rightarrow> bool" where
  "client_state_ok mode names c \<longleftrightarrow> valid_mac (wc_mac c) \<and> wc_name c \<noteq> [] \<and> 0 \<le> wc_timeout c \<and>
     set (wc_entries c) \<subseteq> names \<and> default_ok mode c"

definition services_ok :: "wizard_state \<Rightarrow> bool" where
  "services_ok s \<longleftrightarrow>
     (wz_dhcp_enabled s \<longrightarrow> port_ok (wz_dhcp_port s) \<and> port_ok (wz_dhcp_proxy_port s)) \<and>
     (wz_tftp_enabled s \<longrightarrow> port_ok (wz_tftp_port s)) \<and> (wz_http_enabled s \<longrightarrow> port_ok (wz_http_port s))"

definition wizard_ok :: "default_mode \<Rightarrow> bool \<Rightarrow> wizard_state \<Rightarrow> bool" where
  "wizard_ok mode named s \<longleftrightarrow> (named \<longrightarrow> wz_interface s \<noteq> []) \<and> services_ok s \<and>
     wz_bootloader_dir s \<noteq> [] \<and> wz_data_dir s \<noteq> [] \<and>
     (mode = NoDefault \<longrightarrow> wz_clients s \<noteq> []) \<and>
     (\<forall>m \<in> set (wz_menus s). menu_state_ok m) \<and>
     (\<forall>c \<in> set (wz_clients s). client_state_ok mode (set (MenuNames s)) c)"

definition interfaces_named :: "string + net_iface list \<Rightarrow> bool" where
  "interfaces_named interfaces \<longleftrightarrow> (\<forall>ifaces. interfaces = Inr ifaces \<longrightarrow> (\<forall>i \<in> set ifaces. ni_name i \<noteq> []))"

lemma in_map_filter: "y \<in> set (List.map_filter f xs) \<longleftrightarrow> (\<exists>x \<in> set xs. f x = Some y)"
  by (force simp: List.map_filter_def)

lemma DetectInterfaces_named:
  "interfaces_named interfaces \<Longrightarrow> DetectInterfaces interfaces = Inr ifaces \<Longrightarrow> i \<in> set ifaces \<Longrightarrow> nf_name i \<noteq> []"
  by (cases interfaces)
     (auto simp: interfaces_named_def DetectInterfaces_def in_map_filter usable_interface_name)

lemma port_number_ok: "port_number v \<Longrightarrow> port_ok (parsed_number v)"
  by (auto simp: port_number_def parsed_number_def port_ok_def split: option.splits)

lemma input_port_bind [dlg_rules]:
  "form_lib_ok lib left \<Longrightarrow> k \<le> 1 \<Longrightarrow> (\<And>p. port_ok p \<Longrightarrow> dlg_ok left 0 (f p) Q) \<Longrightarrow>
   dlg_ok left k (dlg_bind (input_port lib title port) f) Q"
  unfolding input_port_def
  by (rule dlg_ok_bind_ask [where P = port_ok]) (auto intro!: dlg_rules port_number_ok)

lemmas wizard_simps = wizard_ok_def services_ok_def MenuNames_def non_empty_def any_text_def slug_def

lemma step_interface_ok:
  assumes "form_lib_ok lib left" and "interfaces_named interfaces" and "wizard_ok mode named s" and "k \<le> 1"
  shows "dlg_ok left k (step_interface lib interfaces s) (wizard_ok mode True)"
proof -
  have manual: "dlg_ok left k (dlg_bind (Input lib ''Network interface'' ''eth0'' (wz_interface s) non_empty) (\<lambda>v.
      dlg_return (s\<lparr>wz_interface := v\<rparr>))) (wizard_ok mode True)"
    using assms by (auto intro!: dlg_rules simp: wizard_simps)
  show ?thesis
  proof (cases "DetectInterfaces interfaces")
    case (Inl e)
    with manual show ?thesis by (simp add: step_interface_def)
  next
    case (Inr ifaces)
    have "nf_name i \<noteq> []" if "i \<in> set ifaces" for i
      using DetectInterfaces_named [OF assms(2) Inr that] .
    then show ?thesis
      using manual Inr assms by (auto simp: step_interface_def Let_def wizard_simps intro!: dlg_rules)
  qed
qed

lemma step_data_dir_ok:
  assumes "form_lib_ok lib left" and "wizard_ok mode named s" and "k \<le> 1"
  shows "dlg_ok left k (step_data_dir lib s) (wizard_ok mode named)"
  using assms unfolding step_data_dir_def by (auto intro!: dlg_rules simp: wizard_simps)

lemma step_bootloader_ok:
  assumes "form_lib_ok lib left" and "wizard_ok mode named s" and "k \<le> 1"
  shows "dlg_ok left k (step_bootloader lib s) (wizard_ok mode named)"
  using assms unfolding step_bootloader_def Let_def
  by (auto intro!: dlg_rules simp: wizard_simps variant_options_def)

lemma services_dhcp_ok:
  assumes "form_lib_ok lib left" and "wizard_ok mode named s" and "k \<le> 1"
  shows "dlg_ok left k (services_dhcp lib s) (wizard_ok mode named)"
  using assms unfolding services_dhcp_def Let_def by (auto intro!: dlg_rules simp: wizard_simps)

lemma services_tftp_ok:
  assumes "form_lib_ok lib left" and "wizard_ok mode named s" and "k \<le> 1"
  shows "dlg_ok left k (services_tftp lib s) (wizard_ok mode named)"
  using assms unfolding services_tftp_def Let_def by (auto intro!: dlg_rules simp: wizard_simps)

lemma services_http_ok:
  assumes "form_lib_ok lib left" and "wizard_ok mode named s" and "k \<le> 1"
  shows "dlg_ok left k (services_http lib s) (wizard_ok mode named)"
  using assms unfolding services_http_def Let_def by (auto intro!: dlg_rules simp: wizard_simps)

lemma step_services_ok:
  assumes "form_lib_ok lib left" and "wizard_ok mode named s" and "k \<le> 1"
  shows "dlg_ok left k (step_services lib s) (wizard_ok mode named)"
  unfolding step_services_def
  by (intro dlg_ok_bind_ask [OF services_dhcp_ok [OF assms(1,2)]] dlg_ok_bind_free [OF services_tftp_ok]
      services_http_ok assms) simp_all

subsection \<open>Menus\<close>

lemmas client_state_ok_defs = client_state_ok_def default_ok_def

lemma client_state_ok_mono: "client_state_ok mode names c \<Longrightarrow> names \<subseteq> names' \<Longrightarrow> client_state_ok mode names' c"
  by (auto simp: client_state_ok_defs)

lemma client_state_ok_insert: "client_state_ok mode names c \<Longrightarrow> client_state_ok mode (insert n names) c"
  by (auto simp: client_state_ok_defs)

lemma add_menu_ok:
  assumes "wizard_ok mode named s" and "menu_state_ok m"
  shows "wizard_ok mode named (s\<lparr>wz_menus := wz_menus s @ [m]\<rparr>)"
  using assms by (simp add: wizard_simps client_state_ok_insert)

lemma prompt_kernel_ok:
  assumes "form_lib_ok lib left" and "menu_state_ok m" and "k \<le> 1"
  shows "dlg_ok left k (prompt_kernel lib kern initrd cmdline path m)
    (\<lambda>m'. menu_state_ok m' \<and> wm_type m' = wm_type m \<and> wm_name m' = wm_name m)"
  using assms unfolding prompt_kernel_def by (auto intro!: dlg_rules simp: menu_state_ok_def)

lemma type_chain: "menu_state_ok m \<Longrightarrow> wm_type m \<noteq> ''chain'' \<Longrightarrow> menu_state_ok (m\<lparr>wm_chain := url\<rparr>)"
  by (simp add: menu_state_ok_def)

lemma prompt_menu_entry_ok:
  assumes "form_lib_ok lib left" and "k \<le> 1"
  shows "dlg_ok left k (prompt_menu_entry lib) menu_state_ok"
proof -
  have "dlg_ok left 0 (prompt_kernel lib kern initrd cmdline path
      (empty_menu_state\<lparr>wm_name := name, wm_label := label, wm_type := mtype\<rparr>)) menu_state_ok"
    if "slug name" "non_empty label" "type_known mtype" "mtype \<noteq> ''chain''"
    for kern initrd cmdline path name label mtype
    by (rule dlg_ok_mono [OF prompt_kernel_ok [OF assms(1), of _ 0]])
       (use that in \<open>simp_all add: menu_state_ok_def slug_def non_empty_def\<close>)
  then show ?thesis
    using assms unfolding prompt_menu_entry_def Let_def
    by (intro dlg_rules) (simp_all add: menu_state_ok_def slug_def non_empty_def type_known_def type_options_def)
qed

lemma prompt_menu_entry_edit_ok:
  assumes "form_lib_ok lib left" and "k \<le> 1"
  shows "dlg_ok left k (prompt_menu_entry_edit lib m0) menu_state_ok"
proof -
  have "dlg_ok left 0 (dlg_bind (prompt_kernel lib kern initrd cmdline path
      (m0\<lparr>wm_name := name, wm_label := label, wm_type := mtype\<rparr>)) (\<lambda>m. dlg_return (m\<lparr>wm_chain := []\<rparr>))) menu_state_ok"
    if "slug name" "non_empty label" "type_known mtype" "mtype \<noteq> ''chain''"
    for kern initrd cmdline path name label mtype
    by (rule dlg_ok_bind_free [OF prompt_kernel_ok [OF assms(1)]])
       (use that in \<open>auto simp: menu_state_ok_def slug_def non_empty_def intro!: dlg_rules\<close>)
  then show ?thesis
    using assms unfolding prompt_menu_entry_edit_def Let_def
    by (intro dlg_rules) (simp_all add: menu_state_ok_def slug_def non_empty_def type_known_def type_options_def)
qed

lemma step_menus_ok:
  assumes "form_lib_ok lib left" and "wizard_ok mode named s"
  shows "dlg_ok left 0 (step_menus lib s) (wizard_ok mode named)"
  unfolding step_menus_def
proof (rule dlg_ok_loop [where I = "wizard_ok mode named", OF _ assms(2)])
  fix s assume s: "wizard_ok mode named s"
  show "dlg_ok left 1 (dlg_bind (Confirm lib ''Add a boot menu entry?'' False) (\<lambda>add.
       if \<not> add then dlg_return (s, False)
       else dlg_bind (prompt_menu_entry lib) (\<lambda>m. dlg_return (s\<lparr>wz_menus := wz_menus s @ [m]\<rparr>, True))))
     (\<lambda>(s', continue). if continue then wizard_ok mode named s' else wizard_ok mode named s')"
    using assms(1) s add_menu_ok
    by (intro dlg_rules dlg_ok_bind_ask [OF prompt_menu_entry_ok]) auto
qed

text \<open>New menus and clients.\<close>

lemma wizard_ok_update:
  assumes "wizard_ok mode named s" and "\<And>m. m \<in> set ms \<Longrightarrow> menu_state_ok m"
    and "\<And>c. c \<in> set cs \<Longrightarrow> client_state_ok mode (wm_name ` set ms) c"
    and "mode = NoDefault \<Longrightarrow> cs \<noteq> []"
  shows "wizard_ok mode named (s\<lparr>wz_menus := ms, wz_clients := cs\<rparr>)"
  using assms by (simp add: wizard_simps)

lemma wizard_ok_some_client: "wizard_ok mode named s \<Longrightarrow> mode = NoDefault \<Longrightarrow> wz_clients s \<noteq> []"
  by (simp add: wizard_ok_def)

lemma wizard_ok_menu: "wizard_ok mode named s \<Longrightarrow> m \<in> set (wz_menus s) \<Longrightarrow> menu_state_ok m"
  by (simp add: wizard_ok_def)

lemma wizard_ok_client:
  "wizard_ok mode named s \<Longrightarrow> c \<in> set (wz_clients s) \<Longrightarrow> client_state_ok mode (wm_name ` set (wz_menus s)) c"
  by (simp add: wizard_ok_def MenuNames_def)

text \<open>Without a default that the removal could leave behind.\<close>

definition no_netboot_default :: "wizard_state \<Rightarrow> bool" where
  "no_netboot_default s \<longleftrightarrow> (\<forall>c \<in> set (wz_clients s). wc_default c \<noteq> ''netboot-xyz'')"

lemma remove_netboot_ok:
  assumes s: "wizard_ok mode named s" and "mode \<noteq> ListedDefault \<or> no_netboot_default s"
  shows "wizard_ok mode named (remove_netboot s)"
proof -
  have "client_state_ok mode (wm_name ` {m \<in> set (wz_menus s). wm_name m \<noteq> ''netboot-xyz''}) (drop_entry ''netboot-xyz'' c)"
    if c: "c \<in> set (wz_clients s)" for c
    using wizard_ok_client [OF s c] assms(2) c
    by (auto simp: client_state_ok_defs drop_entry_def no_netboot_default_def)
  then show ?thesis
    unfolding remove_netboot_def by (intro wizard_ok_update [OF s]) (auto intro: wizard_ok_menu [OF s] dest: wizard_ok_some_client [OF s])
qed

lemma add_netboot_ok:
  assumes s: "wizard_ok mode named s" and "menu_state_ok m" and "wm_name m = ''netboot-xyz''"
  shows "wizard_ok mode named (add_netboot_to_clients (s\<lparr>wz_menus := wz_menus s @ [m]\<rparr>))"
proof -
  have "client_state_ok mode (insert ''netboot-xyz'' (wm_name ` set (wz_menus s))) (c\<lparr>wc_entries := wc_entries c @ [''netboot-xyz'']\<rparr>)"
    if "c \<in> set (wz_clients s)" for c
    using wizard_ok_client [OF s that] by (auto simp: client_state_ok_defs)
  then have "wizard_ok mode named (s\<lparr>wz_menus := wz_menus s @ [m],
      wz_clients := map (\<lambda>c. c\<lparr>wc_entries := wc_entries c @ [''netboot-xyz'']\<rparr>) (wz_clients s)\<rparr>)"
    using assms(2,3) by (intro wizard_ok_update [OF s]) (auto intro: wizard_ok_menu [OF s] dest: wizard_ok_some_client [OF s])
  then show ?thesis by (simp add: add_netboot_to_clients_def)
qed

lemma netboot_entries_ok: "menu_state_ok remote_entry" "menu_state_ok self_hosted_entry"
  by (simp_all add: menu_state_ok_def remote_entry_def self_hosted_entry_def type_known_def type_options_def)

lemma wizard_ok_netboot [simp]:
  "wizard_ok mode named (s\<lparr>wz_netboot_mode := nm\<rparr>) = wizard_ok mode named s"
  "wizard_ok mode named (s\<lparr>wz_netboot_base_url := url\<rparr>) = wizard_ok mode named s"
  by (simp_all add: wizard_simps)

lemma step_netboot_ok:
  assumes lib: "form_lib_ok lib left" and s: "wizard_ok mode named s" "mode \<noteq> ListedDefault \<or> no_netboot_default s" and k: "k \<le> 1"
  shows "dlg_ok left k (step_netboot lib s) (wizard_ok mode named)"
proof -
  have removed: "wizard_ok mode named (remove_netboot (s\<lparr>wz_netboot_mode := nm\<rparr>))" for nm
    using s by (intro remove_netboot_ok) (simp_all add: no_netboot_default_def)
  have "wizard_ok mode named (add_netboot_to_clients (s1\<lparr>wz_menus := wz_menus s1 @ [remote_entry]\<rparr>))"
      "wizard_ok mode named (add_netboot_to_clients
         (s1\<lparr>wz_netboot_base_url := url, wz_menus := wz_menus s1 @ [self_hosted_entry]\<rparr>))"
    if "wizard_ok mode named s1" for s1 url
    using that add_netboot_ok [of mode named "s1\<lparr>wz_netboot_base_url := url\<rparr>" self_hosted_entry]
      add_netboot_ok [of mode named s1 remote_entry] netboot_entries_ok
    by (simp_all add: remote_entry_def self_hosted_entry_def)
  with removed lib k show ?thesis
    unfolding step_netboot_def Let_def by (intro dlg_rules) (simp_all add: netboot_options_def)
qed

lemma update_menu_ok:
  assumes s: "wizard_ok mode named s" and m: "menu_state_ok m" and i: "i < length (wz_menus s)"
  defines "old_name \<equiv> wm_name (wz_menus s ! i)" and "s1 \<equiv> s\<lparr>wz_menus := (wz_menus s)[i := m]\<rparr>"
  shows "wizard_ok mode named (if old_name \<noteq> wm_name m
    then s1\<lparr>wz_clients := map (rename_entry old_name (wm_name m)) (wz_clients s1)\<rparr> else s1)"
proof -
  let ?ms = "(wz_menus s)[i := m]" and ?names = "insert (wm_name m) (wm_name ` set (wz_menus s) - {old_name})"
  have names: "?names \<subseteq> wm_name ` set ?ms"
  proof -
    have "wm_name m' \<in> wm_name ` set ?ms" if m': "m' \<in> set (wz_menus s)" "wm_name m' \<noteq> old_name" for m'
    proof -
      from m'(1) obtain j where j: "j < length (wz_menus s)" "m' = wz_menus s ! j" by (auto simp: in_set_conv_nth)
      with m'(2) have "?ms ! j = m'" by (cases "i = j") (simp_all add: old_name_def)
      with j show ?thesis by (metis imageI length_list_update nth_mem)
    qed
    moreover have "m \<in> set ?ms" using i by (simp add: set_update_memI)
    ultimately show ?thesis by auto
  qed
  have menus: "menu_state_ok x" if "x \<in> set ?ms" for x
    using wizard_ok_menu [OF s] m that set_update_subset_insert [of "wz_menus s" i m] by auto
  have "old_name \<noteq> []"
    using wizard_ok_menu [OF s, of "wz_menus s ! i"] i by (simp add: old_name_def menu_state_ok_def)
  then have renamed: "client_state_ok mode ?names (rename_entry old_name (wm_name m) c)" if "c \<in> set (wz_clients s)" for c
    using wizard_ok_client [OF s that] by (auto simp: client_state_ok_defs rename_entry_def)
  have "wizard_ok mode named (s\<lparr>wz_menus := ?ms, wz_clients := map (rename_entry old_name (wm_name m)) (wz_clients s)\<rparr>)"
    by (intro wizard_ok_update [OF s] menus)
       (auto intro: client_state_ok_mono [OF renamed names] dest: wizard_ok_some_client [OF s])
  moreover have "wizard_ok mode named (s\<lparr>wz_menus := ?ms, wz_clients := wz_clients s\<rparr>)" if "old_name = wm_name m"
  proof (intro wizard_ok_update [OF s] menus)
    have "wm_name ` set (wz_menus s) \<subseteq> wm_name ` set ?ms" using names that by blast
    then show "client_state_ok mode (wm_name ` set ?ms) c" if "c \<in> set (wz_clients s)" for c
      using client_state_ok_mono [OF wizard_ok_client [OF s that]] by blast
    show "mode = NoDefault \<Longrightarrow> wz_clients s \<noteq> []" by (rule wizard_ok_some_client [OF s])
  qed
  ultimately show ?thesis by (simp add: s1_def)
qed

lemma edit_menu_ok:
  assumes "form_lib_ok lib left" and "wizard_ok mode named s" and "wz_menus s \<noteq> []" and "k \<le> 1"
  shows "dlg_ok left k (edit_menu lib s) (wizard_ok mode named)"
  unfolding edit_menu_def Let_def
  by (intro dlg_rules dlg_ok_bind_ask [OF prompt_menu_entry_edit_ok] update_menu_ok)
     (use assms in \<open>auto\<close>)

lemma in_remove_at: "x \<in> set (remove_at i xs) \<Longrightarrow> x \<in> set xs"
  by (auto simp: remove_at_def dest: in_set_takeD in_set_dropD)

lemma kept_by_remove_at:
  assumes "x \<in> set xs" and "f x \<noteq> f (xs ! i)"
  shows "x \<in> set (remove_at i xs)"
proof (cases "i < length xs")
  case True
  with assms(1) have "x \<in> set (take i xs @ xs ! i # drop (Suc i) xs)" by (simp only: id_take_nth_drop [symmetric])
  with assms(2) show ?thesis by (auto simp: remove_at_def)
next
  case False
  with assms(1) show ?thesis by (simp add: remove_at_def)
qed

lemma remove_menu_at_ok:
  assumes s: "wizard_ok mode named s"
  shows "wizard_ok mode named (s\<lparr>wz_menus := remove_at i (wz_menus s),
    wz_clients := map (forget_entry (wm_name (wz_menus s ! i))) (wz_clients s)\<rparr>)"
proof (rule wizard_ok_update [OF s])
  let ?name = "wm_name (wz_menus s ! i)"
  show "menu_state_ok m" if "m \<in> set (remove_at i (wz_menus s))" for m
    using wizard_ok_menu [OF s in_remove_at [OF that]] .
  have names: "wm_name ` set (wz_menus s) - {?name} \<subseteq> wm_name ` set (remove_at i (wz_menus s))"
    using kept_by_remove_at [of _ "wz_menus s" wm_name i] by blast
  have "client_state_ok mode (wm_name ` set (wz_menus s) - {?name}) (forget_entry ?name c)" if "c \<in> set (wz_clients s)" for c
    using wizard_ok_client [OF s that] by (auto simp: client_state_ok_defs forget_entry_def drop_entry_def Let_def)
  note forgot = client_state_ok_mono [OF this names]
  show "client_state_ok mode (wm_name ` set (remove_at i (wz_menus s))) c"
    if "c \<in> set (map (forget_entry ?name) (wz_clients s))" for c
    using that by (auto intro: forgot)
  show "mode = NoDefault \<Longrightarrow> map (forget_entry ?name) (wz_clients s) \<noteq> []"
    using wizard_ok_some_client [OF s] by simp
qed

lemma remove_menu_ok:
  assumes "form_lib_ok lib left" and "wizard_ok mode named s"
  shows "dlg_ok left 0 (remove_menu lib s) (wizard_ok mode named)"
  unfolding remove_menu_def Let_def
  by (intro dlg_rules) (use assms remove_menu_at_ok in simp_all)

lemma step_menus_edit_ok:
  assumes lib: "form_lib_ok lib left" and "wizard_ok mode named s"
  shows "dlg_ok left 0 (step_menus_edit lib s) (wizard_ok mode named)"
  unfolding step_menus_edit_def
proof (rule dlg_ok_loop [where I = "wizard_ok mode named", OF _ assms(2)])
  fix s assume s: "wizard_ok mode named s"
  show "dlg_ok left 1 (dlg_bind (Select lib ''What would you like to do?'' (menu_actions s) MenuDone) (\<lambda>action.
       case action of
         MenuAdd \<Rightarrow> dlg_bind (prompt_menu_entry lib) (\<lambda>m. dlg_return (s\<lparr>wz_menus := wz_menus s @ [m]\<rparr>, True))
       | MenuEdit \<Rightarrow> dlg_bind (edit_menu lib s) (\<lambda>s'. dlg_return (s', True))
       | MenuRemove \<Rightarrow> dlg_bind (remove_menu lib s) (\<lambda>s'. dlg_return (s', True))
       | MenuDone \<Rightarrow> dlg_return (s, False)))
     (\<lambda>(s', continue). if continue then wizard_ok mode named s' else wizard_ok mode named s')"
  proof (intro Select_bind lib)
    fix action assume action: "action \<in> snd ` set (menu_actions s)"
    show "dlg_ok left 0 (case action of
         MenuAdd \<Rightarrow> dlg_bind (prompt_menu_entry lib) (\<lambda>m. dlg_return (s\<lparr>wz_menus := wz_menus s @ [m]\<rparr>, True))
       | MenuEdit \<Rightarrow> dlg_bind (edit_menu lib s) (\<lambda>s'. dlg_return (s', True))
       | MenuRemove \<Rightarrow> dlg_bind (remove_menu lib s) (\<lambda>s'. dlg_return (s', True))
       | MenuDone \<Rightarrow> dlg_return (s, False))
     (\<lambda>(s', continue). if continue then wizard_ok mode named s' else wizard_ok mode named s')"
    proof (cases action)
      case MenuAdd
      then show ?thesis using s add_menu_ok by (auto intro!: dlg_rules dlg_ok_bind_ask [OF prompt_menu_entry_ok [OF lib]])
    next
      case MenuEdit
      with action have "wz_menus s \<noteq> []" by (auto simp: menu_actions_def)
      with MenuEdit show ?thesis using s by (auto intro!: dlg_rules dlg_ok_bind_ask [OF edit_menu_ok [OF lib]])
    next
      case MenuRemove
      then show ?thesis using s by (auto intro!: dlg_rules dlg_ok_bind_free [OF remove_menu_ok [OF lib]])
    next
      case MenuDone
      then show ?thesis using s by (auto intro!: dlg_rules)
    qed
  qed (simp_all add: menu_actions_def)
qed

subsection \<open>Clients\<close>

lemma number_ok: "non_negative v \<Longrightarrow> 0 \<le> parsed_number v"
  by (auto simp: non_negative_def parsed_number_def split: option.splits)

lemma entry_options_values [simp]: "snd ` set (entry_options names) = set names"
  by (simp add: entry_options_def image_image)

lemma entry_options_empty [simp]: "entry_options names = [] \<longleftrightarrow> names = []"
  by (simp add: entry_options_def)

lemma set_default_and_timeout_ok:
  assumes "form_lib_ok lib left" and "client_state_ok mode names (c\<lparr>wc_default := [], wc_timeout := 0\<rparr>)" and "wc_entries c \<noteq> []" and "k \<le> 1" and "mode \<noteq> NoDefault"
  shows "dlg_ok left k (set_default_and_timeout lib td t cur c) (client_state_ok mode names)"
  using assms unfolding set_default_and_timeout_def
  by (cases mode; intro dlg_rules) (simp_all add: client_state_ok_defs number_ok)

lemma prompt_client_ok:
  assumes "form_lib_ok lib left" and "snd ` set menu_opts \<subseteq> names" and "k \<le> 1" and "mode \<noteq> NoDefault"
  shows "dlg_ok left k (prompt_client lib menu_opts) (client_state_ok mode names)"
  using assms unfolding prompt_client_def Let_def
  by (intro dlg_rules set_default_and_timeout_ok)
     (auto simp: client_state_ok_defs non_empty_def empty_client_state_def)

lemma prompt_client_edit_ok:
  assumes "form_lib_ok lib left" and "snd ` set menu_opts \<subseteq> names" and "client_state_ok mode names' c" and "k \<le> 1" and "mode \<noteq> NoDefault"
  shows "dlg_ok left k (prompt_client_edit lib menu_opts c) (client_state_ok mode names)"
  using assms unfolding prompt_client_edit_def Let_def
  by (intro dlg_rules set_default_and_timeout_ok)
     (auto simp: client_state_ok_defs non_empty_def)

lemma wizard_ok_clients:
  assumes "wizard_ok mode named s" and "\<And>c. c \<in> set cs \<Longrightarrow> c \<in> set (wz_clients s) \<or> client_state_ok mode (set (MenuNames s)) c"
    and "mode = NoDefault \<Longrightarrow> cs \<noteq> []"
  shows "wizard_ok mode named (s\<lparr>wz_clients := cs\<rparr>)"
proof -
  have "wizard_ok mode named (s\<lparr>wz_menus := wz_menus s, wz_clients := cs\<rparr>)"
    using assms(2,3) wizard_ok_client [OF assms(1)]
    by (intro wizard_ok_update [OF assms(1)] wizard_ok_menu [OF assms(1)]) (auto simp: MenuNames_def)
  then show ?thesis by simp
qed

lemma insert_client_ok:
  assumes "wizard_ok mode named s" and "client_state_ok mode (set (MenuNames s)) c"
  shows "wizard_ok mode named (s\<lparr>wz_clients := insert_client c (wz_clients s)\<rparr>)"
    and "wz_clients s \<noteq> [] \<Longrightarrow> wizard_ok mode named (s\<lparr>wz_clients := butlast (wz_clients s) @ [c, last (wz_clients s)]\<rparr>)"
  using assms by (intro wizard_ok_clients; force simp: insert_client_def ends_with_wildcard_def dest: in_set_butlastD split: if_splits)+

lemma edit_client_ok:
  assumes "form_lib_ok lib left" and s: "wizard_ok mode named s" and "wz_clients s \<noteq> []" and "k \<le> 1" and "mode \<noteq> NoDefault"
  shows "dlg_ok left k (edit_client lib s) (wizard_ok mode named)"
proof -
  have "dlg_ok left 0 (dlg_bind (prompt_client_edit lib (entry_options (MenuNames s)) (wz_clients s ! i)) (\<lambda>c.
       dlg_return (s\<lparr>wz_clients := (wz_clients s)[i := c]\<rparr>))) (wizard_ok mode named)" if "i < length (wz_clients s)" for i
  proof (rule dlg_ok_bind_ask)
    show "dlg_ok left 1 (prompt_client_edit lib (entry_options (MenuNames s)) (wz_clients s ! i))
        (client_state_ok mode (set (MenuNames s)))"
      using wizard_ok_client [OF s nth_mem [OF that]] assms(1,5) by (intro prompt_client_edit_ok) simp_all
    show "dlg_ok left 0 (dlg_return (s\<lparr>wz_clients := (wz_clients s)[i := c]\<rparr>)) (wizard_ok mode named)"
      if "client_state_ok mode (set (MenuNames s)) c" for c
      using that set_update_subset_insert [of "wz_clients s" i c] assms(5) by (intro dlg_rules wizard_ok_clients [OF s]) auto
  qed simp
  with assms show ?thesis unfolding edit_client_def by (intro dlg_rules) auto
qed

lemma remove_client_ok:
  assumes "form_lib_ok lib left" and s: "wizard_ok mode named s" and "mode \<noteq> NoDefault"
  shows "dlg_ok left 0 (remove_client lib s) (wizard_ok mode named)"
proof -
  have "wizard_ok mode named (s\<lparr>wz_clients := remove_at i (wz_clients s)\<rparr>)" for i
    using assms(3) by (intro wizard_ok_clients [OF s]) (auto dest: in_remove_at)
  with assms show ?thesis unfolding remove_client_def Let_def by (intro dlg_rules) simp_all
qed

lemma step_clients_edit_ok:
  assumes lib: "form_lib_ok lib left" and mode: "mode \<noteq> NoDefault" and "wizard_ok mode named s"
  shows "dlg_ok left 0 (step_clients_edit lib s) (wizard_ok mode named)"
  unfolding step_clients_edit_def
proof (rule dlg_ok_loop [where I = "wizard_ok mode named", OF _ assms(3)])
  fix s assume s: "wizard_ok mode named s"
  let ?body = "\<lambda>action. case action of
         ClientAdd \<Rightarrow>
           dlg_bind (prompt_client lib (entry_options (MenuNames s))) (\<lambda>c.
           dlg_return (s\<lparr>wz_clients := insert_client c (wz_clients s)\<rparr>, True))
       | ClientEdit \<Rightarrow> dlg_bind (edit_client lib s) (\<lambda>s'. dlg_return (s', True))
       | ClientRemove \<Rightarrow> dlg_bind (remove_client lib s) (\<lambda>s'. dlg_return (s', True))
       | ClientDone \<Rightarrow> dlg_return (s, False)"
  let ?Q = "\<lambda>(s', continue). if continue then wizard_ok mode named s' else wizard_ok mode named s'"
  have "dlg_ok left 0 (?body action) ?Q" if action: "action \<in> snd ` set (client_actions s)" for action
  proof (cases action)
    case ClientAdd
    have "dlg_ok left 1 (prompt_client lib (entry_options (MenuNames s))) (client_state_ok mode (set (MenuNames s)))"
      using lib mode by (intro prompt_client_ok) simp_all
    then show ?thesis
      unfolding ClientAdd client_action.case
      by (rule dlg_ok_bind_ask) (use insert_client_ok [OF s] in \<open>auto intro!: dlg_rules\<close>)
  next
    case ClientEdit
    with action have "wz_clients s \<noteq> []" by (auto simp: client_actions_def split: if_splits)
    with ClientEdit show ?thesis using s mode by (auto intro!: dlg_rules dlg_ok_bind_ask [OF edit_client_ok [OF lib]])
  next
    case ClientRemove
    then show ?thesis using s mode by (auto intro!: dlg_rules dlg_ok_bind_free [OF remove_client_ok [OF lib]])
  next
    case ClientDone
    then show ?thesis using s by (auto intro!: dlg_rules)
  qed
  then show "dlg_ok left 1 (dlg_bind (Select lib ''What would you like to do?'' (client_actions s) ClientDone) ?body) ?Q"
    by (intro Select_bind lib) (simp_all add: client_actions_def)
qed

lemma listed_defaults: "wizard_ok NoDefault named s \<Longrightarrow> wizard_ok ListedDefault named s"
  by (simp add: wizard_ok_def client_state_ok_defs)

lemma configure_wildcard_ok:
  assumes "form_lib_ok lib left" and s: "wizard_ok NoDefault named s"
  shows "dlg_ok left 0 (configure_wildcard lib s) (\<lambda>s'. wizard_ok NoDefault named s' \<and> MenuNames s' = MenuNames s)"
proof -
  let ?wildcard = "last (wz_clients s)"
  have some: "wz_clients s \<noteq> []" using wizard_ok_some_client [OF s] by simp
  then have wildcard: "client_state_ok NoDefault (wm_name ` set (wz_menus s)) ?wildcard"
    by (intro wizard_ok_client [OF s]) simp
  have "wizard_ok NoDefault named (s\<lparr>wz_clients := butlast (wz_clients s) @ [?wildcard\<lparr>wc_entries := es\<rparr>]\<rparr>)"
    if "set es \<subseteq> set (MenuNames s)" for es
    using wildcard that
    by (intro wizard_ok_clients [OF s]) (auto simp: client_state_ok_defs MenuNames_def dest: in_set_butlastD)
  with assms show ?thesis unfolding configure_wildcard_def Let_def by (intro dlg_rules) (simp_all add: MenuNames_def)
qed

lemma step_clients_ok:
  assumes lib: "form_lib_ok lib left" and s: "wizard_ok NoDefault named s"
  shows "dlg_ok left 0 (step_clients lib s) (wizard_ok ListedDefault named)"
proof -
  let ?opts = "entry_options (MenuNames s)"
  let ?I = "\<lambda>s'. wizard_ok ListedDefault named s' \<and> wz_clients s' \<noteq> [] \<and> set (MenuNames s) \<subseteq> set (MenuNames s')"
  let ?body = "\<lambda>s. dlg_bind (Confirm lib ''Add a specific client (by MAC)?'' False) (\<lambda>add.
        if \<not> add then dlg_return (s, False)
        else
          dlg_bind (prompt_client lib ?opts) (\<lambda>c.
          if wz_clients s = [] then dlg_panic
          else dlg_return (s\<lparr>wz_clients := butlast (wz_clients s) @ [c, last (wz_clients s)]\<rparr>, True)))"
  have "dlg_ok left 1 (?body s') (\<lambda>(s'', continue). if continue then ?I s'' else wizard_ok ListedDefault named s'')"
    if s': "?I s'" for s'
  proof -
    have asked: "dlg_ok left 1 (prompt_client lib ?opts) (client_state_ok ListedDefault (set (MenuNames s')))"
      using lib s' by (intro prompt_client_ok) simp_all
    show ?thesis
      using s' insert_client_ok(2) [of ListedDefault named s']
      by (intro dlg_rules lib dlg_ok_bind_ask [OF asked]) (auto simp: MenuNames_def)
  qed
  then have loop: "dlg_ok left 0 (dlg_loop ?body s') (wizard_ok ListedDefault named)" if "?I s'" for s'
    using that by (rule dlg_ok_loop [where I = ?I])
  have "dlg_ok left 0 (configure_wildcard lib s) ?I"
    by (rule dlg_ok_mono [OF configure_wildcard_ok [OF assms]])
       (auto simp: listed_defaults dest: wizard_ok_some_client)
  then show ?thesis unfolding step_clients_def Let_def using loop by (rule dlg_ok_bind_free)
qed

section \<open>The whole wizard\<close>

lemma step_summary_ok:
  assumes "form_lib_ok lib left" and "Q s" and "k \<le> 1"
  shows "dlg_ok left k (step_summary lib s) Q"
  using assms unfolding step_summary_def by (intro dlg_rules)

definition steps_ok :: "(wizard_state \<Rightarrow> bool) \<Rightarrow> (string \<times> 'u wizard_step) list \<Rightarrow> (wizard_state \<Rightarrow> bool) \<Rightarrow> bool" where
  "steps_ok P steps Q \<longleftrightarrow> (\<forall>s u. P s \<longrightarrow>
     (\<exists>r u'. run_steps steps s u = Some (r, u') \<and> r \<noteq> Inl WizardPanic \<and> (\<forall>s'. r = Inr s' \<longrightarrow> Q s')))"

lemma steps_ok_Nil: "steps_ok P [] P"
  by (simp add: steps_ok_def)

lemma steps_ok_Cons:
  assumes "\<And>s. P s \<Longrightarrow> dlg_ok left 0 (step s) R" and "steps_ok R steps Q"
  shows "steps_ok P ((name, step) # steps) Q"
  unfolding steps_ok_def
proof (intro allI impI)
  fix s u
  assume "P s"
  show "\<exists>r u'. run_steps ((name, step) # steps) s u = Some (r, u') \<and> r \<noteq> Inl WizardPanic \<and> (\<forall>s'. r = Inr s' \<longrightarrow> Q s')"
    by (rule dlg_okE [OF assms(1) [OF \<open>P s\<close>], of u]) (use assms(2) in \<open>auto simp: steps_ok_def\<close>)
qed

lemma default_state_ok: "wizard_ok NoDefault False (DefaultState\<lparr>wz_config_dir := dir\<rparr>)"
proof -
  have "valid_mac ''*''" by code_simp
  then show ?thesis
    by (simp add: wizard_simps DefaultState_def client_state_ok_defs menu_state_ok_def empty_menu_state_def
        empty_client_state_def type_known_def type_options_def port_ok_def)
qed

lemma wizard_steps_ok:
  assumes lib: "form_lib_ok lib left" and named: "interfaces_named interfaces"
  shows "steps_ok (wizard_ok NoDefault False) (wizard_steps lib interfaces) (wizard_ok ListedDefault True)"
proof -
  let ?fresh = "wizard_ok NoDefault True" and ?listed = "wizard_ok ListedDefault True"
  have "steps_ok ?listed [(''Summary'', step_summary lib)] ?listed"
    by (rule steps_ok_Cons [OF step_summary_ok [OF lib] steps_ok_Nil]) simp_all
  then have tail: "steps_ok ?fresh [(''Boot Menus'', step_menus lib), (''Clients'', step_clients lib), (''Summary'', step_summary lib)] ?listed"
    by (intro steps_ok_Cons [of ?fresh left _ ?fresh] steps_ok_Cons [of ?fresh left _ ?listed] step_menus_ok step_clients_ok lib)
  show ?thesis
    unfolding wizard_steps_def
    by (intro tail steps_ok_Cons [of _ left _ ?fresh] step_interface_ok step_data_dir_ok step_bootloader_ok step_services_ok
        step_netboot_ok lib named) simp_all
qed

text \<open>What validation can still find fault with: an entry without a kernel, a client without entries and, after
  editing, a default that is no entry of the client.\<close>

fun wizard_gap :: "bool \<Rightarrow> config_error \<Rightarrow> bool" where
  "wizard_gap edited (BadMenu (MenuNoKernel _ _)) = True"
| "wizard_gap edited (BadMenu (MenuNoKernelOrBinary _ _)) = True"
| "wizard_gap edited (BadClient (ClientMenu _ _ NoEntries)) = True"
| "wizard_gap edited (BadClient (ClientMenu _ _ (DefaultNotInEntries _ _))) = edited"
| "wizard_gap edited _ = False"

lemma menu_of_state_gap:
  assumes "menu_state_ok m" and "menu_entry_validate (menu_of_state m) = Some e"
  shows "wizard_gap edited (BadMenu e)"
proof -
  have "ParseMenuType ''install'' = Inr MenuInstall" "ParseMenuType ''live'' = Inr MenuLive"
      "ParseMenuType ''tool'' = Inr MenuTool" "ParseMenuType ''chain'' = Inr MenuChain" "ParseMenuType ''exit'' = Inr MenuExit"
    by code_simp+
  then show ?thesis
    using assms
    by (auto simp: menu_state_ok_def type_known_def type_options_def menu_entry_validate_def menu_of_state_def
        empty_boot_params_def split: if_splits)
qed

lemma client_of_state_gap:
  assumes "client_state_ok mode names c" and "client_validate (client_of_state c) = Some e"
  shows "wizard_gap (mode = AnyDefault) (BadClient e)"
proof -
  from assms(1) obtain mac where mac: "ParseMAC (wc_mac c) = Inr mac"
    by (auto simp: client_state_ok_def valid_mac_def isl_def sum.case_eq_if split: sum.splits dest: sum.exhaust_sel)
      (metis isl_def sum.exhaust_sel)
  then have "mac \<noteq> None" using ParseMAC_length by blast
  then show ?thesis
    using assms mac
    by (auto simp: client_state_ok_defs client_validate_def client_of_state_def menu_config_validate_def list_ex_iff
        split: if_splits option.splits)
qed

text \<open>A valid configuration as the editor starts with it.\<close>

lemma edit_state_ok:
  assumes valid: "full_config_validate cfg = None" and cons: "consistent cfg"
  shows "wizard_ok AnyDefault True ((ConfigToState cfg)\<lparr>wz_config_dir := dir\<rparr>)"
proof -
  have menus: "menu_state_ok (state_of_menu m)" if "m \<in> set (fc_menus cfg)" for m
  proof -
    have "me_name m \<noteq> []" "me_label m \<noteq> []" "bootable m" using valid that by (auto simp: validates)
    then show ?thesis
      by (cases "me_type m") (auto simp: menu_state_ok_def state_of_menu_def type_known_def type_options_def bootable_def)
  qed
  have clients: "client_state_ok AnyDefault (wm_name ` state_of_menu ` set (fc_menus cfg)) (state_of_client c)"
    if c: "c \<in> set (fc_clients cfg)" for c
  proof -
    obtain bs where bs: "cl_mac c = Some bs" "mac_len_ok (length bs)" using cons c by (auto simp: consistent_def)
    have "valid_mac ''*''" by code_simp
    then have "valid_mac (wc_mac (state_of_client c))"
      using ParseMAC_bytes_string [of bs] bs by (auto simp: state_of_client_def valid_mac_def)
    moreover have "cl_name c \<noteq> []" "0 \<le> mc_timeout (cl_menu c)" using valid c by (auto simp: validates)
    moreover have "set (mc_entries (cl_menu c)) \<subseteq> me_name ` set (fc_menus cfg)"
      using cons c by (auto simp: consistent_def used_entries_def)
    ultimately show ?thesis
      by (simp add: client_state_ok_defs state_of_client_def image_image state_of_menu_def)
  qed
  show ?thesis
    using valid menus clients by (auto simp: wizard_simps ConfigToState_def validates image_image)
qed

lemma wizard_ok_references:
  "wizard_ok mode named s \<Longrightarrow> used_entries (fc_clients (StateToConfig s)) \<subseteq> set (map me_name (fc_menus (StateToConfig s)))"
  by (fastforce simp: wizard_simps used_entries_def StateToConfig_def client_of_state_def menu_of_state_def client_state_ok_def)

lemma set_arch_files: "bl_dir (fold set_arch_file archs bl) = bl_dir bl \<and> bl_chain_url (fold set_arch_file archs bl) = bl_chain_url bl"
  by (induction archs arbitrary: bl) (simp_all add: set_arch_file_def)

lemma first_error_map:
  assumes "first_error f (map g xs) = Some e"
  obtains x where "x \<in> set xs" and "f (g x) = Some e"
  using assms by (induction xs) (auto simp: orelse_def split: option.splits)

lemma wizard_ok_gap:
  assumes s: "wizard_ok mode True s" and "full_config_validate (StateToConfig s) = Some e"
  shows "wizard_gap (mode = AnyDefault) e"
proof -
  let ?cfg = "StateToConfig s"
  have "server_config_validate (fc_server ?cfg) = None" "dhcp_proxy_validate (fc_dhcp_proxy ?cfg) = None"
      "tftp_validate (fc_tftp ?cfg) = None" "http_validate (fc_http ?cfg) = None" "bootloader_validate (fc_bootloader ?cfg) = None"
    using s set_arch_files by (simp_all add: validates wizard_ok_def services_ok_def StateToConfig_def)
  then have "orelse (first_error (\<lambda>m. map_option BadMenu (menu_entry_validate m)) (fc_menus ?cfg))
      (orelse (first_error (\<lambda>c. map_option BadClient (client_validate c)) (fc_clients ?cfg)) None) = Some e"
    using assms(2) by (simp only: full_config_validate_def orelse_simps)
  moreover have "fc_menus ?cfg = map menu_of_state (wz_menus s)" "fc_clients ?cfg = map client_of_state (wz_clients s)"
    by (simp_all add: StateToConfig_def)
  ultimately
  consider m e' where "m \<in> set (wz_menus s)" "menu_entry_validate (menu_of_state m) = Some e'" "e = BadMenu e'"
    | c e' where "c \<in> set (wz_clients s)" "client_validate (client_of_state c) = Some e'" "e = BadClient e'"
    by (simp only: orelse_def split: option.splits) (auto elim!: first_error_map)
  then show ?thesis
  proof cases
    case 1
    with menu_of_state_gap [OF wizard_ok_menu [OF s]] show ?thesis by simp
  next
    case 2
    with client_of_state_gap [OF wizard_ok_client [OF s]] show ?thesis by simp
  qed
qed

text \<open>Editing.\<close>

definition edit_open :: "edit_state \<Rightarrow> bool" where
  "edit_open st \<longleftrightarrow> wizard_ok AnyDefault True (fst st) \<and> snd st = None"

definition edit_closed :: "edit_state \<Rightarrow> bool" where
  "edit_closed st \<longleftrightarrow> wizard_ok AnyDefault True (fst st) \<and>
     (\<exists>outcome fs. snd st = Some (outcome, fs) \<and> outcome \<noteq> Inl WizardPanic \<and>
       (\<forall>cfg. outcome = Inr cfg \<longrightarrow> cfg = StateToConfig (fst st)))"

lemma save_config_closed:
  "wizard_ok AnyDefault True s \<Longrightarrow> edit_closed (s, Some (save_config marshal dir s fs))"
  by (auto simp: edit_closed_def save_config_def Let_def split: sum.splits)

lemma edit_section_step_ok:
  assumes lib: "form_lib_ok lib left" and named: "interfaces_named interfaces" and st: "edit_open st"
  shows "dlg_ok left 1 (edit_section_step lib interfaces marshal dir fs st)
    (\<lambda>(st', continue). if continue then edit_open st' else edit_closed st')"
proof -
  let ?Q = "\<lambda>(st', continue). if continue then edit_open st' else edit_closed st'"
  have s: "wizard_ok AnyDefault True (fst st)" using st by (simp add: edit_open_def)
  have go_on: "dlg_ok left 0 (dlg_bind m (\<lambda>s'. dlg_return ((s', None), True))) ?Q"
    if "dlg_ok left 0 m (wizard_ok AnyDefault True)" for m
    using that by (rule dlg_ok_bind_free) (auto simp: edit_open_def intro!: dlg_rules)
  have server: "dlg_ok left 0 (dlg_bind (step_interface lib interfaces (fst st)) (step_data_dir lib)) (wizard_ok AnyDefault True)"
    by (rule dlg_ok_bind_free [OF step_interface_ok [OF lib named s]]) (simp_all add: step_data_dir_ok [OF lib])
  have save: "dlg_ok left 0 (dlg_bind (dlg_ignore (step_summary lib (fst st))) (\<lambda>_.
      dlg_bind (Confirm lib ''Save configuration?'' True) (\<lambda>write_it.
      dlg_return (if \<not> write_it then ((fst st, None), True)
        else ((fst st, Some (save_config marshal dir (fst st) fs)), False))))) ?Q"
  proof (rule dlg_ok_bind_free [OF dlg_ok_ignore [OF step_summary_ok [OF lib, where Q = "\<lambda>_. True" and k = 0]]])
    have "?Q (if \<not> v then ((fst st, None), True) else ((fst st, Some (save_config marshal dir (fst st) fs)), False))" for v
      using s save_config_closed by (cases v) (simp_all add: edit_open_def)
    then show "dlg_ok left 0 (dlg_bind (Confirm lib ''Save configuration?'' True) (\<lambda>write_it.
      dlg_return (if \<not> write_it then ((fst st, None), True)
        else ((fst st, Some (save_config marshal dir (fst st) fs)), False)))) ?Q"
      by (intro dlg_rules lib) simp_all
  qed simp_all
  show ?thesis
    unfolding edit_section_step_def Let_def
  proof (intro Select_bind lib)
    fix sec assume "sec \<in> snd ` set edit_sections"
    show "dlg_ok left 0 (case sec of
        EditServer \<Rightarrow> dlg_bind (dlg_bind (step_interface lib interfaces (fst st)) (step_data_dir lib)) (\<lambda>s'. dlg_return ((s', None), True))
      | EditServices \<Rightarrow> dlg_bind (step_services lib (fst st)) (\<lambda>s'. dlg_return ((s', None), True))
      | EditBootloader \<Rightarrow> dlg_bind (step_bootloader lib (fst st)) (\<lambda>s'. dlg_return ((s', None), True))
      | EditNetboot \<Rightarrow> dlg_bind (step_netboot lib (fst st)) (\<lambda>s'. dlg_return ((s', None), True))
      | EditMenus \<Rightarrow> dlg_bind (step_menus_edit lib (fst st)) (\<lambda>s'. dlg_return ((s', None), True))
      | EditClients \<Rightarrow> dlg_bind (step_clients_edit lib (fst st)) (\<lambda>s'. dlg_return ((s', None), True))
      | EditSave \<Rightarrow>
          dlg_bind (dlg_ignore (step_summary lib (fst st))) (\<lambda>_.
          dlg_bind (Confirm lib ''Save configuration?'' True) (\<lambda>write_it.
          dlg_return (if \<not> write_it then ((fst st, None), True)
            else ((fst st, Some (save_config marshal dir (fst st) fs)), False))))) ?Q"
      using save go_on server step_services_ok [OF lib s] step_bootloader_ok [OF lib s] step_netboot_ok [OF lib s]
        step_menus_edit_ok [OF lib s] step_clients_edit_ok [OF lib _ s]
      by (cases sec) simp_all
  qed (simp_all add: edit_sections_def)
qed

text \<open>A user who follows a script; an answer that does not fit and the end of the script give up.\<close>

datatype answer = Enter | Text string | Say bool | Pick nat | Mark "bool list"

fun script_input :: "string \<Rightarrow> (string \<Rightarrow> bool) \<Rightarrow> answer list \<Rightarrow> (string + string) \<times> answer list" where
  "script_input val valid (Enter # u) = (if valid val then Inr val else Inl ''aborted'', u)"
| "script_input val valid (Text v # u) = (if valid v then Inr v else Inl ''aborted'', u)"
| "script_input val valid u = (Inl ''aborted'', u)"

fun script_confirm :: "answer list \<Rightarrow> (string + bool) \<times> answer list" where
  "script_confirm (Say b # u) = (Inr b, u)"
| "script_confirm u = (Inl ''aborted'', u)"

fun script_select :: "nat \<Rightarrow> answer list \<Rightarrow> (string + nat) \<times> answer list" where
  "script_select n (Pick i # u) = (if i < n then Inr i else Inl ''aborted'', u)"
| "script_select n u = (Inl ''aborted'', u)"

fun script_multi :: "nat \<Rightarrow> answer list \<Rightarrow> (string + bool list) \<times> answer list" where
  "script_multi n (Mark ms # u) = (if length ms = n then Inr ms else Inl ''aborted'', u)"
| "script_multi n u = (Inl ''aborted'', u)"

definition script_lib :: "answer list form_lib" where
  "script_lib = \<lparr>fl_input = \<lambda>_ val valid. script_input val valid, fl_confirm = \<lambda>_ _. script_confirm,
     fl_select = \<lambda>_ labels _. script_select (length labels), fl_multi = \<lambda>_ labels _. script_multi (length labels)\<rparr>"

lemma script_lib_ok: "form_lib_ok script_lib length"
proof -
  have "answer_ok length u valid (script_input val valid u)" for val valid u
    by (cases "(val, valid, u)" rule: script_input.cases) (auto simp: answer_ok_def)
  moreover have "answer_ok length u (\<lambda>_. True) (script_confirm u)" for u
    by (cases u rule: script_confirm.cases) (auto simp: answer_ok_def)
  moreover have "answer_ok length u (\<lambda>i. labels = [] \<or> i < length labels) (script_select (length labels) u)" for u and labels :: "string list"
    by (cases "(length labels, u)" rule: script_select.cases) (auto simp: answer_ok_def)
  moreover have "answer_ok length u (\<lambda>ms. length ms = length labels) (script_multi (length labels) u)" for u and labels :: "string list"
    by (cases "(length labels, u)" rule: script_multi.cases) (auto simp: answer_ok_def)
  ultimately show ?thesis by (simp add: form_lib_ok_def script_lib_def)
qed

section \<open>Properties\<close>

text \<open>C13 (wizard_run_spec). For every user who gives up or comes to an end after finitely many answers, the setup
  wizard ends, and it never panics. The entries of every client of a configuration it writes are entries of the
  menu, and validation finds no fault with it except for an entry without a kernel or a
  client without entries: ports, names, labels, types, addresses, defaults and timeouts are in order.\<close>

theorem wizard_run_spec:
  assumes "form_lib_ok lib left" and "interfaces_named interfaces"
  shows "\<exists>r fs' u'. wizard_Run lib interfaces marshal get dir fs u = Some (r, fs', u') \<and> r \<noteq> Inl WizardPanic \<and>
    (\<forall>cfg. r = Inr cfg \<longrightarrow> used_entries (fc_clients cfg) \<subseteq> set (map me_name (fc_menus cfg)) \<and>
      (\<forall>e. full_config_validate cfg = Some e \<longrightarrow> wizard_gap False e))"
proof -
  obtain r u' where r: "run_steps (wizard_steps lib interfaces) (DefaultState\<lparr>wz_config_dir := dir\<rparr>) u = Some (r, u')"
    "r \<noteq> Inl WizardPanic" "\<forall>s. r = Inr s \<longrightarrow> wizard_ok ListedDefault True s"
    using wizard_steps_ok [OF assms] default_state_ok unfolding steps_ok_def by blast
  show ?thesis
  proof (cases r)
    case (Inl e)
    with r show ?thesis by (simp add: wizard_Run_def)
  next
    case (Inr s)
    with r have s: "wizard_ok ListedDefault True s" by simp
    note facts = wizard_ok_references [OF s] wizard_ok_gap [OF s]
    show ?thesis
      using r(1) Inr facts by (simp add: wizard_Run_def Let_def split: option.split sum.split)
  qed
qed

text \<open>C12 (wizard_edit_spec). Editing a valid, consistent configuration ends and never panics. In what it saves every client
  entry is an entry of the menu, through all additions, changes of names and removals; validation
  finds no fault with it except for an entry without a kernel, a client without entries or a default that is none of
  the client's entries.\<close>

theorem wizard_edit_spec:
  assumes "form_lib_ok lib left" and "interfaces_named interfaces"
    and "full_config_validate existing = None" and "consistent existing"
  shows "\<exists>r fs' u'. wizard_RunEdit lib interfaces marshal dir existing fs u = Some (r, fs', u') \<and> r \<noteq> Inl WizardPanic \<and>
    (\<forall>cfg. r = Inr cfg \<longrightarrow> used_entries (fc_clients cfg) \<subseteq> set (map me_name (fc_menus cfg)) \<and>
      (\<forall>e. full_config_validate cfg = Some e \<longrightarrow> wizard_gap True e))"
proof -
  let ?s = "(ConfigToState existing)\<lparr>wz_config_dir := dir\<rparr>"
  let ?edit = "dlg_bind (dlg_ignore (step_summary lib ?s)) (\<lambda>_.
      dlg_loop (edit_section_step lib interfaces marshal dir fs) (?s, None))"
  have "edit_open (?s, None)" using edit_state_ok [OF assms(3,4)] by (simp add: edit_open_def)
  then have loop: "dlg_ok left 0 (dlg_loop (edit_section_step lib interfaces marshal dir fs) (?s, None)) edit_closed"
    using edit_section_step_ok [OF assms(1,2)] by (rule dlg_ok_loop [rotated])
  have edit: "dlg_ok left 0 ?edit edit_closed"
    by (rule dlg_ok_bind_free [OF dlg_ok_ignore [OF step_summary_ok [OF assms(1), where Q = "\<lambda>_. True" and k = 0]]])
       (simp_all add: loop)
  show ?thesis
  proof (rule dlg_okE [OF edit, of u])
    fix e u' assume "?edit u = Some (Inl (FormError e), u')"
    then show ?thesis by (simp add: wizard_RunEdit_def)
  next
    fix st u' assume st: "?edit u = Some (Inr st, u')" "edit_closed st"
    then obtain outcome fs' where outcome: "snd st = Some (outcome, fs')" "outcome \<noteq> Inl WizardPanic"
      "\<And>cfg. outcome = Inr cfg \<Longrightarrow> cfg = StateToConfig (fst st)" "wizard_ok AnyDefault True (fst st)"
      by (auto simp: edit_closed_def)
    note facts = wizard_ok_references [OF outcome(4)] wizard_ok_gap [OF outcome(4)]
    have "wizard_RunEdit lib interfaces marshal dir existing fs u = Some (outcome, fs', u')"
      using st(1) outcome(1) by (cases st) (simp add: wizard_RunEdit_def)
    with outcome(2,3) facts show ?thesis by auto
  qed
qed

text \<open>A first run without services, whose last answer is not to write the configuration.\<close>

definition first_script :: "answer list" where
  "first_script = [Enter, Enter, Say False, Say False, Say False, Say False, Pick 2, Say False, Mark [True], Say False, Say False]"

lemma first_session:
  "(case wizard_Run script_lib (Inl []) (\<lambda>_. Inr ''doc'') (\<lambda>_. Inl []) ''etc'' empty_fs first_script of
      Some (Inr cfg, fs, u) \<Rightarrow> fc_clients cfg \<noteq> [] \<and> os_read_file fs (config_path ''etc'') = Some ''doc'' \<and> u = []
    | _ \<Rightarrow> False)"
  by code_simp

theorem wizard_run_spec_witness:
  "\<exists>cfg fs. wizard_Run script_lib (Inl []) (\<lambda>_. Inr ''doc'') (\<lambda>_. Inl []) ''etc'' empty_fs first_script = Some (Inr cfg, fs, []) \<and>
     os_read_file fs (config_path ''etc'') = Some ''doc'' \<and> fc_clients cfg \<noteq> [] \<and>
     used_entries (fc_clients cfg) \<subseteq> set (map me_name (fc_menus cfg))"
proof -
  have "interfaces_named (Inl [])" by (simp add: interfaces_named_def)
  from wizard_run_spec [OF script_lib_ok this, of "\<lambda>_. Inr ''doc''" "\<lambda>_. Inl []" "''etc''" empty_fs first_script]
  obtain r fs u where run: "wizard_Run script_lib (Inl []) (\<lambda>_. Inr ''doc'') (\<lambda>_. Inl []) ''etc'' empty_fs first_script = Some (r, fs, u)"
    "\<And>cfg. r = Inr cfg \<Longrightarrow> used_entries (fc_clients cfg) \<subseteq> set (map me_name (fc_menus cfg))" by blast
  with first_session show ?thesis by (cases r) simp_all
qed

text \<open>A configuration whose default entry is that of netboot.xyz, and a user who removes this entry and saves.\<close>

definition netboot_config :: full_config where
  "netboot_config = sample_full_config
     \<lparr>fc_menus := fc_menus sample_full_config @ [menu_of_state remote_entry],
      fc_clients := map (\<lambda>c. c\<lparr>cl_menu := \<lparr>mc_entries = [''local'', ''netboot-xyz''], mc_default = ''netboot-xyz'', mc_timeout = 10\<rparr>\<rparr>)
        (fc_clients sample_full_config)\<rparr>"

definition skip_script :: "answer list" where
  "skip_script = [Say True, Pick 3, Pick 2, Pick 6, Say True, Say True]"

lemma skip_session:
  "(case wizard_RunEdit script_lib (Inl []) (\<lambda>_. Inr ''doc'') ''etc'' netboot_config empty_fs skip_script of
      Some (Inr cfg, fs, u) \<Rightarrow> map me_name (fc_menus cfg) = [''local''] \<and>
        map cl_menu (fc_clients cfg) = [\<lparr>mc_entries = [''local''], mc_default = ''netboot-xyz'', mc_timeout = 10\<rparr>] \<and> u = []
    | _ \<Rightarrow> False)"
  by code_simp

theorem wizard_edit_spec_witness:
  "\<exists>cfg fs. wizard_RunEdit script_lib (Inl []) (\<lambda>_. Inr ''doc'') ''etc'' netboot_config empty_fs skip_script = Some (Inr cfg, fs, []) \<and>
     used_entries (fc_clients cfg) \<subseteq> {''local''} \<and> full_config_validate cfg \<noteq> None"
proof -
  have named: "interfaces_named (Inl [])" by (simp add: interfaces_named_def)
  have "full_config_validate netboot_config = None" by code_simp
  moreover have "consistent netboot_config"
    by (simp add: consistent_def netboot_config_def sample_full_config_def empty_full_config_def used_entries_def
        client_is_wildcard_iff WildcardMAC_def mac_len_ok_def menu_of_state_def remote_entry_def empty_menu_state_def)
  ultimately obtain r fs u where r: "wizard_RunEdit script_lib (Inl []) (\<lambda>_. Inr ''doc'') ''etc'' netboot_config empty_fs skip_script = Some (r, fs, u)"
    "\<And>cfg. r = Inr cfg \<Longrightarrow> used_entries (fc_clients cfg) \<subseteq> set (map me_name (fc_menus cfg))"
    using wizard_edit_spec [OF script_lib_ok named, of netboot_config "\<lambda>_. Inr ''doc''" "''etc''" empty_fs skip_script] by blast
  with skip_session obtain cfg where cfg: "r = Inr cfg" "map me_name (fc_menus cfg) = [''local'']" "u = []"
    "map cl_menu (fc_clients cfg) = [\<lparr>mc_entries = [''local''], mc_default = ''netboot-xyz'', mc_timeout = 10\<rparr>]"
    by (auto split: sum.splits)
  then have "\<not> (\<forall>c \<in> set (fc_clients cfg). menu_config_validate (cl_menu c) = None)"
    by (auto simp: validates)
  then have "full_config_validate cfg \<noteq> None" by (auto simp: validates)
  with r cfg show ?thesis by auto
qed

end
