(* ===== verification/Commands.thy ===== *)
theory Commands
  imports Serve WizardRun
begin

text \<open>
  The other commands (\<open>internal/ui/cli\<close>): those that read the configuration (\<open>validate\<close>, \<open>precheck\<close>,
  \<open>menu\<close>, \<open>client\<close>, \<open>bootloader\<close>, \<open>config\<close>), those that ask a running server through its management
  interface (\<open>status\<close>, \<open>test\<close>, \<open>session\<close>, \<open>logs\<close>) and those that run the wizard (\<open>init\<close>, \<open>edit\<close>). The
  output is a list of lines and of tables, whose columns \<open>tabwriter\<close> aligns, and the texts of errors; the result is
  the output and an error, with which the process ends unsuccessfully. Flags are arguments.
\<close>

section \<open>Output and errors\<close>

datatype api_client_error = RequestFailed string | ApiReturned int string | BadAnswer string

datatype cli_error =
  CliNotLoaded load_error
| CliNotValid config_error
| CliValidationFailed
| CliNotFound string
| CliFilesMissing
| CliChecksFailed
| CliChecksPanic
| CliConfigExists string
| CliApi api_client_error

datatype out = Line string | Table "string list list" | ErrorLine cli_error

type_synonym cli_result = "out list \<times> cli_error option"

definition go_bool :: "bool \<Rightarrow> string" where
  "go_bool b = (if b then ''true'' else ''false'')"

definition go_strings :: "string list \<Rightarrow> string" where
  "go_strings ss = CHR ''['' # joined '' '' ss @ '']''"

definition pad_right :: "nat \<Rightarrow> string \<Rightarrow> string" where
  "pad_right n s = s @ replicate (n - length s) (CHR '' '')"

definition dash_if_empty :: "string \<Rightarrow> string" where
  "dash_if_empty s = (if s = [] then ''-'' else s)"

definition line_if :: "string \<Rightarrow> string \<Rightarrow> out list" where
  "line_if label s = (if s \<noteq> [] then [Line (label @ s)] else [])"

definition with_config :: "load_error + full_config \<Rightarrow> (full_config \<Rightarrow> cli_result) \<Rightarrow> cli_result" where
  "with_config loaded f = (case loaded of Inl err \<Rightarrow> ([], Some (CliNotLoaded err)) | Inr cfg \<Rightarrow> f cfg)"

section \<open>Checking the configuration\<close>

definition runValidate :: "string \<Rightarrow> load_error + full_config \<Rightarrow> cli_result" where
  "runValidate dir loaded =
     (let first = [Line (''Validating configuration in '' @ dir @ '' ...''), Line []] in
      case loaded of
        Inl err \<Rightarrow> (first @ [Line ''  FAIL  Configuration loading failed:'', ErrorLine (CliNotLoaded err), Line []],
          Some CliValidationFailed)
      | Inr cfg \<Rightarrow>
          (case full_config_validate cfg of
             Some err \<Rightarrow> (first @ [Line ''  FAIL  Configuration validation failed:'', ErrorLine (CliNotValid err), Line []],
               Some CliValidationFailed)
           | None \<Rightarrow>
               (first @
                [Line (''  OK    Server:     interface='' @ sc_interface (fc_server cfg) @ '', data_dir='' @ sc_data_dir (fc_server cfg)),
                 Line (''  OK    DHCP Proxy: enabled='' @ go_bool (dp_enabled (fc_dhcp_proxy cfg))),
                 Line (''  OK    TFTP:       enabled='' @ go_bool (tc_enabled (fc_tftp cfg))),
                 Line (''  OK    HTTP:       enabled='' @ go_bool (hc_enabled (fc_http cfg))),
                 Line (''  OK    Menus:      '' @ dec_of_nat (length (fc_menus cfg)) @ '' entries''),
                 Line (''  OK    Clients:    '' @ dec_of_nat (length (fc_clients cfg)) @ '' configured''),
                 Line [], Line ''Configuration is valid.''], None)))"

definition precheck_line :: "preflight_result \<Rightarrow> out" where
  "precheck_line r =
     (let indicator = (case pr_status r of StatusFail \<Rightarrow> ''FAIL'' | StatusWarn \<Rightarrow> ''WARN'' | StatusOK \<Rightarrow> ''OK  '')
      in Line (''  '' @ indicator @ ''  '' @ pad_right 24 (pr_name r) @ '' '' @ pr_message r))"

definition runPrecheck :: "pf_env \<Rightarrow> load_error + full_config \<Rightarrow> cli_result" where
  "runPrecheck env loaded =
     with_config loaded (\<lambda>cfg.
       case full_config_validate cfg of
         Some err \<Rightarrow> ([], Some (CliNotValid err))
       | None \<Rightarrow>
           (case run_preflight env cfg of
              None \<Rightarrow> ([Line ''Pre-flight checks'', Line []], Some CliChecksPanic)
            | Some (results, all_ok) \<Rightarrow>
                let lines = [Line ''Pre-flight checks'', Line []] @ map precheck_line results @ [Line []] in
                if \<not> all_ok then
                  (lines @ [Line ''Some checks failed. Fix the issues above before starting the server.''], Some CliChecksFailed)
                else (lines @ [Line ''All checks passed. Ready to start.''], None)))"

text \<open>What \<open>serve\<close> prints of the checks, and once it has started.\<close>

definition serve_check_line :: "preflight_result \<Rightarrow> out" where
  "serve_check_line r =
     (case pr_status r of
        StatusOK \<Rightarrow> Line (''  OK    '' @ pr_message r)
      | StatusWarn \<Rightarrow> Line (''  WARN  '' @ pr_message r)
      | StatusFail \<Rightarrow> Line (''  FAIL  '' @ pr_message r))"

definition serve_summary :: "full_config \<Rightarrow> out list" where
  "serve_summary cfg =
     [Line ''Services running:''] @
     (if tc_enabled (fc_tftp cfg) then [Line (''  TFTP:  :'' @ dec_of_int (tc_port (fc_tftp cfg)))] else []) @
     (if hc_enabled (fc_http cfg) then
        [Line (''  HTTP:  :'' @ dec_of_int (hc_port (fc_http cfg))),
         Line (''  API:   :'' @ dec_of_int (hc_port (fc_http cfg)) @ ''/api/v1/'')] else []) @
     (if dp_enabled (fc_dhcp_proxy cfg) then
        [Line (''  DHCP:  :'' @ dec_of_int (dp_port (fc_dhcp_proxy cfg)) @ '' (proxy :'' @
           dec_of_int (dp_proxy_port (fc_dhcp_proxy cfg)) @ '') -- requires root'')] else []) @
     [Line []]"

section \<open>Menus\<close>

definition menu_row :: "menu_entry \<Rightarrow> string list" where
  "menu_row m =
     [me_name m, me_label m, menu_type_string (me_type m), dash_if_empty (bp_kernel (me_boot m)), me_source m]"

definition runMenuList :: "load_error + full_config \<Rightarrow> cli_result" where
  "runMenuList loaded =
     with_config loaded (\<lambda>cfg.
       ([Table ([''NAME'', ''LABEL'', ''TYPE'', ''KERNEL'', ''SOURCE''] # map menu_row (fc_menus cfg))], None))"

definition menu_details :: "menu_entry \<Rightarrow> out list" where
  "menu_details m =
     [Line (''Menu Entry: '' @ me_name m), Line (''  Label:       '' @ me_label m),
      Line (''  Type:        '' @ menu_type_string (me_type m)), Line (''  Description: '' @ me_description m),
      Line (''  Source:      '' @ me_source m)] @
     (if me_type m \<noteq> MenuExit then
        [Line ''  Boot:''] @ line_if ''    Kernel:  '' (bp_kernel (me_boot m)) @
        line_if ''    Initrd:  '' (bp_initrd (me_boot m)) @ line_if ''    Cmdline: '' (bp_cmdline (me_boot m)) @
        line_if ''    Binary:  '' (bp_binary (me_boot m)) @ line_if ''    Loader:  '' (bp_loader (me_boot m))
      else []) @
     (if mh_path (me_http m) \<noteq> [] \<or> mh_files (me_http m) \<noteq> [] then
        [Line ''  HTTP:''] @ line_if ''    Path:  '' (mh_path (me_http m)) @ line_if ''    Files: '' (mh_files (me_http m))
      else [])"

fun show_menu :: "string \<Rightarrow> menu_entry list \<Rightarrow> cli_result" where
  "show_menu name [] = ([], Some (CliNotFound name))"
| "show_menu name (m # ms) = (if me_name m = name then (menu_details m, None) else show_menu name ms)"

definition runMenuShow :: "load_error + full_config \<Rightarrow> string \<Rightarrow> cli_result" where
  "runMenuShow loaded name = with_config loaded (\<lambda>cfg. show_menu name (fc_menus cfg))"

section \<open>Clients\<close>

definition client_mac_text :: "client \<Rightarrow> string" where
  "client_mac_text c = (if client_is_wildcard c then ''*'' else mac_string (cl_mac c))"

definition client_row :: "client \<Rightarrow> string list" where
  "client_row c =
     [client_mac_text c, cl_name c, if cl_enabled c then ''yes'' else ''no'',
      dec_of_nat (length (mc_entries (cl_menu c))), dash_if_empty (mc_default (cl_menu c)), cl_source c]"

definition runClientList :: "load_error + full_config \<Rightarrow> cli_result" where
  "runClientList loaded =
     with_config loaded (\<lambda>cfg.
       ([Table ([''MAC'', ''NAME'', ''ENABLED'', ''ENTRIES'', ''DEFAULT'', ''SOURCE''] # map client_row (fc_clients cfg))], None))"

definition client_details :: "name_order \<Rightarrow> client \<Rightarrow> out list" where
  "client_details rng c =
     [Line (''Client: '' @ cl_name c), Line (''  MAC:     '' @ client_mac_text c),
      Line (''  Enabled: '' @ go_bool (cl_enabled c)), Line (''  Source:  '' @ cl_source c), Line ''  Menu:'',
      Line (''    Entries: '' @ go_strings (mc_entries (cl_menu c))), Line (''    Default: '' @ mc_default (cl_menu c)),
      Line (''    Timeout: '' @ dec_of_int (mc_timeout (cl_menu c)))] @
     (case cl_vars c of
        None \<Rightarrow> []
      | Some vars \<Rightarrow>
          if vars = [] then []
          else Line ''  Vars:'' # map (\<lambda>(k, v). Line (''    '' @ k @ '' = '' @ v)) (rng vars))"

fun show_client :: "name_order \<Rightarrow> string \<Rightarrow> client list \<Rightarrow> cli_result" where
  "show_client rng mac [] = ([], Some (CliNotFound mac))"
| "show_client rng mac (c # cs) =
     (if client_mac_text c = mac \<or> mac_string (cl_mac c) = mac then (client_details rng c, None)
      else show_client rng mac cs)"

definition runClientShow :: "name_order \<Rightarrow> load_error + full_config \<Rightarrow> string \<Rightarrow> cli_result" where
  "runClientShow rng loaded mac = with_config loaded (\<lambda>cfg. show_client rng mac (fc_clients cfg))"

section \<open>Boot loaders\<close>

definition runBootloaderList :: "load_error + full_config \<Rightarrow> cli_result" where
  "runBootloaderList loaded =
     with_config loaded (\<lambda>cfg.
       let bl = fc_bootloader cfg in
       ([Table [[''ARCH'', ''FILENAME''], [''UEFI x64'', bl_uefix64 bl], [''UEFI x86'', bl_uefix86 bl],
           [''BIOS'', bl_bios bl], [''ARM64'', bl_arm64 bl]],
         Line [], Line (''Directory: '' @ bl_dir bl), Line (''Chain URL: '' @ bl_chain_url bl)], None))"

text \<open>The four files are a map, which is walked in any order; \<open>os.Stat\<close> gives the size of a file, or
  the error and whether it is that the file does not exist.\<close>

definition check_loader ::
  "(string \<Rightarrow> (bool \<times> string) + nat) \<Rightarrow> string \<Rightarrow> string \<times> string \<Rightarrow> out \<times> bool" where
  "check_loader stat dir = (\<lambda>(arch, filename).
     if filename = [] then (Line (''  SKIP  '' @ arch @ '': not configured''), True)
     else
       let path = path_join [dir, filename] in
       case stat path of
         Inl (not_exist, err) \<Rightarrow>
           if not_exist then (Line (''  FAIL  '' @ arch @ '': '' @ path @ '' not found''), False)
           else (Line (''  FAIL  '' @ arch @ '': '' @ err), False)
       | Inr sz \<Rightarrow> (Line (''  OK    '' @ arch @ '': '' @ path @ '' ('' @ dec_of_nat sz @ '' bytes)''), True))"

definition runBootloaderCheck ::
  "(string \<Rightarrow> (bool \<times> string) + nat) \<Rightarrow> name_order \<Rightarrow> load_error + full_config \<Rightarrow> cli_result" where
  "runBootloaderCheck stat rng loaded =
     with_config loaded (\<lambda>cfg.
       let bl = fc_bootloader cfg;
           dir = path_join [sc_data_dir (fc_server cfg), bl_dir bl];
           files = [(''UEFI x64'', bl_uefix64 bl), (''UEFI x86'', bl_uefix86 bl), (''BIOS'', bl_bios bl), (''ARM64'', bl_arm64 bl)];
           checks = map (check_loader stat dir) (rng files)
       in if \<not> list_all snd checks then (map fst checks, Some CliFilesMissing)
          else (map fst checks @ [Line [], Line ''All bootloader files present.''], None))"

section \<open>The configuration\<close>

definition runConfigShow :: "string \<Rightarrow> load_error + full_config \<Rightarrow> cli_result" where
  "runConfigShow dir loaded =
     with_config loaded (\<lambda>cfg.
       ([Line (''Configuration: '' @ dir), Line [], Line ''Server:'',
         Line (''  Interface: '' @ sc_interface (fc_server cfg)), Line (''  Data Dir:  '' @ sc_data_dir (fc_server cfg)),
         Line (''  Log Level: '' @ lc_level (sc_logging (fc_server cfg))),
         Line (''  Log Format: '' @ lc_format (sc_logging (fc_server cfg))),
         Line [], Line ''DHCP Proxy:'', Line (''  Enabled:    '' @ go_bool (dp_enabled (fc_dhcp_proxy cfg)))] @
        (if dp_enabled (fc_dhcp_proxy cfg) then
           [Line (''  Port:       '' @ dec_of_int (dp_port (fc_dhcp_proxy cfg))),
            Line (''  Proxy Port: '' @ dec_of_int (dp_proxy_port (fc_dhcp_proxy cfg)))] else []) @
        [Line [], Line ''TFTP:'', Line (''  Enabled: '' @ go_bool (tc_enabled (fc_tftp cfg)))] @
        (if tc_enabled (fc_tftp cfg) then [Line (''  Port:    '' @ dec_of_int (tc_port (fc_tftp cfg)))] else []) @
        [Line [], Line ''HTTP:'', Line (''  Enabled: '' @ go_bool (hc_enabled (fc_http cfg)))] @
        (if hc_enabled (fc_http cfg) then
           [Line (''  Port:    '' @ dec_of_int (hc_port (fc_http cfg))),
            Line (''  TLS:     '' @ go_bool (tls_enabled (hc_tls (fc_http cfg))))] else []) @
        [Line [], Line ''Bootloader:'', Line (''  Directory: '' @ bl_dir (fc_bootloader cfg)),
         Line (''  Chain URL: '' @ bl_chain_url (fc_bootloader cfg)),
         Line [], Line (''Menus: '' @ dec_of_nat (length (fc_menus cfg)) @ '' entries'')] @
        map (\<lambda>m. Line (''  - '' @ me_name m @ '' ('' @ menu_type_string (me_type m) @ ''): '' @ me_label m)) (fc_menus cfg) @
        [Line [], Line (''Clients: '' @ dec_of_nat (length (fc_clients cfg)) @ '' configured'')] @
        map (\<lambda>c. Line (''  - '' @ (if client_is_wildcard c then ''* (default)'' else mac_string (cl_mac c)) @
          '': '' @ cl_name c)) (fc_clients cfg), None))"

section \<open>Asking a running server\<close>

text \<open>A request is answered with a status and a body, or fails; the body is decoded.\<close>

type_synonym api_net = "string \<Rightarrow> string + int \<times> string"

definition api_answer_value :: "(string \<Rightarrow> string + 'v) \<Rightarrow> string + int \<times> string \<Rightarrow> api_client_error + 'v" where
  "api_answer_value decode res =
     (case res of
        Inl err \<Rightarrow> Inl (RequestFailed err)
      | Inr (code, body) \<Rightarrow>
          if code \<noteq> 200 then Inl (ApiReturned code body) else wrap_error BadAnswer (decode body))"

definition api_get :: "api_net \<Rightarrow> (string \<Rightarrow> string + 'v) \<Rightarrow> string \<Rightarrow> string \<Rightarrow> api_client_error + 'v" where
  "api_get get decode base path = api_answer_value decode (get (base @ path))"

text \<open>Without a value to fill in, the body of a good answer is not decoded.\<close>

definition api_post ::
  "api_net \<Rightarrow> (string \<Rightarrow> string + 'v) option \<Rightarrow> string \<Rightarrow> string \<Rightarrow> api_client_error + 'v option" where
  "api_post post decode base path =
     (case decode of
        Some dec \<Rightarrow> api_answer_value (\<lambda>body. sum_bind (dec body) (\<lambda>v. Inr (Some v))) (post (base @ path))
      | None \<Rightarrow> api_answer_value (\<lambda>_. Inr None) (post (base @ path)))"

definition with_answer :: "api_client_error + 'v \<Rightarrow> ('v \<Rightarrow> cli_result) \<Rightarrow> cli_result" where
  "with_answer res f = (case res of Inl err \<Rightarrow> ([], Some (CliApi err)) | Inr v \<Rightarrow> f v)"

definition runStatus :: "api_net \<Rightarrow> (string \<Rightarrow> string + status_json) \<Rightarrow> string \<Rightarrow> cli_result" where
  "runStatus get decode addr =
     with_answer (api_get get decode addr ''/api/v1/status'') (\<lambda>status.
       ([Line (''Version:  '' @ tj_version status), Line (''Uptime:   '' @ tj_uptime status)] @
        (case tj_health status of
           None \<Rightarrow> []
         | Some h \<Rightarrow>
             Line (''Health:   '' @ hj_status h) #
             map (\<lambda>c. Line (''  '' @ pad_right 20 (kj_name c) @ '' '' @ kj_status c @ ''  '' @ kj_message c)) (hj_checks h)),
        None))"

definition test_line :: "check_json \<Rightarrow> out" where
  "test_line c =
     (let indicator = (if kj_status c \<noteq> ''ok'' then ''FAIL'' else ''OK  '')
      in Line (''  '' @ indicator @ ''  '' @ pad_right 20 (kj_name c) @ '' '' @ kj_message c @ '' ('' @ kj_duration c @ '')''))"

definition runTest :: "api_net \<Rightarrow> (string \<Rightarrow> string + health_json) \<Rightarrow> string \<Rightarrow> cli_result" where
  "runTest post decode addr =
     with_answer (api_post post (Some decode) addr ''/api/v1/test'') (\<lambda>result.
       case result of
         None \<Rightarrow> ([], None)
       | Some h \<Rightarrow> (Line (''Health: '' @ hj_status h) # Line [] # map test_line (hj_checks h), None))"

definition session_row :: "session_json \<Rightarrow> string list" where
  "session_row s = [sj_id s, sj_mac s, sj_state s, sj_arch s, sj_at s]"

definition runSessionList :: "api_net \<Rightarrow> (string \<Rightarrow> string + session_json list) \<Rightarrow> string \<Rightarrow> cli_result" where
  "runSessionList get decode addr =
     with_answer (api_get get decode addr ''/api/v1/sessions'') (\<lambda>sessions.
       if sessions = [] then ([Line ''No active sessions.''], None)
       else ([Table ([''ID'', ''MAC'', ''STATE'', ''ARCH'', ''STARTED''] # map session_row sessions)], None))"

fun show_session :: "string \<Rightarrow> session_json list \<Rightarrow> cli_result" where
  "show_session sid [] = ([], Some (CliNotFound sid))"
| "show_session sid (s # ss) =
     (if sj_id s = sid then
        ([Line (''Session:  '' @ sj_id s), Line (''MAC:      '' @ sj_mac s), Line (''State:    '' @ sj_state s),
          Line (''Arch:     '' @ sj_arch s), Line (''Started:  '' @ sj_at s)], None)
      else show_session sid ss)"

definition runSessionShow :: "api_net \<Rightarrow> (string \<Rightarrow> string + session_json list) \<Rightarrow> string \<Rightarrow> string \<Rightarrow> cli_result" where
  "runSessionShow get decode addr sid =
     with_answer (api_get get decode addr ''/api/v1/sessions'') (show_session sid)"

definition logs_path :: "int \<Rightarrow> string \<Rightarrow> string \<Rightarrow> string" where
  "logs_path limit service mac =
     ''/api/v1/logs?limit='' @ dec_of_int limit @
     (if service \<noteq> [] then ''&service='' @ service else []) @ (if mac \<noteq> [] then ''&mac='' @ mac else [])"

definition log_line :: "log_json \<Rightarrow> out" where
  "log_line l =
     (let svc = (if lj_service l = [] then ''---'' else lj_service l);
          mac = (if lj_mac l = [] then [] else CHR '' '' # lj_mac l)
      in Line (pad_right 5 (lj_level l) @ '' '' @ pad_right 8 svc @ '' '' @ lj_message l @ mac))"

definition runLogs ::
  "api_net \<Rightarrow> (string \<Rightarrow> string + log_json list) \<Rightarrow> string \<Rightarrow> int \<Rightarrow> string \<Rightarrow> string \<Rightarrow> cli_result" where
  "runLogs get decode addr limit service mac =
     with_answer (api_get get decode addr (logs_path limit service mac)) (\<lambda>logs.
       if logs = [] then ([Line ''No log entries.''], None) else (map log_line logs, None))"

section \<open>The wizard\<close>

datatype setup_error = SetupExists string | SetupNotLoaded load_error | SetupFailed wizard_error

definition config_exists :: "file_system \<Rightarrow> string \<Rightarrow> bool" where
  "config_exists fs dir =
     (case os_read_dir fs dir of
        None \<Rightarrow> False
      | Some entries \<Rightarrow> entries \<noteq> [] \<and> list_ex (\<lambda>(name, _). name = ''bootforge.toml'') entries)"

definition runInit ::
  "'u form_lib \<Rightarrow> string + net_iface list \<Rightarrow> (raw_file \<Rightarrow> string + string) \<Rightarrow> http_get \<Rightarrow> string \<Rightarrow> file_system \<Rightarrow> 'u \<Rightarrow>
   (setup_error option \<times> file_system \<times> 'u) option" where
  "runInit lib interfaces marshal get dir fs u =
     (if config_exists fs dir then Some (Some (SetupExists dir), fs, u)
      else map_option (\<lambda>(r, fs', u'). (case r of Inl err \<Rightarrow> Some (SetupFailed err) | Inr _ \<Rightarrow> None, fs', u'))
        (wizard_Run lib interfaces marshal get dir fs u))"

definition runEdit ::
  "'u form_lib \<Rightarrow> string + net_iface list \<Rightarrow> (raw_file \<Rightarrow> string + string) \<Rightarrow> string \<Rightarrow> load_error + full_config \<Rightarrow>
   file_system \<Rightarrow> 'u \<Rightarrow> (setup_error option \<times> file_system \<times> 'u) option" where
  "runEdit lib interfaces marshal dir loaded fs u =
     (case loaded of
        Inl err \<Rightarrow> Some (Some (SetupNotLoaded err), fs, u)
      | Inr existing \<Rightarrow>
          map_option (\<lambda>(r, fs', u'). (case r of Inl err \<Rightarrow> Some (SetupFailed err) | Inr _ \<Rightarrow> None, fs', u'))
            (wizard_RunEdit lib interfaces marshal dir existing fs u))"

section \<open>The build\<close>

definition buildinfo_String :: "string \<Rightarrow> string \<Rightarrow> string \<Rightarrow> string \<Rightarrow> string" where
  "buildinfo_String version commit dirty build_type =
     (let v = version @ '' ('' @ commit @ '')'';
          v = (if dirty = ''true'' then v @ ''-dirty'' else v)
      in v @ '' ['' @ build_type @ '']'')"

definition buildinfo_Short :: "string \<Rightarrow> string \<Rightarrow> string" where
  "buildinfo_Short version commit = CHR ''v'' # version @ '' ('' @ commit @ '')''"

section \<open>Listed names\<close>

lemma show_menu_listed:
  "distinct (map me_name ms) \<Longrightarrow> m \<in> set ms \<Longrightarrow> show_menu (me_name m) ms = (menu_details m, None)"
proof (induction ms)
  case (Cons a ms)
  show ?case
  proof (cases "m = a")
    case False
    with Cons.prems have "m \<in> set ms" "me_name a \<noteq> me_name m" by (simp_all, metis image_eqI)
    with Cons show ?thesis by simp
  qed simp
qed simp

lemma show_client_first:
  assumes "c \<in> set cs"
    and "\<And>c'. c' \<in> set cs \<Longrightarrow> client_mac_text c' = mac \<or> mac_string (cl_mac c') = mac \<Longrightarrow> c' = c"
    and "client_mac_text c = mac \<or> mac_string (cl_mac c) = mac"
  shows "show_client rng mac cs = (client_details rng c, None)"
  using assms(1,2)
proof (induction cs)
  case (Cons a cs)
  show ?case
  proof (cases "client_mac_text a = mac \<or> mac_string (cl_mac a) = mac")
    case True
    with Cons.prems(2) [of a] have "a = c" by simp
    with assms(3) show ?thesis by simp
  next
    case False
    with assms(3) have "a \<noteq> c" by blast
    with False Cons show ?thesis by simp
  qed
qed simp

lemma mac_string_not_star: "mac_string (Some xs) \<noteq> ''*''"
proof
  assume "mac_string (Some xs) = ''*''"
  then have "CHR ''*'' \<in> set (bytes_string xs)" by simp
  then show False using bytes_string_chars [of "CHR ''*''" xs] by (auto simp: all_lt_16 hex_char_def)
qed

lemma mac_text_unique:
  assumes cons: "consistent cfg" and c: "c \<in> set (fc_clients cfg)" and c': "c' \<in> set (fc_clients cfg)"
    and eq: "client_mac_text c' = client_mac_text c \<or> mac_string (cl_mac c') = client_mac_text c"
  shows "c' = c"
proof -
  obtain bs bs' where bs: "cl_mac c = Some bs" "cl_mac c' = Some bs'" using cons c c' by (fastforce simp: consistent_def)
  show ?thesis
  proof (cases "client_is_wildcard c")
    case True
    with eq bs mac_string_not_star have wild: "client_is_wildcard c'" by (auto simp: client_mac_text_def split: if_splits)
    have sub: "{c, c'} \<subseteq> set (filter client_is_wildcard (fc_clients cfg))" using True wild c c' by simp
    obtain x where "set (filter client_is_wildcard (fc_clients cfg)) \<subseteq> {x}"
      using consistent_clients(3) [OF cons] by (cases "filter client_is_wildcard (fc_clients cfg)") auto
    with sub show ?thesis by blast
  next
    case False
    then have plain: "client_mac_text c = mac_string (cl_mac c)" by (simp add: client_mac_text_def)
    with eq bs mac_string_not_star [of bs] have "mac_string (cl_mac c') = mac_string (cl_mac c)"
      by (auto simp: client_mac_text_def split: if_splits)
    with False bs have "\<not> client_is_wildcard c' \<and> mac_key c' = mac_key c" by (simp add: client_is_wildcard_def)
    with inj_onD [OF consistent_clients(2) [OF cons], of c' c] c c' False show ?thesis by simp
  qed
qed

section \<open>Properties\<close>

lemma show_menu_missing: "show_menu name ms = ([], Some (CliNotFound name)) \<longleftrightarrow> name \<notin> me_name ` set ms"
  by (induction ms) (auto simp: menu_details_def)

lemma show_client_missing:
  "show_client rng mac cs = ([], Some (CliNotFound mac)) \<longleftrightarrow>
     mac \<notin> client_mac_text ` set cs \<and> mac \<notin> (\<lambda>c. mac_string (cl_mac c)) ` set cs"
  by (induction cs) (auto simp: client_details_def)

lemma listed_macs_distinct:
  assumes "consistent cfg"
  shows "distinct (map client_mac_text (fc_clients cfg))"
  using consistent_clients(1) [OF assms] mac_text_unique [OF assms]
  by (auto simp: distinct_map intro!: inj_onI)

text \<open>C40 (listed_items_shown). The menu list and the client list of a loaded configuration have one row for each
  menu entry and each client, in their order, disabled and wildcard clients included, and their first cells are
  distinct. Asking for an item by the first cell of its row describes this item; asking for anything else
  is reported as not found, but for a client that is listed as \<open>*\<close>, which its address finds too.\<close>

theorem listed_items_shown:
  assumes "load_dir rng unmarshal fs dir = Inr cfg"
  shows "(\<exists>header rows. runMenuList (Inr cfg) = ([Table (header # rows)], None) \<and> distinct (map hd rows) \<and>
      list_all2 (\<lambda>row m. row ! 1 = me_label m \<and> row ! 2 = menu_type_string (me_type m) \<and>
        runMenuShow (Inr cfg) (hd row) = (menu_details m, None)) rows (fc_menus cfg) \<and>
      (runMenuShow (Inr cfg) name = ([], Some (CliNotFound name)) \<longleftrightarrow> name \<notin> set (map hd rows))) \<and>
    (\<exists>header rows. runClientList (Inr cfg) = ([Table (header # rows)], None) \<and> distinct (map hd rows) \<and>
      list_all2 (\<lambda>row c. (hd row = ''*'' \<longleftrightarrow> client_is_wildcard c) \<and> row ! 1 = cl_name c \<and>
        (row ! 2 = ''yes'' \<longleftrightarrow> cl_enabled c) \<and>
        runClientShow order (Inr cfg) (hd row) = (client_details order c, None)) rows (fc_clients cfg) \<and>
      (runClientShow order (Inr cfg) name = ([], Some (CliNotFound name)) \<longleftrightarrow>
         name \<notin> set (map hd rows) \<and> name \<notin> (\<lambda>c. mac_string (cl_mac c)) ` set (fc_clients cfg)))"
proof
  have cons: "consistent cfg" using assms by (rule load_dir_consistent)
  then have names: "distinct (map me_name (fc_menus cfg))" by (simp add: consistent_def)
  let ?menus = "map menu_row (fc_menus cfg)" and ?clients = "map client_row (fc_clients cfg)"
  have firsts: "map hd ?menus = map me_name (fc_menus cfg)" "map hd ?clients = map client_mac_text (fc_clients cfg)"
    by (simp_all add: menu_row_def client_row_def)
  have menus: "list_all2 (\<lambda>row m. row ! 1 = me_label m \<and> row ! 2 = menu_type_string (me_type m) \<and>
      runMenuShow (Inr cfg) (hd row) = (menu_details m, None)) ?menus (fc_menus cfg)"
    using show_menu_listed [OF names]
    by (auto simp: list.rel_map runMenuShow_def with_config_def menu_row_def intro!: list.rel_refl_strong)
  then show "\<exists>header rows. runMenuList (Inr cfg) = ([Table (header # rows)], None) \<and> distinct (map hd rows) \<and>
      list_all2 (\<lambda>row m. row ! 1 = me_label m \<and> row ! 2 = menu_type_string (me_type m) \<and>
        runMenuShow (Inr cfg) (hd row) = (menu_details m, None)) rows (fc_menus cfg) \<and>
      (runMenuShow (Inr cfg) name = ([], Some (CliNotFound name)) \<longleftrightarrow> name \<notin> set (map hd rows))"
    using names show_menu_missing [of name "fc_menus cfg"]
    by (intro exI [of _ "[''NAME'', ''LABEL'', ''TYPE'', ''KERNEL'', ''SOURCE'']"] exI [of _ ?menus] conjI)
      (simp_all add: runMenuList_def runMenuShow_def with_config_def firsts del: map_map)
  have star: "client_mac_text c = ''*'' \<longleftrightarrow> client_is_wildcard c" if "c \<in> set (fc_clients cfg)" for c
  proof -
    from cons that obtain bs where "cl_mac c = Some bs" by (auto simp: consistent_def)
    with mac_string_not_star [of bs] show ?thesis by (simp add: client_mac_text_def)
  qed
  have shown: "show_client order (client_mac_text c) (fc_clients cfg) = (client_details order c, None)"
    if "c \<in> set (fc_clients cfg)" for c
    using that mac_text_unique [OF cons that] by (intro show_client_first) auto
  have "list_all2 (\<lambda>row c. (hd row = ''*'' \<longleftrightarrow> client_is_wildcard c) \<and> row ! 1 = cl_name c \<and>
      (row ! 2 = ''yes'' \<longleftrightarrow> cl_enabled c) \<and>
      runClientShow order (Inr cfg) (hd row) = (client_details order c, None)) ?clients (fc_clients cfg)"
    using star shown
    by (auto simp: list.rel_map runClientShow_def with_config_def client_row_def intro!: list.rel_refl_strong split: if_splits)
  then show "\<exists>header rows. runClientList (Inr cfg) = ([Table (header # rows)], None) \<and> distinct (map hd rows) \<and>
      list_all2 (\<lambda>row c. (hd row = ''*'' \<longleftrightarrow> client_is_wildcard c) \<and> row ! 1 = cl_name c \<and>
        (row ! 2 = ''yes'' \<longleftrightarrow> cl_enabled c) \<and>
        runClientShow order (Inr cfg) (hd row) = (client_details order c, None)) rows (fc_clients cfg) \<and>
      (runClientShow order (Inr cfg) name = ([], Some (CliNotFound name)) \<longleftrightarrow>
         name \<notin> set (map hd rows) \<and> name \<notin> (\<lambda>c. mac_string (cl_mac c)) ` set (fc_clients cfg))"
    using listed_macs_distinct [OF cons] show_client_missing [of order name "fc_clients cfg"]
    by (intro exI [of _ "[''MAC'', ''NAME'', ''ENABLED'', ''ENTRIES'', ''DEFAULT'', ''SOURCE'']"] exI [of _ ?clients] conjI)
      (simp_all add: runClientList_def runClientShow_def with_config_def firsts del: map_map)
qed

theorem listed_items_shown_witness:
  "\<exists>cfg row c. load_dir (\<lambda>m. m) sample_unmarshal sample_fs ''etc'' = Inr cfg \<and> fc_clients cfg = [c] \<and>
     (\<exists>header. runClientList (Inr cfg) = ([Table [header, row]], None)) \<and> hd row = ''*'' \<and>
     runClientShow (\<lambda>m. m) (Inr cfg) ''*'' = (client_details (\<lambda>m. m) c, None)"
proof -
  have "starts_well (\<lambda>cfg. map client_is_wildcard (fc_clients cfg) = [True])" by code_simp
  then obtain cfg where cfg: "load_dir (\<lambda>m. m) sample_unmarshal sample_fs ''etc'' = Inr cfg"
    "map client_is_wildcard (fc_clients cfg) = [True]" by (rule starts_well_obtain)
  from cfg(2) obtain c where c: "fc_clients cfg = [c]" "client_is_wildcard c" by auto
  from listed_items_shown [OF cfg(1), of "[]" "\<lambda>m. m"] obtain header rows where
    *: "runClientList (Inr cfg) = ([Table (header # rows)], None)"
    "list_all2 (\<lambda>row c. (hd row = ''*'' \<longleftrightarrow> client_is_wildcard c) \<and> row ! 1 = cl_name c \<and>
      (row ! 2 = ''yes'' \<longleftrightarrow> cl_enabled c) \<and>
      runClientShow (\<lambda>m. m) (Inr cfg) (hd row) = (client_details (\<lambda>m. m) c, None)) rows (fc_clients cfg)" by blast
  from *(2) c obtain row where "rows = [row]" "hd row = ''*''"
    "runClientShow (\<lambda>m. m) (Inr cfg) (hd row) = (client_details (\<lambda>m. m) c, None)"
    by (auto simp: list_all2_Cons2)
  with cfg(1) c(1) *(1) show ?thesis by (intro exI [of _ cfg] exI [of _ row] exI [of _ c]) auto
qed

text \<open>C37 (precheck_predicts_serve). Where \<open>precheck\<close> succeeds and the ports it could bind can still be bound, \<open>serve\<close>
  starts, unless the DHCP proxy is enabled with the same port twice: each of the two ports passes
  the check for itself, but the second one cannot be bound beside the first.\<close>

theorem precheck_predicts_serve:
  assumes "snd (runPrecheck (sv_pf env) (load_dir (sv_rng env) (sv_unmarshal env) (sv_fs env) (sv_dir env))) = None"
    and "\<And>port. pe_bind_udp (sv_pf env) port = None \<Longrightarrow> sv_bind env port = None"
  shows "\<exists>cfg. load_dir (sv_rng env) (sv_unmarshal env) (sv_fs env) (sv_dir env) = Inr cfg \<and>
    ((\<exists>n. run_serve env = Inr n) \<longleftrightarrow>
      \<not> (dp_enabled (fc_dhcp_proxy cfg) \<and> dp_proxy_port (fc_dhcp_proxy cfg) = dp_port (fc_dhcp_proxy cfg)))"
proof -
  from assms(1) obtain cfg results where cfg:
    "load_dir (sv_rng env) (sv_unmarshal env) (sv_fs env) (sv_dir env) = Inr cfg" "full_config_validate cfg = None"
    "run_preflight (sv_pf env) cfg = Some (results, True)"
    by (auto simp: runPrecheck_def with_config_def Let_def split: sum.splits option.splits if_splits)
  then have load: "load_config env = Inr cfg" by (simp add: load_config_ok)
  from run_preflight_eq [of "sv_pf env" cfg] cfg(3) have "list_all (udp_free (sv_pf env)) (udp_ports cfg)" by auto
  then have bind: "dp_enabled (fc_dhcp_proxy cfg) \<Longrightarrow>
      sv_bind env (dp_port (fc_dhcp_proxy cfg)) = None \<and> sv_bind env (dp_proxy_port (fc_dhcp_proxy cfg)) = None"
    using assms(2) by (auto simp: udp_ports_def udp_free_def)
  have "dp_enabled (fc_dhcp_proxy cfg) \<Longrightarrow> dp_proxy_port (fc_dhcp_proxy cfg) \<noteq> 0"
    using cfg(2) by (auto simp: validates port_ok_def)
  moreover have "(\<exists>n. run_serve env = Inr n) \<longleftrightarrow> (\<exists>n. start_services env cfg = Inr n)"
    by (simp add: run_serve_def sum_bind_Inr_iff load)
  ultimately show ?thesis
    using bind cfg(1) by (intro exI [of _ cfg]) (auto simp: start_services_ok proxy_Start_ok new_proxy_def)
qed

text \<open>A directory with a configuration without boot loader files, in a system that is ready for it.\<close>

definition ready_fs :: file_system where
  "ready_fs = \<lparr>fs_cwd = ''/srv'', fs_nodes = [(''/'', DirNode), (''/srv'', DirNode), (''/srv/etc'', DirNode),
     (''/srv/etc/data'', DirNode), (''/srv/etc/b.toml'', FileNode ''sample'')]\<rparr>"

definition ready_unmarshal :: "string \<Rightarrow> string + raw_file" where
  "ready_unmarshal data = (if data = ''sample'' then Inr (serve_raw\<lparr>rf_bootloader := Some \<lparr>rbl_dir = ''bootloader'', rbl_uefix64 = [],
     rbl_uefix86 = [], rbl_bios = [], rbl_arm64 = [], rbl_chain_url = chain_template\<rparr>\<rparr>) else Inl ''unexpected'')"

definition ready_serve :: "unit serve_env" where
  "ready_serve = sample_serve
     \<lparr>sv_fs := ready_fs, sv_unmarshal := ready_unmarshal, sv_force := False,
      sv_pf := sample_pf\<lparr>pe_fs := ready_fs, pe_iface := \<lambda>_. Inr (True, [])\<rparr>\<rparr>"

definition ready_config :: "(full_config \<Rightarrow> bool) \<Rightarrow> bool" where
  "ready_config P \<longleftrightarrow> (case load_dir (\<lambda>m. m) ready_unmarshal ready_fs ''etc'' of
      Inl _ \<Rightarrow> False | Inr cfg \<Rightarrow> full_config_validate cfg = None \<and> P cfg)"

theorem precheck_predicts_serve_witness:
  "snd (runPrecheck (sv_pf ready_serve) (load_dir (\<lambda>m. m) ready_unmarshal ready_fs ''etc'')) = None \<and>
   (\<exists>n. run_serve ready_serve = Inr n)"
proof -
  have "ready_config (\<lambda>cfg. sc_data_dir (fc_server cfg) = ''/srv/etc/data'' \<and> configured_files cfg = [] \<and>
      dp_proxy_port (fc_dhcp_proxy cfg) \<noteq> dp_port (fc_dhcp_proxy cfg))"
    by code_simp
  then obtain cfg where cfg: "load_dir (\<lambda>m. m) ready_unmarshal ready_fs ''etc'' = Inr cfg" "full_config_validate cfg = None"
    "sc_data_dir (fc_server cfg) = ''/srv/etc/data''" "configured_files cfg = []"
    "dp_proxy_port (fc_dhcp_proxy cfg) \<noteq> dp_port (fc_dhcp_proxy cfg)"
    by (auto simp: ready_config_def split: sum.splits)
  have proc: "os_read_file ready_fs ''/proc/net/udp'' = None" "os_read_file ready_fs ''/proc/net/tcp'' = None"
    and dir: "fs_lookup ready_fs ''/srv/etc/data'' = Some DirNode" by code_simp+
  have pf: "pe_fs (sv_pf ready_serve) = ready_fs" "pe_iface (sv_pf ready_serve) = (\<lambda>_. Inr (True, []))"
    "pe_bind_udp (sv_pf ready_serve) = (\<lambda>_. None)" "pe_bind_tcp (sv_pf ready_serve) = (\<lambda>_. None)"
    by (simp_all add: ready_serve_def sample_pf_def)
  have ports: "udp_free (sv_pf ready_serve) port" "tcp_free (sv_pf ready_serve) port" for port
    by (simp_all add: udp_free_def tcp_free_def port_listed_def pf proc)
  obtain results where "run_preflight (sv_pf ready_serve) cfg = Some (results, True)"
    using run_preflight_eq [of "sv_pf ready_serve" cfg]
    by (auto simp: interface_up_def pf dir cfg(3,4) ports list_all_iff)
  with cfg(1,2) have pass: "snd (runPrecheck (sv_pf ready_serve) (load_dir (\<lambda>m. m) ready_unmarshal ready_fs ''etc'')) = None"
    by (simp add: runPrecheck_def with_config_def)
  have env: "load_dir (sv_rng ready_serve) (sv_unmarshal ready_serve) (sv_fs ready_serve) (sv_dir ready_serve) = Inr cfg"
    "sv_bind ready_serve port = None" for port
    using cfg(1) by (simp_all add: ready_serve_def sample_serve_def)
  from pass cfg(1) have "snd (runPrecheck (sv_pf ready_serve) (load_dir (sv_rng ready_serve) (sv_unmarshal ready_serve)
      (sv_fs ready_serve) (sv_dir ready_serve))) = None" unfolding env(1) by simp
  from precheck_predicts_serve [OF this env(2)] pass cfg(5) env(1) show ?thesis by auto
qed

end
