(* ===== verification/Services.thy ===== *)
theory Services
  imports Serve
begin

text \<open>
  The life of the services: stopping the DHCP proxy and its read loop (\<open>Stop\<close>, \<open>serve\<close> of
  \<open>internal/service/dhcp/proxy.go\<close>), the options and the end of the TFTP server
  (\<open>internal/service/tftp/server.go\<close>), and the rendering of templates (\<open>internal/service/httpboot/template.go\<close>), whose
  engine is an argument. The context of a loop is a flag that is read at the places where the
  loop looks at it and never goes back to false.
\<close>

section \<open>Sockets of the proxy\<close>

text \<open>A proxy that was never started has no sockets to close.\<close>

definition proxy_Stop :: "bool \<Rightarrow> proxy_server \<Rightarrow> int list \<Rightarrow> int list" where
  "proxy_Stop started p held =
     (if started then remove1 (dp_proxy_port (px_cfg p)) (remove1 (dp_port (px_cfg p)) held) else held)"

section \<open>The read loop\<close>

datatype read_result = ReadDatagram "byte list" "udp_addr option" | ReadFailed

record iteration =
  it_done :: bool
  it_read :: read_result
  it_done_later :: bool

text \<open>The messages that are handed to \<open>handleMessage\<close>, and whether the loop has returned.\<close>

fun proxy_serve :: "(byte list \<Rightarrow> string + 'm) \<Rightarrow> iteration list \<Rightarrow> (udp_addr option \<times> 'm) list \<times> bool" where
  "proxy_serve parse [] = ([], False)"
| "proxy_serve parse (i # its) =
     (if it_done i then ([], True)
      else case it_read i of
        ReadFailed \<Rightarrow> if it_done_later i then ([], True) else proxy_serve parse its
      | ReadDatagram buf peer \<Rightarrow>
          (case parse (take 1500 buf) of
             Inl _ \<Rightarrow> proxy_serve parse its
           | Inr msg \<Rightarrow> let (handled, ended) = proxy_serve parse its in ((peer, msg) # handled, ended)))"

text \<open>Every message is handed to a goroutine of its own. The outcomes are listed in the order of the hand-off; the
  answers go out in any order. \<open>seen k\<close> is the proxy with the registry as the goroutine of the
  \<open>k\<close>th message finds it.\<close>

definition proxy_outcomes ::
  "'m dhcp_lib \<Rightarrow> (byte list \<Rightarrow> string + 'm) \<Rightarrow> (nat \<Rightarrow> proxy_server) \<Rightarrow> iteration list \<Rightarrow> 'm proxy_outcome list" where
  "proxy_outcomes lib parse seen its =
     map (\<lambda>(k, peer, msg). handle_message lib (seen k) peer msg) (enumerate 0 (fst (proxy_serve parse its)))"

section \<open>TFTP\<close>

record tftp_options =
  to_timeout :: int
  to_block_size :: "int option"
  to_retries :: "int option"

text \<open>What \<open>Start\<close> sets on the server of the library; where nothing is set its defaults hold.\<close>

definition tftp_options_of :: "tftp_config \<Rightarrow> tftp_options" where
  "tftp_options_of cfg =
     \<lparr>to_timeout = tc_timeout cfg,
      to_block_size = (if tc_block_size cfg > 0 then Some (tc_block_size cfg) else None),
      to_retries = (if tc_retries cfg > 0 then Some (tc_retries cfg) else None)\<rparr>"

definition tftp_Stop :: "bool \<Rightarrow> tftp_server \<Rightarrow> int list \<Rightarrow> int list" where
  "tftp_Stop started s held = (if started then remove1 (tc_port (ts_cfg s)) held else held)"

section \<open>Templates\<close>

record template_vars =
  tv_server_ip :: string
  tv_http_port :: int
  tv_mac :: string
  tv_hostname :: string
  tv_custom :: "(string, string) gomap option"

datatype template_error = TemplateNotParsed string | TemplateNotExecuted string

definition RenderTemplate ::
  "(string \<Rightarrow> string + 't) \<Rightarrow> ('t \<Rightarrow> template_vars \<Rightarrow> string + string) \<Rightarrow> string \<Rightarrow> template_vars \<Rightarrow> template_error + string" where
  "RenderTemplate parse execute src vars =
     sum_bind (wrap_error TemplateNotParsed (parse src)) (\<lambda>tmpl. wrap_error TemplateNotExecuted (execute tmpl vars))"

section \<open>What the loop handles\<close>

text \<open>The message of an iteration, and the iterations at which the loop ends.\<close>

definition read_message :: "(byte list \<Rightarrow> string + 'm) \<Rightarrow> iteration \<Rightarrow> (udp_addr option \<times> 'm) option" where
  "read_message parse i =
     (case it_read i of
        ReadFailed \<Rightarrow> None
      | ReadDatagram buf peer \<Rightarrow> (case parse (take 1500 buf) of Inl _ \<Rightarrow> None | Inr msg \<Rightarrow> Some (peer, msg)))"

definition ends :: "iteration \<Rightarrow> bool" where
  "ends i \<longleftrightarrow> it_done i \<or> it_read i = ReadFailed \<and> it_done_later i"

lemma proxy_serve_eq:
  "proxy_serve parse its =
     (List.map_filter (read_message parse) (takeWhile (\<lambda>i. \<not> ends i) its), list_ex ends its)"
  by (induction parse its rule: proxy_serve.induct)
    (auto simp: ends_def read_message_def map_filter_simps split: read_result.splits sum.splits)

text \<open>The context is cancelled at most once.\<close>

fun context_steps :: "iteration list \<Rightarrow> bool" where
  "context_steps [] = True"
| "context_steps (i # its) \<longleftrightarrow>
     (it_done i \<longrightarrow> it_done_later i) \<and> (it_done_later i \<longrightarrow> list_all it_done its) \<and> context_steps its"

lemma takeWhile_running:
  "context_steps its \<Longrightarrow>
   List.map_filter (read_message parse) (takeWhile (\<lambda>i. \<not> ends i) its) =
   List.map_filter (read_message parse) (filter (\<lambda>i. \<not> it_done i) its)"
proof (induction its)
  case (Cons i "its")
  show ?case
  proof (cases "it_done_later i")
    case False
    with Cons show ?thesis by (auto simp: ends_def map_filter_simps split: option.splits)
  next
    case True
    with Cons.prems have over: "list_all it_done its" by simp
    then have "takeWhile (\<lambda>i. \<not> ends i) its = []" "filter (\<lambda>i. \<not> it_done i) its = []"
      by (cases "its"; auto simp: ends_def list_all_iff filter_empty_conv)+
    with True show ?thesis by (auto simp: ends_def read_message_def map_filter_simps)
  qed
qed (simp add: map_filter_simps)

section \<open>Properties\<close>

text \<open>C39 (proxy_lifecycle). The proxy holds both of its ports or none: a start that fails leaves the ports as they
  were, and stopping after a start gives them back. Its loop hands over to be handled, in order and once each, exactly the
  well-formed packets it begins to wait for before its context is cancelled, skips the others and
  survives errors of reading; it has returned as soon as it looks at a cancelled context. Each packet is
  handled with the registry as it is at that time.\<close>

theorem proxy_lifecycle:
  "(case proxy_Start bind p held of
      (held', Some err) \<Rightarrow> held' = held
    | (held', None) \<Rightarrow> proxy_Stop True p held' = held \<and> {dp_port (px_cfg p), dp_proxy_port (px_cfg p)} \<subseteq> set held') \<and>
   (context_steps its \<longrightarrow>
      proxy_outcomes lib parse seen its =
        map (\<lambda>(k, peer, msg). handle_message lib (seen k) peer msg)
          (enumerate 0 (List.map_filter (read_message parse) (filter (\<lambda>i. \<not> it_done i) its))) \<and>
      (list_ex it_done its \<longrightarrow> snd (proxy_serve parse its)))"
proof (intro conjI impI)
  show "case proxy_Start bind p held of
      (held', Some err) \<Rightarrow> held' = held
    | (held', None) \<Rightarrow> proxy_Stop True p held' = held \<and> {dp_port (px_cfg p), dp_proxy_port (px_cfg p)} \<subseteq> set held'"
    by (auto simp: proxy_Start_def listen_port_def proxy_Stop_def split: sum.splits option.splits)
next
  assume "context_steps its"
  then show "proxy_outcomes lib parse seen its =
      map (\<lambda>(k, peer, msg). handle_message lib (seen k) peer msg)
        (enumerate 0 (List.map_filter (read_message parse) (filter (\<lambda>i. \<not> it_done i) its)))"
    by (simp add: proxy_outcomes_def proxy_serve_eq takeWhile_running)
next
  assume "list_ex it_done its"
  then show "snd (proxy_serve parse its)" by (auto simp: proxy_serve_eq ends_def list_ex_iff)
qed

theorem proxy_lifecycle_witness:
  "length (proxy_outcomes sample_lib (\<lambda>_. Inr (sample_discover [])) (\<lambda>_. sample_proxy)
     [\<lparr>it_done = False, it_read = ReadDatagram [1] None, it_done_later = False\<rparr>,
      \<lparr>it_done = False, it_read = ReadFailed, it_done_later = False\<rparr>,
      \<lparr>it_done = False, it_read = ReadDatagram [1] None, it_done_later = True\<rparr>,
      \<lparr>it_done = True, it_read = ReadDatagram [1] None, it_done_later = True\<rparr>]) = 2"
  using proxy_lifecycle [where lib = sample_lib and parse = "\<lambda>_. Inr (sample_discover [])" and seen = "\<lambda>_. sample_proxy"
      and its = "[\<lparr>it_done = False, it_read = ReadDatagram [1] None, it_done_later = False\<rparr>,
        \<lparr>it_done = False, it_read = ReadFailed, it_done_later = False\<rparr>,
        \<lparr>it_done = False, it_read = ReadDatagram [1] None, it_done_later = True\<rparr>,
        \<lparr>it_done = True, it_read = ReadDatagram [1] None, it_done_later = True\<rparr>]"]
  by (simp add: read_message_def map_filter_simps)

end
