(* ===== verification/PxeProbe.thy ===== *)
theory PxeProbe
  imports Dhcp
begin

text \<open>
  The search for other PXE servers (\<open>ProbePXEServers\<close> and \<open>BuildPXEDiscover\<close> of
  \<open>internal/health/dhcp_probe.go\<close>) and the Wake-on-LAN packets (\<open>internal/infra/wol/magic.go\<close>). The
  record \<open>pxe_net\<close> is what the search asks of the system and of the package \<open>dhcpv4\<close>: the
  datagrams are those that arrive before the first error of a read, which the deadline
  causes at the latest. An IP address that is \<open>nil\<close> is empty.
\<close>

section \<open>The system\<close>

record 'm pxe_net =
  pn_iface :: "string \<Rightarrow> string + bool"
  pn_addrs :: "string \<Rightarrow> string + ip option list"
  pn_random :: "string + byte list"
  pn_new :: "message_type \<Rightarrow> hwaddr \<Rightarrow> string + 'm"
  pn_broadcast :: "'m \<Rightarrow> 'm"
  pn_listen :: "ip \<Rightarrow> int \<Rightarrow> string option"
  pn_deadline :: "string option"
  pn_send :: "'m \<Rightarrow> udp_addr \<Rightarrow> string option"
  pn_datagrams :: "byte list list"
  pn_parse :: "byte list \<Rightarrow> string + 'm"
  pn_xid :: "'m \<Rightarrow> byte list"

datatype pxe_probe_error =
  NoInterface string string
| NoAddresses string string
| NoIPv4 string
| NoRandom string
| NoDiscover string
| NoBind string string
| NoDeadline string
| NotSent string

record pxe_server =
  xs_ip :: ip
  xs_bootfile :: string

section \<open>The request\<close>

definition BuildPXEDiscover :: "'m dhcp_lib \<Rightarrow> 'm pxe_net \<Rightarrow> hwaddr \<Rightarrow> string + 'm" where
  "BuildPXEDiscover lib net hw =
     sum_bind (pn_new net MessageTypeDiscover hw) (\<lambda>discover.
       let d1 = pn_broadcast net discover;
           d2 = dl_update lib OptionClassIdentifier (Some (string_bytes ''PXEClient'')) d1
       in Inr (dl_update lib OptionClientSystemArchitectureType (Some [0, 7]) d2))"

fun local_ipv4 :: "ip option list \<Rightarrow> ip option" where
  "local_ipv4 [] = None"
| "local_ipv4 (None # addrs) = local_ipv4 addrs"
| "local_ipv4 (Some ip # addrs) = (if ip_to4 ip \<noteq> None then ip_to4 ip else local_ipv4 addrs)"

definition probe_mac :: "byte list \<Rightarrow> hwaddr" where
  "probe_mac bs = Some (bs[0 := and (or (bs ! 0) 2) 0xFE])"

definition bind_probe :: "'m pxe_net \<Rightarrow> ip \<Rightarrow> string option" where
  "bind_probe net ip =
     (case pn_listen net ip 68 of None \<Rightarrow> None | Some _ \<Rightarrow> pn_listen net ip 0)"

section \<open>The replies\<close>

definition reply_server :: "'m dhcp_lib \<Rightarrow> 'm \<Rightarrow> ip option" where
  "reply_server lib reply =
     (let server_ip = dl_server_ip lib reply;
          known = (if server_ip = [] then None else Some server_ip) in
      if server_ip = [] \<or> ip_equal server_ip (ipv4 0 0 0 0) then
        (case dl_option lib reply OptionServerIdentifier of None \<Rightarrow> known | Some si \<Rightarrow> Some si)
      else known)"

definition reply_bootfile :: "'m dhcp_lib \<Rightarrow> 'm \<Rightarrow> string" where
  "reply_bootfile lib reply =
     (if dl_bootfile lib reply \<noteq> [] then dl_bootfile lib reply
      else case dl_option lib reply OptionBootfileName of None \<Rightarrow> [] | Some bf \<Rightarrow> bytes_text bf)"

fun collect_servers ::
  "'m dhcp_lib \<Rightarrow> 'm pxe_net \<Rightarrow> byte list \<Rightarrow> byte list list \<Rightarrow> string list \<Rightarrow> pxe_server list \<Rightarrow> pxe_server list" where
  "collect_servers lib net xid [] seen results = results"
| "collect_servers lib net xid (buf # bufs) seen results =
     (case pn_parse net (take 1500 buf) of
        Inl _ \<Rightarrow> collect_servers lib net xid bufs seen results
      | Inr reply \<Rightarrow>
          if pn_xid net reply \<noteq> xid then collect_servers lib net xid bufs seen results
          else let mt = dl_message_type lib reply in
          if mt \<noteq> MessageTypeOffer \<and> mt \<noteq> MessageTypeAck then collect_servers lib net xid bufs seen results
          else case reply_server lib reply of
            None \<Rightarrow> collect_servers lib net xid bufs seen results
          | Some server_ip \<Rightarrow>
              let key = ip_string server_ip in
              if key \<in> set seen then collect_servers lib net xid bufs seen results
              else collect_servers lib net xid bufs (key # seen)
                (results @ [\<lparr>xs_ip = server_ip, xs_bootfile = reply_bootfile lib reply\<rparr>]))"

definition ProbePXEServers ::
  "'m dhcp_lib \<Rightarrow> 'm pxe_net \<Rightarrow> string \<Rightarrow> pxe_probe_error + pxe_server list" where
  "ProbePXEServers lib net iface =
     (case pn_iface net iface of
        Inl err \<Rightarrow> Inl (NoInterface iface err)
      | Inr loopback \<Rightarrow>
          if loopback then Inr []
          else sum_bind (wrap_error (NoAddresses iface) (pn_addrs net iface)) (\<lambda>addrs.
            case local_ipv4 addrs of
              None \<Rightarrow> Inl (NoIPv4 iface)
            | Some local_ip \<Rightarrow>
                sum_bind (wrap_error NoRandom (pn_random net)) (\<lambda>bytes.
                sum_bind (wrap_error NoDiscover (BuildPXEDiscover lib net (probe_mac bytes))) (\<lambda>discover.
                  case bind_probe net local_ip of
                    Some err \<Rightarrow> Inl (NoBind iface err)
                  | None \<Rightarrow>
                      (case pn_deadline net of
                         Some err \<Rightarrow> Inl (NoDeadline err)
                       | None \<Rightarrow>
                           (case pn_send net discover \<lparr>ua_ip = ipv4 255 255 255 255, ua_port = 67\<rparr> of
                              Some err \<Rightarrow> Inl (NotSent err)
                            | None \<Rightarrow>
                                Inr (collect_servers lib net (pn_xid net discover) (pn_datagrams net) [] [])))))))"

section \<open>Wake-on-LAN\<close>

text \<open>The built-in \<open>copy\<close> to the slice of \<open>dst\<close> from an offset on.\<close>

definition go_copy :: "'a list \<Rightarrow> nat \<Rightarrow> 'a list \<Rightarrow> 'a list" where
  "go_copy dst off src =
     take off dst @ take (length dst - off) src @ drop (off + length src) dst"

definition MagicPacket :: "hwaddr \<Rightarrow> nat + byte list" where
  "MagicPacket mac =
     (if length (go_bytes mac) \<noteq> 6 then Inl (length (go_bytes mac))
      else
        let packet = replicate 102 0;
            packet = fold (\<lambda>i p. p[i := 0xFF]) [0..<6] packet
        in Inr (fold (\<lambda>i p. go_copy p (6 + i * 6) (go_bytes mac)) [0..<16] packet))"

record udp_net =
  un_resolve :: "string \<Rightarrow> string + udp_addr"
  un_dial :: "udp_addr \<Rightarrow> string option"
  un_write :: "udp_addr \<Rightarrow> byte list \<Rightarrow> string option"

datatype wol_error =
  BadMACLength nat
| BadBroadcast string string
| DialFailed string
| WriteFailed string

text \<open>The datagram that is sent, and where to.\<close>

definition wol_Send :: "udp_net \<Rightarrow> hwaddr \<Rightarrow> string \<Rightarrow> wol_error + udp_addr \<times> byte list" where
  "wol_Send net mac broadcast =
     sum_bind (wrap_error BadMACLength (MagicPacket mac)) (\<lambda>packet.
       let broadcast = (if broadcast = [] then ''255.255.255.255:9'' else broadcast) in
       sum_bind (wrap_error (BadBroadcast broadcast) (un_resolve net broadcast)) (\<lambda>addr.
         case un_dial net addr of
           Some err \<Rightarrow> Inl (DialFailed err)
         | None \<Rightarrow>
             (case un_write net addr packet of
                Some err \<Rightarrow> Inl (WriteFailed err)
              | None \<Rightarrow> Inr (addr, packet))))"

section \<open>The servers found\<close>

text \<open>The replies of a list of datagrams that name a server, with it.\<close>

definition server_reply ::
  "'m dhcp_lib \<Rightarrow> 'm pxe_net \<Rightarrow> byte list \<Rightarrow> byte list \<Rightarrow> pxe_server option" where
  "server_reply lib net xid buf =
     (case pn_parse net (take 1500 buf) of
        Inl _ \<Rightarrow> None
      | Inr reply \<Rightarrow>
          if pn_xid net reply = xid \<and> dl_message_type lib reply \<in> {MessageTypeOffer, MessageTypeAck}
          then map_option (\<lambda>ip. \<lparr>xs_ip = ip, xs_bootfile = reply_bootfile lib reply\<rparr>) (reply_server lib reply)
          else None)"

text \<open>The first element for each key.\<close>

fun firsts_by :: "('a \<Rightarrow> 'k) \<Rightarrow> 'a list \<Rightarrow> 'a list" where
  "firsts_by key [] = []"
| "firsts_by key (x # xs) = x # firsts_by key (filter (\<lambda>y. key y \<noteq> key x) xs)"

abbreviation server_key :: "pxe_server \<Rightarrow> string" where
  "server_key s \<equiv> ip_string (xs_ip s)"

lemma collect_servers_Cons:
  "collect_servers lib net xid (buf # bufs) seen results =
     (case server_reply lib net xid buf of
        None \<Rightarrow> collect_servers lib net xid bufs seen results
      | Some s \<Rightarrow>
          if server_key s \<in> set seen then collect_servers lib net xid bufs seen results
          else collect_servers lib net xid bufs (server_key s # seen) (results @ [s]))"
  by (simp add: server_reply_def Let_def split: sum.split option.split)

lemma collect_servers_eq:
  "collect_servers lib net xid bufs seen results =
     results @ firsts_by server_key
       (filter (\<lambda>s. server_key s \<notin> set seen) (List.map_filter (server_reply lib net xid) bufs))"
proof (induction bufs arbitrary: seen results)
  case Nil
  then show ?case by (simp add: map_filter_simps)
next
  case (Cons buf bufs)
  show ?case
    by (cases "server_reply lib net xid buf")
      (simp_all add: collect_servers_Cons Cons.IH conj_commute del: collect_servers.simps)
qed

lemma firsts_by_set: "key ` set (firsts_by key xs) = key ` set xs"
  by (induction key xs rule: firsts_by.induct) auto

lemma firsts_by_distinct: "distinct (map key (firsts_by key xs))"
proof (induction key xs rule: firsts_by.induct)
  case (2 key x xs)
  have "key x \<notin> key ` set (firsts_by key (filter (\<lambda>y. key y \<noteq> key x) xs))"
    by (auto simp: firsts_by_set)
  with 2 show ?case by simp
qed simp

lemma firsts_by_find: "x \<in> set (firsts_by key xs) \<Longrightarrow> find (\<lambda>y. key y = key x) xs = Some x"
proof (induction key xs rule: firsts_by.induct)
  case (2 key x' xs)
  have drop: "find P (filter Q ys) = find P ys" if "\<And>y. P y \<Longrightarrow> Q y" for P Q and ys :: "'a list"
    using that by (induction ys) auto
  show ?case
  proof (cases "x = x'")
    case False
    with 2(2) have x: "x \<in> set (firsts_by key (filter (\<lambda>y. key y \<noteq> key x') xs))" by simp
    then have "key x \<in> key ` {y \<in> set xs. key y \<noteq> key x'}"
      using firsts_by_set [of key "filter (\<lambda>y. key y \<noteq> key x') xs"] by auto
    then have "key x \<noteq> key x'" by auto
    with 2(1) [OF x] drop [of "\<lambda>y. key y = key x" "\<lambda>y. key y \<noteq> key x'" xs] show ?thesis by auto
  qed simp
qed simp

section \<open>The magic packet\<close>

lemma length_go_copy: "off + length src \<le> length dst \<Longrightarrow> length (go_copy dst off src) = length dst"
  by (simp add: go_copy_def)

lemma go_copy_fold:
  assumes "length mac = k" and "length dst = off + n * k" and "m \<le> n"
  shows "fold (\<lambda>i p. go_copy p (off + i * k) mac) [0..<m] dst =
    take off dst @ concat (replicate m mac) @ drop (off + m * k) dst"
  using assms(3)
proof (induction m)
  case 0
  then show ?case by simp
next
  case (Suc m)
  have "m * k + k \<le> n * k" using Suc.prems by (metis Suc_leD add.commute mult_Suc mult_le_mono1)
  moreover have "length (concat (replicate m mac)) = m * k"
    using assms(1) by (induction m) simp_all
  ultimately show ?case
    using Suc assms(1,2) by (simp add: go_copy_def replicate_append_same [symmetric] ac_simps del: replicate_append_same)
qed

lemma fold_updates: "n \<le> length xs \<Longrightarrow> fold (\<lambda>i p. p[i := v]) [0..<n] xs = replicate n v @ drop n xs"
proof (induction n)
  case (Suc n)
  then have "drop n xs = xs ! n # drop (Suc n) xs" by (simp add: Cons_nth_drop_Suc)
  with Suc show ?case by (simp add: list_update_append replicate_append_same [symmetric])
qed simp

lemma probe_mac_local:
  assumes "length bs = 6"
  shows "\<exists>b rest. probe_mac bs = Some (b # rest) \<and> length rest = 5 \<and> bit b 1 \<and> \<not> bit b 0"
proof -
  obtain b rest where bs: "bs = b # rest" "length rest = 5"
    using assms by (cases bs) auto
  have "bit (and (or b 2) (0xFE :: byte)) 1" "\<not> bit (and (or b 2) (0xFE :: byte)) 0"
    by (simp_all add: bit_simps)
  with bs show ?thesis by (simp add: probe_mac_def)
qed

definition sample_offer :: "ip \<Rightarrow> string \<Rightarrow> sample_packet" where
  "sample_offer server bootfile =
     \<lparr>sp_type = MessageTypeOffer, sp_hwaddr = None, sp_server_ip = server, sp_bootfile = [],
      sp_options = (\<lambda>_. None)(OptionBootfileName := Some (string_bytes bootfile),
        OptionServerIdentifier := Some [10, 0, 0, 9])\<rparr>"

definition sample_net :: "sample_packet pxe_net" where
  "sample_net =
     \<lparr>pn_iface = (\<lambda>_. Inr False), pn_addrs = (\<lambda>_. Inr [None, Some (ipv4 10 0 0 1)]),
      pn_random = Inr [1, 2, 3, 4, 5, 6],
      pn_new = (\<lambda>t hw. Inr ((sample_discover [])\<lparr>sp_type := t, sp_hwaddr := hw\<rparr>)),
      pn_broadcast = id, pn_listen = (\<lambda>_ port. if port = 0 then None else Some ''permission denied''),
      pn_deadline = None, pn_send = (\<lambda>_ _. None), pn_datagrams = [[], [1], [2], [1]],
      pn_parse = (\<lambda>buf. if buf = [] then Inl ''short packet''
        else Inr (sample_offer (if buf = [1] then [0, 0, 0, 0] else [10, 0, 0, 9]) ''a.efi'')),
      pn_xid = (\<lambda>_. [7, 7, 7, 7])\<rparr>"

section \<open>Properties\<close>

text \<open>C38 (pxe_probe_spec). A search that reports servers on an interface that is not a loopback
  has sent a Discover, from a random address that is locally administered and unicast; the servers
  are those named by the offers and acknowledgements to this Discover, each once, with the
  boot file of the first reply that names it.\<close>

theorem pxe_probe_spec:
  assumes "ProbePXEServers lib net iface = Inr servers" and "pn_iface net iface = Inr False"
    and "\<And>bytes. pn_random net = Inr bytes \<Longrightarrow> length bytes = 6"
  shows "\<exists>b rest discover. BuildPXEDiscover lib net (Some (b # rest)) = Inr discover \<and>
      length rest = 5 \<and> bit b 1 \<and> \<not> bit b 0 \<and>
      pn_send net discover \<lparr>ua_ip = ipv4 255 255 255 255, ua_port = 67\<rparr> = None \<and>
      distinct (map server_key servers) \<and>
      server_key ` set servers =
        server_key ` set (List.map_filter (server_reply lib net (pn_xid net discover)) (pn_datagrams net)) \<and>
      list_all (\<lambda>s. find (\<lambda>r. server_key r = server_key s)
        (List.map_filter (server_reply lib net (pn_xid net discover)) (pn_datagrams net)) = Some s) servers"
proof -
  from assms(1,2) obtain bytes discover where run:
    "pn_random net = Inr bytes" "BuildPXEDiscover lib net (probe_mac bytes) = Inr discover"
    "pn_send net discover \<lparr>ua_ip = ipv4 255 255 255 255, ua_port = 67\<rparr> = None"
    "servers = collect_servers lib net (pn_xid net discover) (pn_datagrams net) [] []"
    by (auto simp: ProbePXEServers_def sum_bind_Inr_iff wrap_error_Inr_iff split: option.splits)
  obtain b rest where mac: "probe_mac bytes = Some (b # rest)" "length rest = 5" "bit b 1" "\<not> bit b 0"
    using probe_mac_local [OF assms(3) [OF run(1)]] by blast
  let ?replies = "List.map_filter (server_reply lib net (pn_xid net discover)) (pn_datagrams net)"
  have "servers = firsts_by server_key ?replies"
    by (simp add: run(4) collect_servers_eq)
  with run(2,3) mac show ?thesis
    by (auto simp: firsts_by_distinct firsts_by_set list_all_iff intro!: exI [of _ b] firsts_by_find)
qed

theorem pxe_probe_spec_witness:
  "\<exists>b. ProbePXEServers sample_lib sample_net ''eth0'' = Inr [\<lparr>xs_ip = [10, 0, 0, 9], xs_bootfile = ''a.efi''\<rparr>] \<and>
     \<not> bit (b :: byte) 0"
proof -
  have run: "ProbePXEServers sample_lib sample_net ''eth0'' = Inr [\<lparr>xs_ip = [10, 0, 0, 9], xs_bootfile = ''a.efi''\<rparr>]"
    by code_simp
  have "pn_iface sample_net ''eth0'' = Inr False" by (simp add: sample_net_def)
  moreover have "length bytes = 6" if "pn_random sample_net = Inr bytes" for bytes
    using that by (auto simp: sample_net_def)
  ultimately show ?thesis using pxe_probe_spec [OF run] run by blast
qed

text \<open>A magic packet is made for the addresses of six bytes, and for no other; it is
  six bytes 0xFF and the address sixteen times, 102 bytes. What is sent is this packet, to the
  address given or to port 9 of the broadcast address.\<close>

lemma magic_packet_spec:
  "MagicPacket mac =
     (if length (go_bytes mac) = 6 then Inr (replicate 6 0xFF @ concat (replicate 16 (go_bytes mac)))
      else Inl (length (go_bytes mac))) \<and>
   (\<forall>addr packet. wol_Send net mac broadcast = Inr (addr, packet) \<longrightarrow>
      length packet = 102 \<and> MagicPacket mac = Inr packet \<and>
      un_resolve net (if broadcast = [] then ''255.255.255.255:9'' else broadcast) = Inr addr)"
proof -
  let ?m = "go_bytes mac"
  have packet: "MagicPacket mac = Inr (replicate 6 0xFF @ concat (replicate 16 ?m))" if "length ?m = 6"
  proof -
    have "fold (\<lambda>i p. p[i := 0xFF]) [0..<6] (replicate 102 (0 :: byte)) = replicate 6 0xFF @ drop 6 (replicate 102 0)"
      by (rule fold_updates) simp
    with go_copy_fold [OF that, of "replicate 6 0xFF @ drop 6 (replicate 102 0)" 6 16 16] show ?thesis
      unfolding MagicPacket_def Let_def using that by simp
  qed
  moreover have "length (replicate 6 0xFF @ concat (replicate 16 ?m)) = 102" if "length ?m = 6"
    using that by (simp add: length_concat sum_list_replicate)
  moreover have "MagicPacket mac = Inl (length ?m)" if "length ?m \<noteq> 6"
    using that by (simp add: MagicPacket_def)
  ultimately show ?thesis
    by (auto simp: wol_Send_def sum_bind_Inr_iff wrap_error_Inr_iff Let_def split: option.splits if_splits)
qed

lemma magic_packet_spec_example:
  "MagicPacket (Some [1, 2, 3, 4, 5, 6]) = Inr (replicate 6 0xFF @ concat (replicate 16 [1, 2, 3, 4, 5, 6]))"
  using magic_packet_spec [of "Some [1, 2, 3, 4, 5, 6]"] by (simp add: go_bytes_def)

end
