(* ===== verification/WizardBoot.thy ===== *)
theory WizardBoot
  imports WizardRun Routes
begin

text \<open>
  The setup wizard together with the boot server: what a machine gets for the menu entry of
  netboot.xyz that the wizard adds when the files are to be served locally.
\<close>

definition self_hosted_path :: string where
  "self_hosted_path = ''/netboot/netboot.xyz.lkrn''"

lemma self_hosted_chain:
  "bp_chain (me_boot (menu_of_state self_hosted_entry)) =
     template_string [Lit ''http://'', Var ''server_ip'', Lit '':'', Var ''http_port'', Lit self_hosted_path]"
  by (simp add: menu_of_state_def self_hosted_entry_def template_string_def placeholder_def self_hosted_path_def)

lemma no_route: "clean_url p = p \<Longrightarrow> match_pattern (split_char slash (tl p)) = None \<Longrightarrow>
    split_char slash (tl p) \<notin> {[''api''], [''data'']} \<Longrightarrow> route meth p = NoRoute"
  by (simp add: route_def Let_def)

lemma self_hosted_no_route: "route meth self_hosted_path = NoRoute"
proof (rule no_route)
  show "clean_url self_hosted_path = self_hosted_path" by code_simp
  show "match_pattern (split_char slash (tl self_hosted_path)) = None" by code_simp
  show "split_char slash (tl self_hosted_path) \<notin> {[''api''], [''data'']}" by code_simp
qed

text \<open>C36 (self_hosted_netboot_missing). The script for the self-hosted entry of netboot.xyz chains to a path of this server
  for which the server has no route: every request for it is answered with 404, whatever files
  there are. The file that the wizard downloads lies below the data directory, which is served
  under \<open>/data/\<close>.\<close>

theorem self_hosted_netboot_missing:
  assumes "vars_ok vars" and "\<And>s. range_order (rng s)"
  shows "write_boot_entry rng (menu_of_state self_hosted_entry) vars =
      ''chain --autofree http://'' @ iv_server_ip vars @ '':'' @ dec_of_int (iv_http_port vars) @ self_hosted_path @
      '' || goto failed'' @ nl \<and>
    serve_boot rng' fs data_dir h meth self_hosted_path = (h, Answer (http_error ''404 page not found'' 404)) \<and>
    route ''GET'' (''/data'' @ self_hosted_path) = StaticData (tl self_hosted_path)"
proof (intro conjI)
  let ?ts = "[Lit ''http://'', Var ''server_ip'', Lit '':'', Var ''http_port'', Lit self_hosted_path]"
  have "\<forall>t \<in> set ?ts. token_ok t" by (simp add: name_ok_def self_hosted_path_def)
  from substitute_template [OF this assms] have
    "substitute_vars rng (template_string ?ts) vars = ''http://'' @ iv_server_ip vars @ '':'' @ dec_of_int (iv_http_port vars) @ self_hosted_path"
    by (simp add: script_env_def)
  then show "write_boot_entry rng (menu_of_state self_hosted_entry) vars =
      ''chain --autofree http://'' @ iv_server_ip vars @ '':'' @ dec_of_int (iv_http_port vars) @ self_hosted_path @
      '' || goto failed'' @ nl"
    unfolding write_boot_entry_def Let_def self_hosted_chain
    by (simp add: menu_of_state_def empty_boot_params_def template_string_def)
  show "serve_boot rng' fs data_dir h meth self_hosted_path = (h, Answer (http_error ''404 page not found'' 404))"
    by (simp add: serve_boot_def self_hosted_no_route)
  show "route ''GET'' (''/data'' @ self_hosted_path) = StaticData (tl self_hosted_path)" by code_simp
qed

theorem self_hosted_netboot_missing_witness:
  "write_boot_entry (\<lambda>_ m. m) (menu_of_state self_hosted_entry) sample_vars =
     ''chain --autofree http://10.0.0.1:8080/netboot/netboot.xyz.lkrn || goto failed'' @ nl"
proof -
  have "vars_ok sample_vars"
    by (simp add: vars_ok_def sample_vars_def go_map_def map_wf_def name_ok_def)
  from self_hosted_netboot_missing [OF this, of "\<lambda>_ m. m"] show ?thesis
    by (simp add: sample_vars_def self_hosted_path_def dec_of_int_def dec_of_nat.simps dec_digit_def)
qed

end
