(* ===== verification/Spec2Isabelle.thy ===== *)
theory Spec2Isabelle
  imports SessionManager Commands Services PxeProbe WizardBoot
begin

text \<open>
  Bootforge: a verification of the PXE boot server.

  \<^bold>\<open>The program.\<close> A machine that boots from the network broadcasts a DHCP Discover. The DHCP
  proxy answers it with the name of a boot loader, which the machine fetches by TFTP; the boot
  loader, iPXE, asks again and is given the URL of a script for its MAC address. The HTTP
  server looks the client up in the registry, resolves the menu entries configured for it and
  generates the script: a menu, a direct boot, or once the entry of a boot override.
  The tables come from TOML files, which are merged and validated; they can be replaced while
  the server runs. Around this there are pre-flight and health checks, a management interface
  over HTTP, a command line for both, and a wizard that writes the configuration.

  \<^bold>\<open>The standard library.\<close>
  \<^item> \<open>Prelude\<close>: strings, numbers in decimal, maps as association lists (the type \<open>gomap\<close>) whose
    iteration order is an argument of the code that ranges over them, error sums, and the
    collection \<open>validates\<close>.
  \<^item> \<open>HwAddr\<close>, \<open>NetIP\<close>: \<open>net.HardwareAddr\<close>, \<open>net.ParseMAC\<close>, \<open>ParseMAC\<close> of \<open>internal/domain/client.go\<close>,
    and \<open>net.IP\<close>; printed addresses parse to themselves.
  \<^item> \<open>Paths\<close>: package \<open>filepath\<close>; a clean absolute path is a list of elements.
  \<^item> \<open>Duration\<close>: \<open>time.Duration\<close>, printing, parsing, rounding; \<open>strconv.Atoi\<close>.

  \<^bold>\<open>Configuration.\<close>
  \<^item> \<open>Domain\<close>: the types of \<open>internal/domain\<close> and every \<open>Validate\<close> method.
  \<^item> \<open>TomlParser\<close>, \<open>TomlLoader\<close>, \<open>TomlWriter\<close> (\<open>internal/infra/toml\<close>): the raw structs with their
    conversion and defaults, the directory scan with merge and reference check over a
    file system (\<open>file_system\<close>), and the way back. The lemmas show what the merge accepts and returns,
    that a loaded configuration is \<open>consistent\<close>, and the round trip through a file.

  \<^bold>\<open>The server core\<close> (\<open>internal/server\<close>, \<open>internal/infra/store\<close>).
  \<^item> \<open>Session\<close>, \<open>SessionStore\<close>, \<open>SessionManager\<close>: the state machine of a boot session; the store
    interface as a record of operations with a locale of its laws, interpreted on the
    in-memory store; the manager. Sessions live in a heap, since the Go code shares pointers.
  \<^item> \<open>Registry\<close>: client registry with boot overrides, menu resolver; keyed tables and one-shot
    stores are locales, interpreted on the clients, the menus and the overrides.
  \<^item> \<open>Ipxe\<close>: the script generator; scripts are read back as lines to show that every jump has
    its label, and substitution is compared with a simultaneous one.
  \<^item> \<open>ServerCore\<close>: \<open>ConfigManager\<close> and the life of the server with its services.
  \<^item> \<open>EventBus\<close>: channels, and the interleaving of publishers and subscribers as a step
    relation with an invariant over all reachable states.
  \<^item> \<open>LogBuffer\<close>: the ring buffer; the locale \<open>bounded_log\<close> is its contract, and that of the store
    of health results in \<open>Health\<close>.

  \<^bold>\<open>Services\<close> (\<open>internal/service\<close>, \<open>internal/health\<close>, \<open>internal/ui/api\<close>).
  \<^item> \<open>BootHandler\<close>, \<open>BootService\<close>: the handler of boot scripts, and sequences of requests, overrides
    and the two halves of a reload on a loaded configuration.
  \<^item> \<open>Dhcp\<close>: packets and replies of the proxy; \<open>Tftp\<close>: names, files and the generated script.
  \<^item> \<open>Routes\<close>: the multiplexer, static files, and the chain from the DHCP answer to the script.
  \<^item> \<open>Api\<close>, \<open>ApiRouter\<close>: handlers and routes of the management interface; every answer has the
    type of its route.
  \<^item> \<open>BootFile\<close>, \<open>Preflight\<close>: analysis of boot loader files, and the checks before the start.
  \<^item> \<open>Health\<close>, \<open>Probes\<close>, \<open>PxeProbe\<close>: results and checker, the probes, the search for other
    PXE servers, Wake-on-LAN packets.
  \<^item> \<open>Services\<close>: sockets and read loop of the proxy, options of TFTP, templates.

  \<^bold>\<open>Commands\<close> (\<open>internal/ui/cli\<close>).
  \<^item> \<open>Serve\<close>: the command \<open>serve\<close>. The record \<open>node\<close> is the started process: the registry, the menus and the
    sessions once, as all services hold pointers to them, and the parts of each service. \<open>node_run\<close> is a
    sequence of requests, packets, transfers and timer ticks. Its invariant \<open>node_ok\<close> is that the
    tables are those of one consistent, valid configuration and the histories keep their bounds.
  \<^item> \<open>Commands\<close>: the other commands, as functions to their output and error.
  \<^item> \<open>Wizard\<close>, \<open>WizardSteps\<close>, \<open>WizardRun\<close>, \<open>WizardBoot\<close>: the state of the wizard and its
    conversions, the dialogue over a form library, the proof that it ends and keeps
    references resolved, and a scripted user for the examples.

  \<^bold>\<open>Parameters.\<close> Code outside the repository is an argument of the definitions: the DHCP packet
  library (\<open>dhcp_lib\<close>, with \<open>dhcp_lib_ok\<close> as what its documentation says), reading and writing TOML
  (functions between text and raw structs), the form library (\<open>form_lib\<close> with \<open>form_lib_ok\<close>: an answer
  uses up input and respects the validation it was given), the network, the clock, sockets and
  \<open>statfs\<close>. Each hypothesis about them is met by a sample instance in the witnesses.

  \<^bold>\<open>Errors, loops and bounds.\<close> Errors are values of sums that carry the data of the message, or
  \<^const>\<open>None\<close> for success where a function returns only an error; a panic is a value of its own where the
  code can panic. All functions are total except the loops of the dialogue, which are partial
  functions to an option; the wizard theorems show that they return a value. Words have
  their width where it matters: bytes, the session counter (fewer than \<open>2 ^ 64\<close> sessions, for the distinctness
  of ids), architecture codes, and the product of block count and block size, which wraps. Other
  numbers are unbounded integers, which Go's 64 bits do not overflow in the ranges that
  validation admits; durations are below \<open>2 ^ 63\<close> nanoseconds, and the fraction of a parsed duration is
  computed exactly where Go uses a float. Strings are lists of bytes; folding case and trimming
  space treat ASCII only. Paths are lexical: no links, no permissions, and no percent
  escapes in URLs.

  \<^bold>\<open>Concurrency.\<close> An operation that holds a lock for its whole body is one step. The event
  bus and the two parts of a reload are interleaved explicitly; \<open>Serve\<close> takes requests one at a time.

  \<^bold>\<open>Not modelled.\<close> Logging, the encoding of JSON, the alignment of tables and the texts of errors
  (their data is kept); declarations of commands and flags; the block transfer of TFTP and the
  connections of HTTP, which are libraries; the shutdown of \<open>serve\<close> on a signal, whose effect on reads
  that are under way depends on the runtime. \<open>internal/ui/api/websocket.go\<close> and \<open>internal/ui/web/embed.go\<close> hold no
  code.
\<close>

end
